(* ===== verification/Prelude.thy ===== *)
theory Prelude
  imports
    Main
    "HOL-Library.Finite_Map"
    "HOL-Library.State_Monad"
    "HOL-Library.Char_ord"
    "HOL-Library.List_Lexorder"
    "HOL-Library.Sublist"
begin

text \<open>
  The vocabulary every component shares: the collections of rules the proofs draw on, the
  Go values the controller computes with (strings, \<^verbatim>\<open>int32\<close> counters, error values, string
  maps and string sets) and the generic lemmas about them.

  \<^item> A Go \<^verbatim>\<open>string\<close> is a \<^typ>\<open>string\<close>, a list of bytes; \<^verbatim>\<open>len\<close> is \<^const>\<open>length\<close> and Go's
    \<^verbatim>\<open><\<close> is the lexicographic order of the library.
  \<^item> \<^verbatim>\<open>map[string]string\<close> is a finite map; a nil map and an empty map are the same value,
    as they are for every operation the controller applies to them.
  \<^item> \<^verbatim>\<open>sets.Set[string]\<close> is a finite set, \<^verbatim>\<open>sets.List\<close> its sorted enumeration.
  \<^item> A value of type \<^verbatim>\<open>error\<close> is a \<open>go_error\<close>, nil is \<^const>\<open>None\<close>; a pair
    \<^verbatim>\<open>(T, error)\<close> of which callers read one half only is a sum.
\<close>

named_theorems policy_intros \<open>rules that decompose a program under a trace policy\<close>
named_theorems lib_laws \<open>laws of the imported packages, as rewrite rules\<close>

type_synonym kv = "(string, string) fmap"
type_synonym strset = "string fset"
type_synonym key = "string \<times> string" \<comment> \<open>\<^verbatim>\<open>types.NamespacedName\<close>: (namespace, name)\<close>

abbreviation return :: "'a \<Rightarrow> ('s, 'a) state" where
  "return \<equiv> State_Monad.return"

section \<open>Strings\<close>

text \<open>\<^verbatim>\<open>strings.Join\<close>.\<close>

fun strings_Join :: "string list \<Rightarrow> string \<Rightarrow> string" where
  "strings_Join [] sep = []"
| "strings_Join [p] sep = p"
| "strings_Join (p # q # ps) sep = p @ sep @ strings_Join (q # ps) sep"

text \<open>\<^verbatim>\<open>strings.HasPrefix\<close> and \<^verbatim>\<open>strings.TrimSuffix\<close>.\<close>

definition strings_HasPrefix :: "string \<Rightarrow> string \<Rightarrow> bool" where
  "strings_HasPrefix s p \<longleftrightarrow> take (length p) s = p"

definition strings_TrimSuffix :: "string \<Rightarrow> string \<Rightarrow> string" where
  "strings_TrimSuffix s suf =
     (if length suf \<le> length s \<and> drop (length s - length suf) s = suf
      then take (length s - length suf) s else s)"

text \<open>The verb \<^verbatim>\<open>%d\<close> of package fmt.\<close>

fun nat_digits :: "nat \<Rightarrow> string" where
  "nat_digits n = (if n < 10 then [char_of (48 + n)]
                   else nat_digits (n div 10) @ [char_of (48 + n mod 10)])"

definition fmt_d :: "int \<Rightarrow> string" where
  "fmt_d i = (if i < 0 then ''-'' @ nat_digits (nat (- i)) else nat_digits (nat i))"

text \<open>
  The verb \<^verbatim>\<open>%q\<close>: a double-quoted Go literal. A byte outside ASCII is written as a
  \<^verbatim>\<open>\x\<close> escape, which is what Go does for bytes that are not UTF-8.
\<close>

definition hex_digit :: "nat \<Rightarrow> char" where
  "hex_digit n = ''0123456789abcdef'' ! (n mod 16)"

definition quote_byte :: "char \<Rightarrow> string" where
  "quote_byte c =
     (let n = of_char c :: nat; b = CHR 0x5C in
      if n = 0x22 \<or> n = 0x5C then [b, c]
      else if n = 7 then [b, CHR ''a''] else if n = 8 then [b, CHR ''b'']
      else if n = 9 then [b, CHR ''t''] else if n = 10 then [b, CHR ''n'']
      else if n = 11 then [b, CHR ''v''] else if n = 12 then [b, CHR ''f'']
      else if n = 13 then [b, CHR ''r'']
      else if n < 32 \<or> n \<ge> 127 then [b, CHR ''x'', hex_digit (n div 16), hex_digit n]
      else [c])"

definition fmt_q :: "string \<Rightarrow> string" where
  "fmt_q s = [CHR 0x22] @ concat (map quote_byte s) @ [CHR 0x22]"

section \<open>Fixed-width counters\<close>

text \<open>Conversion to \<^verbatim>\<open>int32\<close>, and \<^verbatim>\<open>int32\<close> arithmetic: two's complement wrap-around.\<close>

definition int32 :: "int \<Rightarrow> int" where
  "int32 n = (n + 2 ^ 31) mod 2 ^ 32 - 2 ^ 31"

definition int32_range :: "int \<Rightarrow> bool" where
  "int32_range n \<longleftrightarrow> - (2 ^ 31) \<le> n \<and> n < 2 ^ 31"

abbreviation add32 :: "int \<Rightarrow> int \<Rightarrow> int" where
  "add32 a b \<equiv> int32 (a + b)"

section \<open>Errors\<close>

text \<open>
  \<^item> \<open>ErrText\<close>: \<^verbatim>\<open>errors.New\<close> and \<^verbatim>\<open>fmt.Errorf\<close> without \<^verbatim>\<open>%w\<close>;
  \<^item> \<open>ApiNotFound\<close>, \<open>ApiError\<close>: what an API call reports, the first with reason NotFound;
  \<^item> \<open>ErrChildConflict\<close>: the sentinel \<^verbatim>\<open>errChildConflict\<close>;
  \<^item> \<open>ErrWrapped\<close>: \<^verbatim>\<open>fmt.Errorf\<close> with one \<^verbatim>\<open>%w\<close>, the text before and after it;
  \<^item> \<open>ErrJoined\<close>: \<^verbatim>\<open>errors.Join\<close>.
\<close>

datatype go_error =
    ErrText string
  | ApiNotFound string
  | ApiError string
  | ErrChildConflict
  | ErrWrapped string go_error string
  | ErrJoined "go_error list"

fun error_text :: "go_error \<Rightarrow> string" where
  "error_text (ErrText t) = t"
| "error_text (ApiNotFound t) = t"
| "error_text (ApiError t) = t"
| "error_text ErrChildConflict = ''generated child conflicts with an existing object''"
| "error_text (ErrWrapped pre e post) = pre @ error_text e @ post"
| "error_text (ErrJoined es) = strings_Join (map error_text es) [CHR 0x0A]"

text \<open>\<^verbatim>\<open>errors.Is(err, errChildConflict)\<close>: the sentinel anywhere in the tree of wrapped errors.\<close>

fun isChildConflict :: "go_error \<Rightarrow> bool" where
  "isChildConflict ErrChildConflict = True"
| "isChildConflict (ErrWrapped _ e _) = isChildConflict e"
| "isChildConflict (ErrJoined es) = list_ex isChildConflict es"
| "isChildConflict _ = False"

text \<open>
  \<^verbatim>\<open>apierrors.IsNotFound\<close> (\<^verbatim>\<open>errors.As\<close> finds the first API status in the tree of wrapped errors, and its
  reason counts) and \<^verbatim>\<open>client.IgnoreNotFound\<close>.
\<close>

fun notFoundStatus :: "go_error \<Rightarrow> bool option" where
  "notFoundStatus (ApiNotFound _) = Some True"
| "notFoundStatus (ApiError _) = Some False"
| "notFoundStatus (ErrWrapped _ e _) = notFoundStatus e"
| "notFoundStatus (ErrJoined es) = (case filter (\<lambda>s. s \<noteq> None) (map notFoundStatus es) of [] \<Rightarrow> None | s # _ \<Rightarrow> s)"
| "notFoundStatus _ = None"

definition isNotFound :: "go_error \<Rightarrow> bool" where
  "isNotFound e \<longleftrightarrow> notFoundStatus e = Some True"

lemma isNotFound_simps [simp]:
  "isNotFound (ApiNotFound t)" "\<not> isNotFound (ApiError t)" "\<not> isNotFound (ErrText t)" "\<not> isNotFound ErrChildConflict"
  "isNotFound (ErrWrapped a e b) = isNotFound e"
  by (simp_all add: isNotFound_def)

definition ignoreNotFound :: "go_error option \<Rightarrow> go_error option" where
  "ignoreNotFound e = (case e of None \<Rightarrow> None | Some x \<Rightarrow> if isNotFound x then None else Some x)"

text \<open>\<^verbatim>\<open>errors.Join\<close>: drops the nils, and is nil when nothing is left.\<close>

definition errors_Join :: "go_error option list \<Rightarrow> go_error option" where
  "errors_Join es =
     (case List.map_filter (\<lambda>e. e) es of [] \<Rightarrow> None | xs \<Rightarrow> Some (ErrJoined xs))"

section \<open>Lemmas on strings and counters\<close>

lemma strings_TrimSuffix_length: "length (strings_TrimSuffix s suf) \<le> length s"
  by (simp add: strings_TrimSuffix_def)

lemma strings_TrimSuffix_prefix: "prefix (strings_TrimSuffix s suf) s"
  by (simp add: strings_TrimSuffix_def take_is_prefix)

lemma int32_id [simp]: "int32_range n \<Longrightarrow> int32 n = n"
  by (simp add: int32_def int32_range_def)

lemma int32_in_range: "int32_range (int32 n)"
proof -
  have "0 \<le> (n + 2 ^ 31) mod 2 ^ 32" and "(n + 2 ^ 31) mod 2 ^ 32 < (2 ^ 32 :: int)"
    by simp_all
  then show ?thesis by (simp add: int32_def int32_range_def)
qed

lemma int32_of_nat: "n < 2 ^ 31 \<Longrightarrow> int32 (int n) = int n"
  by (rule int32_id) (simp add: int32_range_def)

lemma add32_of_nat: "m + n < 2 ^ 31 \<Longrightarrow> add32 (int m) (int n) = int (m + n)"
  using int32_of_nat [of "m + n"] by simp

lemma errors_Join_pair:
  "errors_Join [a, b] = None \<longleftrightarrow> a = None \<and> b = None"
  by (auto simp: errors_Join_def List.map_filter_def split: list.splits option.splits)

lemma errors_Join_Some [simp]: "errors_Join [a, Some e] \<noteq> None" "errors_Join [Some e, a] \<noteq> None"
  by (simp_all add: errors_Join_pair)

lemma isChildConflict_errors_Join:
  "errors_Join [a, b] = Some e \<Longrightarrow>
   isChildConflict e \<longleftrightarrow> (\<exists>x. (a = Some x \<or> b = Some x) \<and> isChildConflict x)"
  by (cases a; cases b) (auto simp: errors_Join_def List.map_filter_def)

lemma ignoreNotFound_None: "ignoreNotFound e = None \<longleftrightarrow> (\<forall>x. e = Some x \<longrightarrow> isNotFound x)"
  by (auto simp: ignoreNotFound_def split: option.splits)

section \<open>Lemmas on finite sets and maps\<close>

lemma sorted_list_of_fset_distinct [simp]: "distinct (sorted_list_of_fset S)"
  by (simp add: sorted_list_of_fset.rep_eq)

lemma sorted_list_of_fset_sorted [simp]: "sorted (sorted_list_of_fset S)"
  by (simp add: sorted_list_of_fset.rep_eq)

lemma length_sorted_list_of_fset [simp]: "length (sorted_list_of_fset S) = fcard S"
  by (simp add: sorted_list_of_fset.rep_eq fcard.rep_eq)

lemma sorted_list_of_fset_empty [simp]: "sorted_list_of_fset {||} = []"
  by (simp add: sorted_list_of_fset.rep_eq)

lemma sorted_list_of_fset_singleton [simp]: "sorted_list_of_fset {|x|} = [x]"
  by (simp add: sorted_list_of_fset.rep_eq)

lemma sorted_list_of_fset_of_list [simp]:
  "sorted_list_of_fset (fset_of_list xs) = sort (remdups xs)"
  by (simp add: sorted_list_of_fset.rep_eq fset_of_list.rep_eq sorted_list_of_set_sort_remdups)

lemma fcard_fset_of_list: "distinct xs \<Longrightarrow> fcard (fset_of_list xs) = length xs"
  by (simp add: fcard.rep_eq fset_of_list.rep_eq distinct_card)

lemma fmlookup_add_case: "fmlookup (m ++\<^sub>f n) k = (case fmlookup n k of None \<Rightarrow> fmlookup m k | Some v \<Rightarrow> Some v)"
  by (auto simp: fmlookup_dom_iff split: option.splits)

lemma fset_of_list_mem [simp]: "x |\<in>| fset_of_list xs \<longleftrightarrow> x \<in> set xs"
  by (simp add: fset_of_list.rep_eq)

declare nat_digits.simps [simp del]

end
