(* ===== verification/Api_Types.thy ===== *)
theory Api_Types
  imports Prelude
begin

text \<open>
  The data of the controller: the API of \<^verbatim>\<open>api/v1alpha1\<close> (one record per Go struct, fields in
  source order), and the objects of other API groups it reads and writes, with the fields the
  controller touches. Optional pointers are options, \<^verbatim>\<open>metav1.Time\<close> and \<^verbatim>\<open>metav1.Duration\<close>
  are integers (the zero time is \<open>0\<close>), generations are \<^typ>\<open>int\<close>.
\<close>

section \<open>Shared Kubernetes metadata\<close>

datatype conditionStatus = ConditionTrue | ConditionFalse | ConditionUnknown

record condition =
  cType :: string
  cStatus :: conditionStatus
  cObservedGeneration :: int
  cLastTransitionTime :: int
  cReason :: string
  cMessage :: string

record objectMeta =
  omName :: string
  omNamespace :: string
  omUID :: string
  omResourceVersion :: string
  omGeneration :: int
  omDeletionTimestamp :: "int option"
  omLabels :: kv
  omAnnotations :: kv
  omFinalizers :: "string list"

record typeMeta =
  tyAPIVersion :: string
  tyKind :: string

record labelSelectorRequirement =
  lsrKey :: string
  lsrOperator :: string
  lsrValues :: "string list"

record labelSelector =
  lsMatchLabels :: kv
  lsMatchExpressions :: "labelSelectorRequirement list"

text \<open>
  A \<^verbatim>\<open>labels.Selector\<close>, by the call that made it: \<^verbatim>\<open>SelectorFromValidatedSet\<close>,
  \<^verbatim>\<open>LabelSelectorAsSelector\<close> or a selector an OCM package built. What it matches is
  decided by the imported packages.
\<close>

datatype selector = SelectorFromValidatedSet kv | SelectorFromLabelSelector labelSelector | SelectorOpaque string

text \<open>The zero \<^verbatim>\<open>ObjectMeta\<close>, and \<^verbatim>\<open>IsZero\<close> of a deletion timestamp (nil-safe).\<close>

definition objectMeta_zero :: objectMeta where
  "objectMeta_zero = \<lparr>omName = [], omNamespace = [], omUID = [], omResourceVersion = [],
     omGeneration = 0, omDeletionTimestamp = None, omLabels = fmempty,
     omAnnotations = fmempty, omFinalizers = []\<rparr>"

definition deletionTimestamp_IsZero :: "objectMeta \<Rightarrow> bool" where
  "deletionTimestamp_IsZero m = (case omDeletionTimestamp m of None \<Rightarrow> True | Some t \<Rightarrow> t = 0)"

abbreviation objectKey :: "objectMeta \<Rightarrow> key" where
  "objectKey m \<equiv> (omNamespace m, omName m)"

section \<open>ManagedServiceAccountReplicaSet\<close>

text \<open>
  \<^verbatim>\<open>clusterv1alpha1.RolloutStrategy\<close>: its type, and the settings of that type, which the
  controller hands to the OCM rollout handler unread.
\<close>

record rolloutStrategy =
  rsType :: string
  rsSettings :: string

record placementRef =
  prName :: string
  prRolloutStrategy :: rolloutStrategy

record templateMetadata =
  tmName :: string
  tmNamespace :: string
  tmLabels :: kv
  tmAnnotations :: kv

record rotationSpec =
  rotEnabled :: "bool option"
  rotValidity :: "int option"

record templateSpec =
  tsRotation :: rotationSpec
  tsTTLSecondsAfterCreation :: "int option"

record msaTemplate =
  tplMetadata :: templateMetadata
  tplSpec :: templateSpec

record policyRule =
  ruVerbs :: "string list"
  ruAPIGroups :: "string list"
  ruResources :: "string list"
  ruResourceNames :: "string list"
  ruNonResourceURLs :: "string list"

record namespaceIterator =
  niName :: string
  niNames :: "string list"
  niSelector :: "labelSelector option"

record rbacGrantMetadata =
  gmName :: string
  gmLabels :: kv
  gmAnnotations :: kv

record rbacGrant =
  gID :: string
  gType :: string
  gForEachNamespace :: "namespaceIterator option"
  gMetadata :: rbacGrantMetadata
  gRules :: "policyRule list"

definition RBACGrantTypeRole :: string where
  "RBACGrantTypeRole = ''Role''"

definition RBACGrantTypeClusterRole :: string where
  "RBACGrantTypeClusterRole = ''ClusterRole''"

record rbacSpec =
  rbGrants :: "rbacGrant list"

record replicaSetSpec =
  spPlacementRefs :: "placementRef list"
  spTemplate :: msaTemplate
  spRBAC :: "rbacSpec option"

record summary =
  suDesiredTotal :: int
  suTotal :: int
  suApplied :: int
  suAvailable :: int
  suDegraded :: int
  suProgressing :: int
  suUpdated :: int

record rolloutSummary =
  roTotal :: int
  roUpdating :: int
  roSucceeded :: int
  roFailed :: int
  roTimedOut :: int
  roConditions :: "condition list"

record placementStatus =
  psName :: string
  psSelectedClusterCount :: int
  psSummary :: "summary option"
  psRollout :: "rolloutSummary option"
  psAvailableDecisionGroups :: string
  psConditions :: "condition list"

record controllerAccessStatus =
  caDesiredClusterCount :: int
  caReadyClusterCount :: int
  caConditions :: "condition list"

record replicaSetStatus =
  stObservedGeneration :: int
  stSelectedClusterCount :: int
  stReadyClusterCount :: int
  stSummary :: "summary option"
  stRollout :: "rolloutSummary option"
  stControllerAccess :: "controllerAccessStatus option"
  stPlacements :: "placementStatus list"
  stConditions :: "condition list"

record replicaSet =
  setMeta :: objectMeta
  setSpec :: replicaSetSpec
  setStatus :: replicaSetStatus

abbreviation setName :: "replicaSet \<Rightarrow> string" where
  "setName s \<equiv> omName (setMeta s)"

abbreviation setNamespace :: "replicaSet \<Rightarrow> string" where
  "setNamespace s \<equiv> omNamespace (setMeta s)"

abbreviation setUID :: "replicaSet \<Rightarrow> string" where
  "setUID s \<equiv> omUID (setMeta s)"

abbreviation setGeneration :: "replicaSet \<Rightarrow> int" where
  "setGeneration s \<equiv> omGeneration (setMeta s)"

abbreviation setTemplateMetadata :: "replicaSet \<Rightarrow> templateMetadata" where
  "setTemplateMetadata s \<equiv> tplMetadata (spTemplate (setSpec s))"

abbreviation setTemplateSpec :: "replicaSet \<Rightarrow> templateSpec" where
  "setTemplateSpec s \<equiv> tplSpec (spTemplate (setSpec s))"

section \<open>Generated children\<close>

record msaSpec =
  msRotationEnabled :: bool
  msRotationValidity :: int
  msTTLSecondsAfterCreation :: "int option"

record managedServiceAccount =
  msaType :: typeMeta
  msaMeta :: objectMeta
  msaSpecOf :: msaSpec
  msaConditions :: "condition list"

record subject =
  sjKind :: string
  sjName :: string
  sjNamespace :: string

record roleRef =
  rrAPIGroup :: string
  rrKind :: string
  rrName :: string

datatype rbacObject =
    ClusterRole typeMeta objectMeta "policyRule list"
  | ClusterRoleBinding typeMeta objectMeta "subject list" roleRef
  | Role typeMeta objectMeta "policyRule list"
  | RoleBinding typeMeta objectMeta "subject list" roleRef

text \<open>\<^verbatim>\<open>workv1.Manifest\<close>, a \<^verbatim>\<open>runtime.RawExtension\<close>: raw bytes, or an object not yet encoded.\<close>

record manifest =
  mfRaw :: string
  mfObject :: "rbacObject option"

text \<open>
  \<^verbatim>\<open>workv1.ManifestWorkSpec\<close>: the deletion policy, the manifests, and (as one opaque value,
  empty unless some other actor writes it) the fields the controller never sets.
\<close>

record manifestWorkSpec =
  mwDeletePropagation :: "string option"
  mwManifests :: "manifest list"
  mwOther :: string

record manifestWork =
  workType :: typeMeta
  workMeta :: objectMeta
  workSpec :: manifestWorkSpec
  workConditions :: "condition list"

text \<open>What the client stores and deletes: a \<^verbatim>\<open>client.Object\<close> of one of the two child types.\<close>

datatype child = MSA managedServiceAccount | Work manifestWork
datatype childKind = MSAKind | WorkKind

fun childMeta :: "child \<Rightarrow> objectMeta" where
  "childMeta (MSA m) = msaMeta m"
| "childMeta (Work w) = workMeta w"

fun kindOf :: "child \<Rightarrow> childKind" where
  "kindOf (MSA m) = MSAKind"
| "kindOf (Work w) = WorkKind"

section \<open>Placement and rollout objects\<close>

record placement =
  plMeta :: objectMeta
  plDecisionGroups :: nat \<comment> \<open>\<^verbatim>\<open>len(Status.DecisionGroups)\<close>\<close>
  plNumberOfSelectedClusters :: int

record placementDecision =
  pdMeta :: objectMeta
  pdDecisions :: "string list"

type_synonym groupKey = "string \<times> int"
type_synonym clusterGroups = "(groupKey \<times> strset) list" \<comment> \<open>\<^verbatim>\<open>ClusterGroupsMap\<close>\<close>

datatype rolloutStatus = ToApply | Progressing | Succeeded | Failed | TimeOut | OtherStatus nat

record sdkClusterRolloutStatus =
  crClusterName :: string
  crStatus :: rolloutStatus
  crLastTransitionTime :: "int option"

record rolloutResult =
  rrClustersToRollout :: "sdkClusterRolloutStatus list"
  rrClustersTimeOut :: "sdkClusterRolloutStatus list"
  rrRecheckAfter :: "int option"

section \<open>Accessors of the specification\<close>

text \<open>\<^verbatim>\<open>set.Spec.RBAC.Grants\<close>, nothing when \<^verbatim>\<open>RBAC\<close> is nil.\<close>

definition setGrants :: "replicaSet \<Rightarrow> rbacGrant list" where
  "setGrants s = (case spRBAC (setSpec s) of None \<Rightarrow> [] | Some r \<Rightarrow> rbGrants r)"

section \<open>An example set\<close>

text \<open>
  A set \<^verbatim>\<open>fleet/viewer\<close> over one placement, with a Role grant for two namespaces and a ClusterRole
  grant: the concrete input of the examples.
\<close>

definition sampleRule :: policyRule where
  "sampleRule = \<lparr>ruVerbs = [''get'', ''list''], ruAPIGroups = [''''], ruResources = [''pods''],
     ruResourceNames = [], ruNonResourceURLs = []\<rparr>"

definition sampleRoleGrant :: rbacGrant where
  "sampleRoleGrant = \<lparr>gID = ''read'', gType = RBACGrantTypeRole,
     gForEachNamespace = Some \<lparr>niName = [], niNames = [''ops'', ''apps''], niSelector = None\<rparr>,
     gMetadata = \<lparr>gmName = ''reader'', gmLabels = fmempty, gmAnnotations = fmempty\<rparr>, gRules = [sampleRule]\<rparr>"

definition sampleClusterGrant :: rbacGrant where
  "sampleClusterGrant = \<lparr>gID = ''nodes'', gType = RBACGrantTypeClusterRole, gForEachNamespace = None,
     gMetadata = \<lparr>gmName = ''node-reader'', gmLabels = fmempty, gmAnnotations = fmempty\<rparr>, gRules = [sampleRule]\<rparr>"

definition sampleSpec :: "rbacGrant list \<Rightarrow> replicaSetSpec" where
  "sampleSpec grants = \<lparr>spPlacementRefs = [\<lparr>prName = ''all'', prRolloutStrategy = \<lparr>rsType = [], rsSettings = []\<rparr>\<rparr>],
     spTemplate = \<lparr>tplMetadata = \<lparr>tmName = ''viewer-account'', tmNamespace = ''agents'',
         tmLabels = fmap_of_list [(''team'', ''blue'')], tmAnnotations = fmempty\<rparr>,
       tplSpec = \<lparr>tsRotation = \<lparr>rotEnabled = None, rotValidity = None\<rparr>, tsTTLSecondsAfterCreation = None\<rparr>\<rparr>,
     spRBAC = Some \<lparr>rbGrants = grants\<rparr>\<rparr>"

definition sampleStatus :: replicaSetStatus where
  "sampleStatus = \<lparr>stObservedGeneration = 0, stSelectedClusterCount = 0, stReadyClusterCount = 0, stSummary = None,
     stRollout = None, stControllerAccess = None, stPlacements = [], stConditions = []\<rparr>"

definition sampleSet :: replicaSet where
  "sampleSet = \<lparr>setMeta = objectMeta_zero\<lparr>omName := ''viewer'', omNamespace := ''fleet'', omUID := ''u1'',
       omGeneration := 1\<rparr>, setSpec = sampleSpec [sampleRoleGrant, sampleClusterGrant], setStatus = sampleStatus\<rparr>"

lemma sampleSet_simps [simp]:
  "setName sampleSet = ''viewer''" "setNamespace sampleSet = ''fleet''" "setUID sampleSet = ''u1''"
  "setGrants sampleSet = [sampleRoleGrant, sampleClusterGrant]"
  "setTemplateMetadata sampleSet = \<lparr>tmName = ''viewer-account'', tmNamespace = ''agents'',
     tmLabels = fmap_of_list [(''team'', ''blue'')], tmAnnotations = fmempty\<rparr>"
  "setStatus sampleSet = sampleStatus" "deletionTimestamp_IsZero (setMeta sampleSet)"
  "omFinalizers (setMeta sampleSet) = []"
  by (simp_all add: sampleSet_def sampleSpec_def setGrants_def objectMeta_zero_def deletionTimestamp_IsZero_def)

end
