(* ===== verification/Library_Interface.thy ===== *)
theory Library_Interface
  imports Api_Types
begin

text \<open>
  The pure functions and constants of imported Go packages, as the record every definition
  that uses them takes as its argument:
  \<^item> \<^verbatim>\<open>k8s.io/apimachinery/pkg/labels\<close>: \<^verbatim>\<open>Merge\<close> and \<^verbatim>\<open>Selector.Matches\<close>;
  \<^item> \<^verbatim>\<open>metav1.LabelSelectorAsSelector\<close>, of which only the error is a parameter;
  \<^item> \<^verbatim>\<open>k8s.io/apimachinery/pkg/api/meta\<close>: the four status condition helpers;
  \<^item> \<^verbatim>\<open>controllerutil.AddFinalizer\<close> and \<^verbatim>\<open>RemoveFinalizer\<close>;
  \<^item> \<^verbatim>\<open>encoding/json\<close> over Kubernetes API types;
  \<^item> \<^verbatim>\<open>open-cluster-management.io/sdk-go\<close>: \<^verbatim>\<open>ClusterGroupsMap.GetClusters\<close>, the rollout handler;
  \<^item> the string constants of the OCM and RBAC API groups.

  Their documented behaviour is stated as locales. The last section gives one concrete
  library, from the packages' documentation, and interprets the locales on it.
\<close>

datatype json = JNull | JBool bool | JNum string | JStr string | JArr "json list"
  | JObj "(string \<times> json) list"

record lib =
  labels_Merge :: "kv \<Rightarrow> kv \<Rightarrow> kv"
  selector_Matches :: "selector \<Rightarrow> kv \<Rightarrow> bool"
  labelSelectorError :: "labelSelector \<Rightarrow> go_error option"
  meta_SetStatusCondition :: "condition list \<Rightarrow> condition \<Rightarrow> condition list"
  meta_FindStatusCondition :: "condition list \<Rightarrow> string \<Rightarrow> condition option"
  meta_IsStatusConditionTrue :: "condition list \<Rightarrow> string \<Rightarrow> bool"
  meta_RemoveStatusCondition :: "condition list \<Rightarrow> string \<Rightarrow> condition list"
  util_AddFinalizer :: "string list \<Rightarrow> string \<Rightarrow> string list \<times> bool"
  util_RemoveFinalizer :: "string list \<Rightarrow> string \<Rightarrow> string list \<times> bool"
  json_Marshal :: "rbacObject \<Rightarrow> string option"
  json_Unmarshal :: "string \<Rightarrow> json option"
  sdk_GetClusters :: "clusterGroups \<Rightarrow> strset"
  sdk_NewRolloutHandler :: "clusterGroups \<Rightarrow> go_error option"
  sdk_GetRolloutCluster ::
    "clusterGroups \<Rightarrow> (string \<Rightarrow> sdkClusterRolloutStatus) \<Rightarrow> rolloutStrategy \<Rightarrow> sdkClusterRolloutStatus list
      \<Rightarrow> go_error + rolloutResult"
  c_TokenReported :: string
  c_SecretCreated :: string
  c_WorkApplied :: string
  c_WorkAvailable :: string
  c_WorkDegraded :: string
  c_WorkProgressing :: string
  c_msaGroupVersion :: string
  c_workGroupVersion :: string
  c_rbacGroupVersion :: string
  c_rbacGroupName :: string
  c_deleteForeground :: string
  c_PlacementLabel :: string

section \<open>Label maps and selectors\<close>

text \<open>
  \<^verbatim>\<open>Merge\<close> combines two maps and the second one wins; the selector of a validated set matches
  the label maps that hold every pair of the set.
\<close>

locale label_library =
  fixes L :: lib
  assumes Merge_lookup:
      "fmlookup (labels_Merge L a b) k = (case fmlookup b k of None \<Rightarrow> fmlookup a k | Some v \<Rightarrow> Some v)"
    and Matches_set:
      "selector_Matches L (SelectorFromValidatedSet m) ls \<longleftrightarrow>
         (\<forall>k v. fmlookup m k = Some v \<longrightarrow> fmlookup ls k = Some v)"
begin

lemma Merge_eq: "labels_Merge L a b = a ++\<^sub>f b"
  by (rule fmap_ext) (simp only: Merge_lookup fmlookup_add_case)

lemma Matches_refl: "selector_Matches L (SelectorFromValidatedSet m) m"
  by (simp add: Matches_set)

lemma Matches_Merge: "selector_Matches L (SelectorFromValidatedSet m) (labels_Merge L a m)"
  by (simp add: Matches_set Merge_lookup)

lemma Matches_upd:
  "selector_Matches L (SelectorFromValidatedSet m) ls \<Longrightarrow> k |\<notin>| fmdom m \<Longrightarrow>
   selector_Matches L (SelectorFromValidatedSet m) (fmupd k v ls)"
  by (auto simp: Matches_set fmdom_notD)

end

section \<open>Status conditions\<close>

text \<open>
  \<^verbatim>\<open>FindStatusCondition\<close> is the first condition of the type; \<^verbatim>\<open>SetStatusCondition\<close> leaves
  exactly that view changed: at the type it set, everything but the transition time comes from
  the new condition, and the transition time is kept when the status is. Other types keep
  their condition. \<^verbatim>\<open>RemoveStatusCondition\<close> removes the type.
\<close>

locale condition_library =
  fixes L :: lib
  assumes find_set_same:
      "\<exists>c'. meta_FindStatusCondition L (meta_SetStatusCondition L cs c) (cType c) = Some c' \<and>
         cType c' = cType c \<and> cStatus c' = cStatus c \<and> cReason c' = cReason c \<and>
         cMessage c' = cMessage c \<and> cObservedGeneration c' = cObservedGeneration c"
    and set_keeps_time:
      "meta_FindStatusCondition L cs (cType c) = Some old \<Longrightarrow> cStatus old = cStatus c \<Longrightarrow>
       meta_FindStatusCondition L (meta_SetStatusCondition L cs c) (cType c) =
         Some (c\<lparr>cLastTransitionTime := cLastTransitionTime old\<rparr>)"
    and find_set_other:
      "t \<noteq> cType c \<Longrightarrow>
       meta_FindStatusCondition L (meta_SetStatusCondition L cs c) t = meta_FindStatusCondition L cs t"
    and find_remove:
      "meta_FindStatusCondition L (meta_RemoveStatusCondition L cs t) t' =
         (if t' = t then None else meta_FindStatusCondition L cs t')"
    and is_true:
      "meta_IsStatusConditionTrue L cs t \<longleftrightarrow>
         (\<exists>c. meta_FindStatusCondition L cs t = Some c \<and> cStatus c = ConditionTrue)"
    and find_empty: "meta_FindStatusCondition L [] t = None"
    and find_type: "meta_FindStatusCondition L cs t = Some c \<Longrightarrow> cType c = t"

section \<open>Finalizers\<close>

locale finalizer_library =
  fixes L :: lib
  assumes AddFinalizer: "util_AddFinalizer L fs f = (if f \<in> set fs then (fs, False) else (fs @ [f], True))"
    and RemoveFinalizer: "util_RemoveFinalizer L fs f = (filter (\<lambda>x. x \<noteq> f) fs, f \<in> set fs)"

section \<open>JSON encoding of RBAC objects\<close>

text \<open>
  An API object encodes to non-empty bytes, and those bytes decode to a JSON value.
\<close>

locale json_library =
  fixes L :: lib
  assumes Marshal_total: "\<exists>b. json_Marshal L ob = Some b \<and> b \<noteq> []"
    and Unmarshal_Marshal: "json_Marshal L ob = Some b \<Longrightarrow> \<exists>j. json_Unmarshal L b = Some j"

section \<open>The OCM placement and rollout packages\<close>

locale sdk_library =
  fixes L :: lib
  assumes GetClusters: "sdk_GetClusters L g = ffUnion (fset_of_list (map snd g))"
    and rollout_selected:
      "sdk_GetRolloutCluster L g st strategy existing = Inr res \<Longrightarrow>
       c \<in> set (rrClustersToRollout res) \<union> set (rrClustersTimeOut res) \<Longrightarrow>
       crClusterName c |\<in>| sdk_GetClusters L g"
    and rollout_disjoint:
      "sdk_GetRolloutCluster L g st strategy existing = Inr res \<Longrightarrow>
       c \<in> set (rrClustersToRollout res) \<Longrightarrow> d \<in> set (rrClustersTimeOut res) \<Longrightarrow>
       crClusterName c \<noteq> crClusterName d"
    and rollout_timeout:
      "sdk_GetRolloutCluster L g st strategy existing = Inr res \<Longrightarrow>
       d \<in> set (rrClustersTimeOut res) \<Longrightarrow> crStatus d = TimeOut"

locale k8s_library = label_library + condition_library + finalizer_library

section \<open>One concrete library\<close>

text \<open>
  The documented behaviour, executably. Time stands still in it, \<^verbatim>\<open>now\<close> is \<open>1\<close>; the rollout
  handler rolls out every cluster that has not succeeded, as strategy \<^verbatim>\<open>All\<close> without a deadline
  does; objects are encoded by their kind and name only.
\<close>

fun ref_find :: "condition list \<Rightarrow> string \<Rightarrow> condition option" where
  "ref_find [] t = None"
| "ref_find (c # cs) t = (if cType c = t then Some c else ref_find cs t)"

fun ref_set :: "condition list \<Rightarrow> condition \<Rightarrow> condition list" where
  "ref_set [] n = [n\<lparr>cLastTransitionTime := 1\<rparr>]"
| "ref_set (c # cs) n =
     (if cType c = cType n
      then n\<lparr>cLastTransitionTime := (if cStatus c = cStatus n then cLastTransitionTime c else 1)\<rparr> # cs
      else c # ref_set cs n)"

definition ref_matches :: "selector \<Rightarrow> kv \<Rightarrow> bool" where
  "ref_matches sel ls = (case sel of
     SelectorFromValidatedSet m \<Rightarrow> fBall (fmdom m) (\<lambda>k. fmlookup ls k = fmlookup m k)
   | SelectorFromLabelSelector s \<Rightarrow>
       fBall (fmdom (lsMatchLabels s)) (\<lambda>k. fmlookup ls k = fmlookup (lsMatchLabels s) k)
   | SelectorOpaque _ \<Rightarrow> True)"

fun ref_object_json :: "rbacObject \<Rightarrow> string \<times> string" where
  "ref_object_json (ClusterRole t m r) = (''ClusterRole'', omName m)"
| "ref_object_json (ClusterRoleBinding t m s r) = (''ClusterRoleBinding'', omName m)"
| "ref_object_json (Role t m r) = (''Role'', omName m)"
| "ref_object_json (RoleBinding t m s r) = (''RoleBinding'', omName m)"

definition ref_lib :: lib where
  "ref_lib = \<lparr>
     labels_Merge = (\<lambda>a b. a ++\<^sub>f b),
     selector_Matches = ref_matches,
     labelSelectorError = (\<lambda>_. None),
     meta_SetStatusCondition = ref_set,
     meta_FindStatusCondition = ref_find,
     meta_IsStatusConditionTrue =
       (\<lambda>cs t. case ref_find cs t of None \<Rightarrow> False | Some c \<Rightarrow> cStatus c = ConditionTrue),
     meta_RemoveStatusCondition = (\<lambda>cs t. filter (\<lambda>c. cType c \<noteq> t) cs),
     util_AddFinalizer = (\<lambda>fs f. if f \<in> set fs then (fs, False) else (fs @ [f], True)),
     util_RemoveFinalizer = (\<lambda>fs f. (filter (\<lambda>x. x \<noteq> f) fs, f \<in> set fs)),
     json_Marshal = (\<lambda>ob. Some (fst (ref_object_json ob) @ ''/'' @ snd (ref_object_json ob))),
     json_Unmarshal = (\<lambda>b. Some (JStr b)),
     sdk_GetClusters = (\<lambda>g. ffUnion (fset_of_list (map snd g))),
     sdk_NewRolloutHandler = (\<lambda>_. None),
     sdk_GetRolloutCluster = (\<lambda>g st strategy existing. Inr \<lparr>
        rrClustersToRollout = filter (\<lambda>c. crStatus c \<noteq> Succeeded \<and>
            crClusterName c |\<in>| ffUnion (fset_of_list (map snd g))) existing,
        rrClustersTimeOut = [], rrRecheckAfter = None\<rparr>),
     c_TokenReported = ''TokenReported'', c_SecretCreated = ''SecretCreated'',
     c_WorkApplied = ''Applied'', c_WorkAvailable = ''Available'',
     c_WorkDegraded = ''Degraded'', c_WorkProgressing = ''Progressing'',
     c_msaGroupVersion = ''authentication.open-cluster-management.io/v1beta1'',
     c_workGroupVersion = ''work.open-cluster-management.io/v1'',
     c_rbacGroupVersion = ''rbac.authorization.k8s.io/v1'',
     c_rbacGroupName = ''rbac.authorization.k8s.io'',
     c_deleteForeground = ''Foreground'',
     c_PlacementLabel = ''cluster.open-cluster-management.io/placement''\<rparr>"

lemma ref_lib_simps [simp]: "labelSelectorError ref_lib = (\<lambda>_. None)" "meta_FindStatusCondition ref_lib = ref_find"
  by (simp_all add: ref_lib_def)

lemma ref_find_type: "ref_find cs t = Some c \<Longrightarrow> cType c = t"
  by (induction cs) (auto split: if_splits)

lemma ref_find_set_same:
  "ref_find (ref_set cs c) (cType c) = Some (c\<lparr>cLastTransitionTime :=
     (case ref_find cs (cType c) of None \<Rightarrow> 1
      | Some o' \<Rightarrow> if cStatus o' = cStatus c then cLastTransitionTime o' else 1)\<rparr>)"
  by (induction cs) auto

lemma ref_find_set_other: "t \<noteq> cType c \<Longrightarrow> ref_find (ref_set cs c) t = ref_find cs t"
  by (induction cs) auto

lemma ref_find_remove:
  "ref_find (filter (\<lambda>c. cType c \<noteq> t) cs) t' = (if t' = t then None else ref_find cs t')"
  by (induction cs) auto

lemma ref_matches_set:
  "ref_matches (SelectorFromValidatedSet m) ls \<longleftrightarrow>
     (\<forall>k v. fmlookup m k = Some v \<longrightarrow> fmlookup ls k = Some v)"
  by (fastforce simp: ref_matches_def fmlookup_dom_iff)

interpretation ref: label_library ref_lib
  by unfold_locales (simp_all add: ref_lib_def fmlookup_add_case ref_matches_set del: fmlookup_add)

interpretation ref: condition_library ref_lib
  by unfold_locales
    (auto simp: ref_lib_def ref_find_set_same ref_find_set_other ref_find_remove ref_find_type
      split: option.splits)

interpretation ref: finalizer_library ref_lib
  by unfold_locales (simp_all add: ref_lib_def)

interpretation ref: json_library ref_lib
  by unfold_locales (simp_all add: ref_lib_def)

interpretation ref: sdk_library ref_lib
  by unfold_locales (auto simp: ref_lib_def)

interpretation ref: k8s_library ref_lib
  by unfold_locales

end
