(* ===== verification/Sha256.thy ===== *)
theory Sha256
  imports Prelude "HOL-Library.Word"
begin

text \<open>
  \<^verbatim>\<open>crypto/sha256\<close> and \<^verbatim>\<open>encoding/hex\<close> as far as the controller uses them: the digest of a
  byte string (FIPS 180-4) and its lower-case hexadecimal form. The two name hashes of
  \<^verbatim>\<open>internal/controller/rbac.go\<close> are prefixes of that form.
\<close>

unbundle bit_operations_syntax

section \<open>The compression function\<close>

definition rotr32 :: "nat \<Rightarrow> 32 word \<Rightarrow> 32 word" where
  "rotr32 n w = drop_bit n w OR push_bit (32 - n) w"

text \<open>
  The constants of the standard, by their definition: the first 32 bits of the fractional parts
  of the cube roots of the first 64 primes, and of the square roots of the first eight.
  \<open>int_root e x k r\<close> extends \<open>r\<close> by its next \<open>k\<close> bits to the integer \<open>e\<close>-th root of \<open>x\<close>.
\<close>

fun int_root :: "nat \<Rightarrow> nat \<Rightarrow> nat \<Rightarrow> nat \<Rightarrow> nat" where
  "int_root e x 0 r = r"
| "int_root e x (Suc k) r = int_root e x k (if (r + 2 ^ k) ^ e \<le> x then r + 2 ^ k else r)"

definition frac_root :: "nat \<Rightarrow> nat \<Rightarrow> 32 word" where
  "frac_root e p = of_nat (int_root e (p * 2 ^ (32 * e)) 36 0)"

definition sha_primes :: "nat list" where
  "sha_primes = filter (\<lambda>n. list_all (\<lambda>d. n mod d \<noteq> 0) [2..<n]) [2..<312]"

definition sha_K :: "32 word list" where
  "sha_K = map (frac_root 3) sha_primes"

record sha_state =
  sA :: "32 word"
  sB :: "32 word"
  sC :: "32 word"
  sD :: "32 word"
  sE :: "32 word"
  sF :: "32 word"
  sG :: "32 word"
  sH :: "32 word"

definition sha_init :: sha_state where
  "sha_init = \<lparr>sA = frac_root 2 2, sB = frac_root 2 3, sC = frac_root 2 5, sD = frac_root 2 7,
               sE = frac_root 2 11, sF = frac_root 2 13, sG = frac_root 2 17, sH = frac_root 2 19\<rparr>"

definition sha_round :: "sha_state \<Rightarrow> 32 word \<times> 32 word \<Rightarrow> sha_state" where
  "sha_round s kw =
     (let e = sE s; a = sA s;
          s1 = rotr32 6 e XOR rotr32 11 e XOR rotr32 25 e;
          ch = (e AND sF s) XOR (NOT e AND sG s);
          t1 = sH s + s1 + ch + fst kw + snd kw;
          s0 = rotr32 2 a XOR rotr32 13 a XOR rotr32 22 a;
          maj = (a AND sB s) XOR (a AND sC s) XOR (sB s AND sC s);
          t2 = s0 + maj
      in \<lparr>sA = t1 + t2, sB = a, sC = sB s, sD = sC s, sE = sD s + t1, sF = e, sG = sF s, sH = sG s\<rparr>)"

text \<open>The message schedule; the words are kept newest first.\<close>

fun sha_schedule :: "nat \<Rightarrow> 32 word list \<Rightarrow> 32 word list" where
  "sha_schedule 0 ws = ws"
| "sha_schedule (Suc n) ws =
     (let w15 = ws ! 14; w2 = ws ! 1;
          s0 = rotr32 7 w15 XOR rotr32 18 w15 XOR drop_bit 3 w15;
          s1 = rotr32 17 w2 XOR rotr32 19 w2 XOR drop_bit 10 w2
      in sha_schedule n ((ws ! 15 + s0 + ws ! 6 + s1) # ws))"

definition sha_block :: "sha_state \<Rightarrow> 32 word list \<Rightarrow> sha_state" where
  "sha_block h ws =
     (let r = foldl sha_round h (zip sha_K (rev (sha_schedule 48 (rev ws))))
      in \<lparr>sA = sA h + sA r, sB = sB h + sB r, sC = sC h + sC r, sD = sD h + sD r,
          sE = sE h + sE r, sF = sF h + sF r, sG = sG h + sG r, sH = sH h + sH r\<rparr>)"

section \<open>Padding, digest and hexadecimal form\<close>

fun be_bytes :: "nat \<Rightarrow> int \<Rightarrow> int list" where
  "be_bytes 0 n = []"
| "be_bytes (Suc k) n = be_bytes k (n div 256) @ [n mod 256]"

definition sha_pad :: "int list \<Rightarrow> int list" where
  "sha_pad bs =
     bs @ [128] @ replicate ((119 - length bs mod 64) mod 64) 0 @ be_bytes 8 (8 * int (length bs))"

fun be_words :: "int list \<Rightarrow> 32 word list" where
  "be_words (a # b # c # d # bs) =
     word_of_int (((a * 256 + b) * 256 + c) * 256 + d) # be_words bs"
| "be_words _ = []"

fun chunks :: "nat \<Rightarrow> nat \<Rightarrow> 'a list \<Rightarrow> 'a list list" where
  "chunks 0 n xs = []"
| "chunks (Suc k) n xs = take n xs # chunks k n (drop n xs)"

definition sha256_Sum256 :: "string \<Rightarrow> int list" where
  "sha256_Sum256 msg =
     (let ws = be_words (sha_pad (map of_char msg));
          h = foldl sha_block sha_init (chunks (length ws div 16) 16 ws)
      in concat (map (\<lambda>w. be_bytes 4 (uint w)) [sA h, sB h, sC h, sD h, sE h, sF h, sG h, sH h]))"

definition hex_EncodeToString :: "int list \<Rightarrow> string" where
  "hex_EncodeToString bs = concat (map (\<lambda>b. [hex_digit (nat (b div 16)), hex_digit (nat (b mod 16))]) bs)"

section \<open>The controller's name hash\<close>

definition stableHash :: "string \<Rightarrow> string" where
  "stableHash v = take 10 (hex_EncodeToString (sha256_Sum256 v))"

section \<open>Shape of the digests\<close>

lemma length_be_bytes [simp]: "length (be_bytes k n) = k"
  by (induction k arbitrary: n) simp_all

lemma length_sha256 [simp]: "length (sha256_Sum256 v) = 32"
  by (simp add: sha256_Sum256_def Let_def length_concat)

lemma length_hex [simp]: "length (hex_EncodeToString bs) = 2 * length bs"
  by (induction bs) (simp_all add: hex_EncodeToString_def)

lemma hex_digit_in: "hex_digit n \<in> set ''0123456789abcdef''"
proof -
  have "n mod 16 < length ''0123456789abcdef''" by simp
  then show ?thesis unfolding hex_digit_def by (rule nth_mem)
qed

lemma hex_chars: "set (hex_EncodeToString bs) \<subseteq> set ''0123456789abcdef''"
  using hex_digit_in by (fastforce simp: hex_EncodeToString_def)

lemma length_stableHash [simp]: "length (stableHash v) = 10"
  by (simp add: stableHash_def)

lemma stableHash_chars: "set (stableHash v) \<subseteq> set ''0123456789abcdef''"
  using hex_chars set_take_subset unfolding stableHash_def by fast

end
