(* ===== verification/Metadata.thy ===== *)
theory Metadata
  imports Library_Interface Sha256
begin

text \<open>
  \<^verbatim>\<open>internal/controller/metadata.go\<close>: the label and annotation keys, the metadata of generated
  children, the ownership test, and stable child names. The lemmas show that user metadata can
  never override an ownership label, that ownership is exactly agreement on the five source
  labels, and that generated names stay within the Kubernetes limit.
\<close>

section \<open>Keys\<close>

definition controllerName :: string where
  "controllerName = ''ocm-managed-serviceaccount-replicaset-controller''"

definition finalizerName :: string where
  "finalizerName = ''authentication.appthrust.io/managedserviceaccountreplicaset-cleanup''"

definition labelManagedBy :: string where
  "labelManagedBy = ''app.kubernetes.io/managed-by''"

definition labelPartOf :: string where
  "labelPartOf = ''app.kubernetes.io/part-of''"

definition labelSetName :: string where
  "labelSetName = ''authentication.appthrust.io/set-name''"

definition labelSetNamespace :: string where
  "labelSetNamespace = ''authentication.appthrust.io/set-namespace''"

definition labelSetUID :: string where
  "labelSetUID = ''authentication.appthrust.io/set-uid''"

definition labelPlacementRefName :: string where
  "labelPlacementRefName = ''authentication.appthrust.io/placement-ref-name''"

definition labelGrantID :: string where
  "labelGrantID = ''authentication.appthrust.io/grant-id''"

definition labelSliceType :: string where
  "labelSliceType = ''authentication.appthrust.io/slice-type''"

definition labelTargetNamespace :: string where
  "labelTargetNamespace = ''authentication.appthrust.io/target-namespace''"

definition labelTargetNamespaceHash :: string where
  "labelTargetNamespaceHash = ''authentication.appthrust.io/target-namespace-hash''"

definition labelSyncToClusterProfile :: string where
  "labelSyncToClusterProfile = ''authentication.open-cluster-management.io/sync-to-clusterprofile''"

definition ocmClusterNameLabel :: string where
  "ocmClusterNameLabel = ''open-cluster-management.io/cluster-name''"

definition annotationSpecHash :: string where
  "annotationSpecHash = ''authentication.appthrust.io/spec-hash''"

definition annotationTargetNamespace :: string where
  "annotationTargetNamespace = ''authentication.appthrust.io/target-namespace''"

lemmas key_defs = labelManagedBy_def labelPartOf_def labelSetName_def labelSetNamespace_def
  labelSetUID_def labelPlacementRefName_def labelGrantID_def labelSliceType_def
  labelTargetNamespace_def labelTargetNamespaceHash_def labelSyncToClusterProfile_def
  ocmClusterNameLabel_def annotationSpecHash_def annotationTargetNamespace_def

definition reservedChildMetadataKeys :: "string list" where
  "reservedChildMetadataKeys =
     [labelManagedBy, labelPartOf, labelSetName, labelSetNamespace, labelSetUID,
      labelPlacementRefName, labelGrantID, labelSliceType, labelTargetNamespace,
      labelTargetNamespaceHash, annotationSpecHash]"

definition reservedGrantMetadataKeys :: "string list" where
  "reservedGrantMetadataKeys = reservedChildMetadataKeys @ [labelSyncToClusterProfile]"

section \<open>Labels and annotations of generated objects\<close>

definition sourceLabels :: "replicaSet \<Rightarrow> kv" where
  "sourceLabels rs = fmap_of_list
     [(labelManagedBy, controllerName), (labelPartOf, setName rs), (labelSetName, setName rs),
      (labelSetNamespace, setNamespace rs), (labelSetUID, setUID rs)]"

definition sourceAnnotations :: "replicaSet \<Rightarrow> kv" where
  "sourceAnnotations rs = fmap_of_list
     [(labelSetName, setName rs), (labelSetNamespace, setNamespace rs), (labelSetUID, setUID rs)]"

definition sanitizedMetadata :: "kv \<Rightarrow> kv" where
  "sanitizedMetadata values = fmfilter (\<lambda>key. key \<notin> set reservedChildMetadataKeys) values"

definition childLabels :: "lib \<Rightarrow> replicaSet \<Rightarrow> string \<Rightarrow> kv \<Rightarrow> kv" where
  "childLabels L rs placementRefName extra =
     (let owner = fmupd labelPlacementRefName placementRefName (sourceLabels rs);
          lbls = labels_Merge L (sanitizedMetadata extra) owner
      in case fmlookup lbls labelSyncToClusterProfile of
           None \<Rightarrow> fmupd labelSyncToClusterProfile ''true'' lbls
         | Some _ \<Rightarrow> lbls)"

definition childAnnotations :: "lib \<Rightarrow> replicaSet \<Rightarrow> kv \<Rightarrow> kv" where
  "childAnnotations L rs extra = labels_Merge L (sanitizedMetadata extra) (sourceAnnotations rs)"

definition ownedSelector :: "replicaSet \<Rightarrow> selector" where
  "ownedSelector rs = SelectorFromValidatedSet (sourceLabels rs)"

definition ownedBySet :: "lib \<Rightarrow> replicaSet \<Rightarrow> kv \<Rightarrow> bool" where
  "ownedBySet L rs lbls = selector_Matches L (ownedSelector rs) lbls"

text \<open>A missing key of a Go map reads as the empty string.\<close>

definition kv_get :: "kv \<Rightarrow> string \<Rightarrow> string" where
  "kv_get m k = (case fmlookup m k of None \<Rightarrow> [] | Some v \<Rightarrow> v)"

definition requestFromSourceLabels :: "kv \<Rightarrow> key option" where
  "requestFromSourceLabels lbls =
     (let name = kv_get lbls labelSetName; namespace = kv_get lbls labelSetNamespace
      in if name = [] \<or> namespace = [] then None else Some (namespace, name))"

section \<open>Stable child names\<close>

text \<open>\<^verbatim>\<open>validation.DNS1123SubdomainMaxLength\<close>: the documented limit of a DNS-1123 subdomain.\<close>

definition DNS1123SubdomainMaxLength :: nat where
  "DNS1123SubdomainMaxLength = 253"

definition stableChildName :: "string list \<Rightarrow> string" where
  "stableChildName parts =
     (let name = strings_Join parts ''-''
      in if length name \<le> DNS1123SubdomainMaxLength then strings_TrimSuffix name ''-''
         else let suffix = stableHash name;
                  prefixLimit = DNS1123SubdomainMaxLength - length suffix - 1;
                  prefix = strings_TrimSuffix (take prefixLimit name) ''-''
              in prefix @ ''-'' @ suffix)"

section \<open>Lookup lemmas\<close>

lemma source_keys_distinct:
  "distinct [labelManagedBy, labelPartOf, labelSetName, labelSetNamespace, labelSetUID,
     labelPlacementRefName, labelGrantID, labelSliceType, labelTargetNamespace,
     labelTargetNamespaceHash, annotationSpecHash, labelSyncToClusterProfile]"
  by (simp add: key_defs)

lemma fmdom_sourceLabels:
  "fmdom (sourceLabels rs) =
     {|labelManagedBy, labelPartOf, labelSetName, labelSetNamespace, labelSetUID|}"
  by (simp add: sourceLabels_def)

lemma sourceLabels_reserved: "k |\<in>| fmdom (sourceLabels rs) \<Longrightarrow> k \<in> set reservedChildMetadataKeys"
  by (auto simp: fmdom_sourceLabels reservedChildMetadataKeys_def)

lemma sourceLabels_lookup [simp]:
  "fmlookup (sourceLabels rs) labelManagedBy = Some controllerName"
  "fmlookup (sourceLabels rs) labelPartOf = Some (setName rs)"
  "fmlookup (sourceLabels rs) labelSetName = Some (setName rs)"
  "fmlookup (sourceLabels rs) labelSetNamespace = Some (setNamespace rs)"
  "fmlookup (sourceLabels rs) labelSetUID = Some (setUID rs)"
  by (simp_all add: sourceLabels_def fmlookup_of_list key_defs)

lemma sourceLabels_other [simp]:
  "fmlookup (sourceLabels rs) labelPlacementRefName = None"
  "fmlookup (sourceLabels rs) labelSyncToClusterProfile = None"
  by (simp_all add: sourceLabels_def fmlookup_of_list key_defs)

lemma sanitizedMetadata_lookup:
  "fmlookup (sanitizedMetadata m) k = (if k \<in> set reservedChildMetadataKeys then None else fmlookup m k)"
  by (simp add: sanitizedMetadata_def)

lemma extra_keys_not_source:
  "labelPlacementRefName |\<notin>| fmdom (sourceLabels rs)"
  "labelSyncToClusterProfile |\<notin>| fmdom (sourceLabels rs)"
  "labelSliceType |\<notin>| fmdom (sourceLabels rs)"
  "labelTargetNamespace |\<notin>| fmdom (sourceLabels rs)"
  "labelTargetNamespaceHash |\<notin>| fmdom (sourceLabels rs)"
  "labelGrantID |\<notin>| fmdom (sourceLabels rs)"
  by (simp_all add: fmdom_sourceLabels key_defs)

section \<open>Ownership\<close>

context label_library
begin

lemma ownedBySet_iff:
  "ownedBySet L rs lbls \<longleftrightarrow>
     (\<forall>k v. fmlookup (sourceLabels rs) k = Some v \<longrightarrow> fmlookup lbls k = Some v)"
  by (simp add: ownedBySet_def ownedSelector_def Matches_set)

lemma ownedBySet_upd:
  "ownedBySet L rs lbls \<Longrightarrow> k |\<notin>| fmdom (sourceLabels rs) \<Longrightarrow> ownedBySet L rs (fmupd k v lbls)"
  by (simp add: ownedBySet_def ownedSelector_def Matches_upd)

lemma ownedBySet_Merge:
  "ownedBySet L rs b \<Longrightarrow> ownedBySet L rs (labels_Merge L a b)"
  by (auto simp: ownedBySet_iff Merge_lookup)

lemma ownedBySet_sourceLabels: "ownedBySet L rs (sourceLabels rs)"
  by (simp add: ownedBySet_iff)

lemma childLabels_owned: "ownedBySet L rs (childLabels L rs ref extra)"
  by (simp add: childLabels_def Let_def ownedBySet_upd ownedBySet_Merge ownedBySet_sourceLabels
      extra_keys_not_source split: option.splits)

lemma childLabels_lookup_reserved:
  assumes "k \<in> set reservedChildMetadataKeys"
  shows "fmlookup (childLabels L rs ref extra) k =
    (if k = labelPlacementRefName then Some ref else fmlookup (sourceLabels rs) k)"
proof -
  have "k \<noteq> labelSyncToClusterProfile"
    using assms source_keys_distinct by (auto simp: reservedChildMetadataKeys_def)
  with assms show ?thesis
    by (auto simp: childLabels_def Let_def Merge_lookup sanitizedMetadata_lookup split: option.splits)
qed

lemma childLabels_lookup_user:
  assumes "k \<notin> set reservedChildMetadataKeys" "fmlookup extra k = Some v"
  shows "fmlookup (childLabels L rs ref extra) k = Some v"
proof -
  have "fmlookup (sourceLabels rs) k = None"
    using assms(1) sourceLabels_reserved [of k rs] by (auto simp: fmdom_notD)
  moreover have "k \<noteq> labelPlacementRefName"
    using assms(1) by (auto simp: reservedChildMetadataKeys_def)
  ultimately show ?thesis
    using assms by (auto simp: childLabels_def Let_def Merge_lookup sanitizedMetadata_lookup split: option.splits)
qed

lemma childLabels_sync:
  "fmlookup (childLabels L rs ref extra) labelSyncToClusterProfile =
     Some (case fmlookup extra labelSyncToClusterProfile of None \<Rightarrow> ''true'' | Some v \<Rightarrow> v)"
proof -
  have "labelSyncToClusterProfile \<notin> set reservedChildMetadataKeys"
    "labelSyncToClusterProfile \<noteq> labelPlacementRefName"
    by (simp_all add: reservedChildMetadataKeys_def key_defs)
  then show ?thesis
    by (auto simp: childLabels_def Let_def Merge_lookup sanitizedMetadata_lookup split: option.splits)
qed

end

section \<open>Name lengths\<close>

lemma stableChildName_length: "length (stableChildName parts) \<le> 253"
proof (cases "length (strings_Join parts ''-'') \<le> 253")
  case True
  then show ?thesis
    using strings_TrimSuffix_length [of "strings_Join parts ''-''" "''-''"]
    by (simp add: stableChildName_def DNS1123SubdomainMaxLength_def)
next
  case False
  then show ?thesis
    using strings_TrimSuffix_length [of "take 242 (strings_Join parts ''-'')" "''-''"]
    by (simp add: stableChildName_def DNS1123SubdomainMaxLength_def Let_def)
qed

section \<open>Properties\<close>

text \<open>
  C26: User labels can never override ownership. Whatever labels a template carries, the labels of
  a generated child make it owned by the set; under every reserved key the child has the
  controller's own value or none; every other user label is kept.
\<close>

theorem childLabels_protects_ownership:
  assumes "label_library L"
  shows "ownedBySet L rs (childLabels L rs ref extra) \<and>
    (\<forall>k \<in> set reservedChildMetadataKeys. fmlookup (childLabels L rs ref extra) k =
       (if k = labelPlacementRefName then Some ref else fmlookup (sourceLabels rs) k)) \<and>
    (\<forall>k v. k \<notin> set reservedChildMetadataKeys \<and> fmlookup extra k = Some v \<longrightarrow>
       fmlookup (childLabels L rs ref extra) k = Some v)"
  using assms
  by (simp add: label_library.childLabels_owned label_library.childLabels_lookup_reserved
      label_library.childLabels_lookup_user)

theorem childLabels_protects_ownership_witness:
  "label_library ref_lib \<and>
   ownedBySet ref_lib sampleSet (childLabels ref_lib sampleSet ''all'' (fmap_of_list [(labelSetUID, ''evil'')])) \<and>
   fmlookup (childLabels ref_lib sampleSet ''all'' (fmap_of_list [(labelSetUID, ''evil'')])) labelSetUID = Some ''u1''"
  using childLabels_protects_ownership [OF ref.label_library_axioms, of sampleSet "''all''"
      "fmap_of_list [(labelSetUID, ''evil'')]"] ref.label_library_axioms
  by (simp add: reservedChildMetadataKeys_def key_defs sourceLabels_def fmlookup_of_list)

text \<open>
  Ownership separates sets. Labels owned by two sets force the two to agree on name,
  namespace and UID: a set recreated under the same name does not own its predecessor's children.
\<close>

theorem ownedBySet_unique:
  assumes "label_library L" "ownedBySet L rs lbls" "ownedBySet L rs' lbls"
  shows "setName rs = setName rs' \<and> setNamespace rs = setNamespace rs' \<and> setUID rs = setUID rs'"
proof -
  have "fmlookup lbls k = Some v" if "fmlookup (sourceLabels s) k = Some v" "ownedBySet L s lbls" for s k v
    using that label_library.ownedBySet_iff [OF assms(1)] by blast
  from this [of rs] this [of rs'] assms(2,3) show ?thesis
    by (metis option.inject sourceLabels_lookup(3,4,5))
qed

theorem ownedBySet_unique_witness:
  "ownedBySet ref_lib (sampleSet\<lparr>setStatus := sampleStatus\<lparr>stReadyClusterCount := 3\<rparr>\<rparr>) (sourceLabels sampleSet) \<and>
   setUID sampleSet = setUID (sampleSet\<lparr>setStatus := sampleStatus\<lparr>stReadyClusterCount := 3\<rparr>\<rparr>)"
proof -
  have owned: "ownedBySet ref_lib (sampleSet\<lparr>setStatus := sampleStatus\<lparr>stReadyClusterCount := 3\<rparr>\<rparr>) (sourceLabels sampleSet)"
    by (simp add: ref.ownedBySet_iff sourceLabels_def)
  from ownedBySet_unique [OF ref.label_library_axioms ref.ownedBySet_sourceLabels this] owned
  show ?thesis by blast
qed

text \<open>
  C33: The watch on generated children finds its way back: from the labels of any child generated
  for a set, \<^verbatim>\<open>requestFromSourceLabels\<close> recovers the namespace and name of that set.
\<close>

theorem requestFromSourceLabels_roundtrip:
  assumes "label_library L" "setName rs \<noteq> []" "setNamespace rs \<noteq> []"
  shows "requestFromSourceLabels (childLabels L rs ref extra) = Some (objectKey (setMeta rs))"
proof -
  have "labelSetName \<in> set reservedChildMetadataKeys" "labelSetNamespace \<in> set reservedChildMetadataKeys"
    "labelSetName \<noteq> labelPlacementRefName" "labelSetNamespace \<noteq> labelPlacementRefName"
    using source_keys_distinct by (auto simp: reservedChildMetadataKeys_def)
  then show ?thesis
    using assms by (simp add: requestFromSourceLabels_def kv_get_def label_library.childLabels_lookup_reserved)
qed

theorem requestFromSourceLabels_roundtrip_witness:
  "requestFromSourceLabels (childLabels ref_lib sampleSet ''all'' (fmap_of_list [(labelSetName, ''other'')])) =
     Some (''fleet'', ''viewer'')"
  using requestFromSourceLabels_roundtrip [OF ref.label_library_axioms, of sampleSet] by simp

text \<open>
  Generated names are valid in length: a stable child name never exceeds the 253 characters of
  a DNS-1123 subdomain, and the joined name is used as it is, without hash or trimming, exactly
  when it is within the limit and does not end in a hyphen.
\<close>

theorem stableChildName_bounded:
  "length (stableChildName parts) \<le> 253 \<and>
   (stableChildName parts = strings_Join parts ''-'' \<longleftrightarrow>
      length (strings_Join parts ''-'') \<le> 253 \<and>
      (if strings_Join parts ''-'' = [] then True else last (strings_Join parts ''-'') \<noteq> CHR ''-''))"
proof (cases "length (strings_Join parts ''-'') \<le> 253")
  case True
  have "strings_TrimSuffix s ''-'' = s \<longleftrightarrow> (if s = [] then True else last s \<noteq> CHR ''-'')" for s
    by (cases s rule: rev_cases) (auto simp: strings_TrimSuffix_def)
  with True show ?thesis
    using stableChildName_length [of parts] by (simp add: stableChildName_def DNS1123SubdomainMaxLength_def)
next
  case False
  then show ?thesis using stableChildName_length [of parts] by metis
qed

end
