(* ===== verification/Validation.thy ===== *)
theory Validation
  imports Metadata
begin

text \<open>
  The runtime validation of \<^verbatim>\<open>managedserviceaccountreplicaset_controller.go\<close>
  (\<^verbatim>\<open>validateRuntimeSpec\<close> and its helpers), check by check in source order, each failing
  check with the error it returns. \<open>runtimeSpecValid\<close> says declaratively what a valid
  specification is; the lemmas show the validator decides exactly that.

  A Go map is ranged over in no fixed order; the model takes the sorted order, so which of
  several reserved keys an error names is one of the outcomes Go allows.
\<close>

section \<open>Rollout strategies\<close>

definition StrategyAll :: string where
  "StrategyAll = ''All''"

definition StrategyProgressive :: string where
  "StrategyProgressive = ''Progressive''"

definition StrategyProgressivePerGroup :: string where
  "StrategyProgressivePerGroup = ''ProgressivePerGroup''"

definition defaultRolloutStrategy :: "rolloutStrategy \<Rightarrow> rolloutStrategy" where
  "defaultRolloutStrategy strategy =
     (if rsType strategy = [] then strategy\<lparr>rsType := StrategyAll\<rparr> else strategy)"

section \<open>The validator\<close>

fun validatePlacementRefs :: "placementRef list \<Rightarrow> go_error option" where
  "validatePlacementRefs [] = None"
| "validatePlacementRefs (ref # refs) =
     (if prName ref = [] then Some (ErrText ''spec.placementRefs[].name is required'')
      else if rsType (defaultRolloutStrategy (prRolloutStrategy ref))
                \<in> {StrategyAll, StrategyProgressive, StrategyProgressivePerGroup}
      then validatePlacementRefs refs
      else Some (ErrText (''unsupported placementRef '' @ fmt_q (prName ref) @
             '' rolloutStrategy.type '' @ fmt_q (rsType (prRolloutStrategy ref)))))"

definition validateGrantMetadata :: "rbacGrant \<Rightarrow> go_error option" where
  "validateGrantMetadata grant =
     (let reserved = (\<lambda>m. find (\<lambda>key. key \<in> set reservedGrantMetadataKeys) (sorted_list_of_fset (fmdom m)))
      in case reserved (gmLabels (gMetadata grant)) of
           Some key \<Rightarrow> Some (ErrText (''spec.rbac.grants['' @ fmt_q (gID grant) @
              ''].metadata.labels contains reserved key '' @ fmt_q key))
         | None \<Rightarrow> (case reserved (gmAnnotations (gMetadata grant)) of
             Some key \<Rightarrow> Some (ErrText (''spec.rbac.grants['' @ fmt_q (gID grant) @
                ''].metadata.annotations contains reserved key '' @ fmt_q key))
           | None \<Rightarrow> None))"

definition namespaceModes :: "rbacGrant \<Rightarrow> nat" where
  "namespaceModes grant = (case gForEachNamespace grant of None \<Rightarrow> 0
     | Some it \<Rightarrow> (if niName it \<noteq> [] then 1 else 0) + (if niNames it \<noteq> [] then 1 else 0)
                 + (if niSelector it \<noteq> None then 1 else 0))"

fun validateGrants :: "strset \<Rightarrow> rbacGrant list \<Rightarrow> go_error option" where
  "validateGrants ids [] = None"
| "validateGrants ids (grant # grants) =
     (if gID grant = [] then Some (ErrText ''spec.rbac.grants[].id is required'')
      else if gID grant |\<in>| ids then
        Some (ErrText (''spec.rbac.grants[].id '' @ fmt_q (gID grant) @ '' must be unique''))
      else if gmName (gMetadata grant) = [] then
        Some (ErrText (''spec.rbac.grants['' @ fmt_q (gID grant) @ ''].metadata.name is required''))
      else if gRules grant = [] then
        Some (ErrText (''spec.rbac.grants['' @ fmt_q (gID grant) @ ''].rules must be non-empty''))
      else case validateGrantMetadata grant of
        Some err \<Rightarrow> Some err
      | None \<Rightarrow>
         if gType grant = RBACGrantTypeRole then
           (if namespaceModes grant \<noteq> 1
            then Some (ErrText (''spec.rbac.grants['' @ fmt_q (gID grant) @
                   ''] type Role requires exactly one forEachNamespace mode''))
            else validateGrants (finsert (gID grant) ids) grants)
         else if gType grant = RBACGrantTypeClusterRole then
           (if namespaceModes grant \<noteq> 0
            then Some (ErrText (''spec.rbac.grants['' @ fmt_q (gID grant) @
                   ''] type ClusterRole must not set forEachNamespace''))
            else validateGrants (finsert (gID grant) ids) grants)
         else Some (ErrText (''spec.rbac.grants['' @ fmt_q (gID grant) @
                ''].type '' @ fmt_q (gType grant) @ '' is unsupported'')))"

text \<open>The namespaces a Role grant names itself, sorted; selectors are not consulted.\<close>

definition fixedNamespaces :: "namespaceIterator \<Rightarrow> string list" where
  "fixedNamespaces it = sorted_list_of_fset
     ((if niName it \<noteq> [] then {|niName it|} else {||}) |\<union>| fset_of_list (niNames it))"

text \<open>The inner loop over the namespaces of one Role grant: the error, or the extended set of keys.\<close>

fun validateNamespacedNames :: "string \<Rightarrow> strset \<Rightarrow> string list \<Rightarrow> go_error + strset" where
  "validateNamespacedNames name seen [] = Inr seen"
| "validateNamespacedNames name seen (namespace # nss) =
     (let key = namespace @ ''/'' @ name
      in if key |\<in>| seen
         then Inl (ErrText (''spec.rbac.grants contains duplicate Role metadata.name '' @ fmt_q name @
                '' for namespace '' @ fmt_q namespace))
         else validateNamespacedNames name (finsert key seen) nss)"

fun validateObjectNamesLoop :: "strset \<Rightarrow> strset \<Rightarrow> rbacGrant list \<Rightarrow> go_error option" where
  "validateObjectNamesLoop clusterNames namespacedNames [] = None"
| "validateObjectNamesLoop clusterNames namespacedNames (grant # grants) =
     (let name = gmName (gMetadata grant) in
      if gType grant = RBACGrantTypeClusterRole then
        (if name |\<in>| clusterNames
         then Some (ErrText (''spec.rbac.grants contains duplicate ClusterRole metadata.name '' @ fmt_q name))
         else validateObjectNamesLoop (finsert name clusterNames) namespacedNames grants)
      else if gType grant = RBACGrantTypeRole then
        (case gForEachNamespace grant of
           None \<Rightarrow> validateObjectNamesLoop clusterNames namespacedNames grants
         | Some it \<Rightarrow> (case validateNamespacedNames name namespacedNames (fixedNamespaces it) of
             Inl err \<Rightarrow> Some err
           | Inr seen \<Rightarrow> validateObjectNamesLoop clusterNames seen grants))
      else validateObjectNamesLoop clusterNames namespacedNames grants)"

definition validateGrantObjectNames :: "rbacGrant list \<Rightarrow> go_error option" where
  "validateGrantObjectNames grants = validateObjectNamesLoop {||} {||} grants"

definition validateRuntimeSpec :: "replicaSet \<Rightarrow> go_error option" where
  "validateRuntimeSpec rs =
     (if spPlacementRefs (setSpec rs) = [] then Some (ErrText ''spec.placementRefs must be non-empty'')
      else case validatePlacementRefs (spPlacementRefs (setSpec rs)) of
        Some err \<Rightarrow> Some err
      | None \<Rightarrow>
         if tmName (setTemplateMetadata rs) = [] \<or> tmNamespace (setTemplateMetadata rs) = []
         then Some (ErrText ''spec.template.metadata.name and namespace are required'')
         else case spRBAC (setSpec rs) of
           None \<Rightarrow> None
         | Some rbac \<Rightarrow> (case validateGrants {||} (rbGrants rbac) of
             Some err \<Rightarrow> Some err
           | None \<Rightarrow> validateGrantObjectNames (rbGrants rbac)))"

section \<open>What a valid specification is\<close>

definition grantValid :: "rbacGrant \<Rightarrow> bool" where
  "grantValid g \<longleftrightarrow> gID g \<noteq> [] \<and> gmName (gMetadata g) \<noteq> [] \<and> gRules g \<noteq> [] \<and>
     (\<forall>k \<in> set reservedGrantMetadataKeys.
        fmlookup (gmLabels (gMetadata g)) k = None \<and> fmlookup (gmAnnotations (gMetadata g)) k = None) \<and>
     (gType g = RBACGrantTypeRole \<and> namespaceModes g = 1 \<or>
      gType g = RBACGrantTypeClusterRole \<and> namespaceModes g = 0)"

definition clusterRoleNames :: "rbacGrant list \<Rightarrow> string list" where
  "clusterRoleNames gs = map (\<lambda>g. gmName (gMetadata g)) (filter (\<lambda>g. gType g = RBACGrantTypeClusterRole) gs)"

definition fixedRoleKeys :: "rbacGrant \<Rightarrow> string list" where
  "fixedRoleKeys g = (if gType g = RBACGrantTypeRole
     then case gForEachNamespace g of None \<Rightarrow> []
          | Some it \<Rightarrow> map (\<lambda>ns. ns @ ''/'' @ gmName (gMetadata g)) (fixedNamespaces it)
     else [])"

definition runtimeSpecValid :: "replicaSet \<Rightarrow> bool" where
  "runtimeSpecValid rs \<longleftrightarrow>
     spPlacementRefs (setSpec rs) \<noteq> [] \<and>
     (\<forall>ref \<in> set (spPlacementRefs (setSpec rs)). prName ref \<noteq> [] \<and>
        rsType (prRolloutStrategy ref)
          \<in> {[], StrategyAll, StrategyProgressive, StrategyProgressivePerGroup}) \<and>
     tmName (setTemplateMetadata rs) \<noteq> [] \<and> tmNamespace (setTemplateMetadata rs) \<noteq> [] \<and>
     (\<forall>g \<in> set (setGrants rs). grantValid g) \<and>
     distinct (map gID (setGrants rs)) \<and>
     distinct (clusterRoleNames (setGrants rs)) \<and>
     distinct (concat (map fixedRoleKeys (setGrants rs)))"

section \<open>The validator decides validity\<close>

lemma defaultRolloutStrategy_known:
  "rsType (defaultRolloutStrategy st) \<in> {StrategyAll, StrategyProgressive, StrategyProgressivePerGroup} \<longleftrightarrow>
   rsType st \<in> {[], StrategyAll, StrategyProgressive, StrategyProgressivePerGroup}"
  by (auto simp: defaultRolloutStrategy_def StrategyAll_def StrategyProgressive_def
      StrategyProgressivePerGroup_def)

lemma validatePlacementRefs_None:
  "validatePlacementRefs refs = None \<longleftrightarrow>
     (\<forall>ref \<in> set refs. prName ref \<noteq> [] \<and>
        rsType (prRolloutStrategy ref) \<in> {[], StrategyAll, StrategyProgressive, StrategyProgressivePerGroup})"
  by (induction refs) (simp_all only: validatePlacementRefs.simps defaultRolloutStrategy_known, auto)

lemma find_reserved_None:
  "find (\<lambda>key. key \<in> set rk) (sorted_list_of_fset (fmdom m)) = None \<longleftrightarrow>
     (\<forall>k \<in> set rk. fmlookup m k = None)"
  by (auto simp: find_None_iff fmlookup_dom_iff)

lemma validateGrantMetadata_None:
  "validateGrantMetadata g = None \<longleftrightarrow>
     (\<forall>k \<in> set reservedGrantMetadataKeys.
        fmlookup (gmLabels (gMetadata g)) k = None \<and> fmlookup (gmAnnotations (gMetadata g)) k = None)"
proof -
  let ?find = "\<lambda>m. find (\<lambda>key. key \<in> set reservedGrantMetadataKeys) (sorted_list_of_fset (fmdom m))"
  have "validateGrantMetadata g = None \<longleftrightarrow>
      ?find (gmLabels (gMetadata g)) = None \<and> ?find (gmAnnotations (gMetadata g)) = None"
    by (simp add: validateGrantMetadata_def Let_def split: option.splits)
  then show ?thesis by (simp only: find_reserved_None ball_conj_distrib)
qed

lemma grant_types_distinct [simp]:
  "RBACGrantTypeRole \<noteq> RBACGrantTypeClusterRole" "RBACGrantTypeClusterRole \<noteq> RBACGrantTypeRole"
  by (simp_all add: RBACGrantTypeRole_def RBACGrantTypeClusterRole_def)

lemma validateGrants_Cons:
  "validateGrants ids (g # gs) = None \<longleftrightarrow>
     grantValid g \<and> gID g |\<notin>| ids \<and> validateGrants (finsert (gID g) ids) gs = None"
  using grant_types_distinct
  by (simp add: grantValid_def validateGrantMetadata_None [symmetric] split: option.splits)

lemma validateGrants_None:
  "validateGrants ids gs = None \<longleftrightarrow>
     (\<forall>g \<in> set gs. grantValid g) \<and> distinct (map gID gs) \<and> (\<forall>g \<in> set gs. gID g |\<notin>| ids)"
proof (induction gs arbitrary: ids)
  case Nil
  show ?case by simp
next
  case (Cons g gs)
  show ?case unfolding validateGrants_Cons Cons.IH
    by (auto simp: image_iff simp del: validateGrants.simps)
qed

lemma validateNamespacedNames_spec:
  "validateNamespacedNames name seen nss = Inr seen' \<longleftrightarrow>
     distinct (map (\<lambda>ns. ns @ ''/'' @ name) nss) \<and>
     (\<forall>k \<in> set (map (\<lambda>ns. ns @ ''/'' @ name) nss). k |\<notin>| seen) \<and>
     seen' = seen |\<union>| fset_of_list (map (\<lambda>ns. ns @ ''/'' @ name) nss)"
  by (induction nss arbitrary: seen) (auto simp: Let_def)

lemma validateObjectNamesLoop_Role:
  assumes "gType g = RBACGrantTypeRole"
  shows "validateObjectNamesLoop cs ns (g # gs) = None \<longleftrightarrow>
    distinct (fixedRoleKeys g) \<and> (\<forall>k \<in> set (fixedRoleKeys g). k |\<notin>| ns) \<and>
    validateObjectNamesLoop cs (ns |\<union>| fset_of_list (fixedRoleKeys g)) gs = None"
proof (cases "gForEachNamespace g")
  case None
  with assms show ?thesis by (simp add: Let_def fixedRoleKeys_def)
next
  case (Some it)
  show ?thesis
  proof (cases "validateNamespacedNames (gmName (gMetadata g)) ns (fixedNamespaces it)")
    case (Inl e)
    then have "\<not> (distinct (fixedRoleKeys g) \<and> (\<forall>k \<in> set (fixedRoleKeys g). k |\<notin>| ns))"
      using validateNamespacedNames_spec [of "gmName (gMetadata g)" ns "fixedNamespaces it"
          "ns |\<union>| fset_of_list (fixedRoleKeys g)"] assms Some
      by (simp add: fixedRoleKeys_def)
    with assms Some Inl show ?thesis by (auto simp: Let_def)
  next
    case (Inr seen)
    with assms Some show ?thesis
      using validateNamespacedNames_spec [of "gmName (gMetadata g)" ns "fixedNamespaces it" seen]
      by (simp add: Let_def fixedRoleKeys_def)
  qed
qed

lemma validateObjectNamesLoop_None:
  "validateObjectNamesLoop cs ns gs = None \<longleftrightarrow>
     distinct (clusterRoleNames gs) \<and> (\<forall>n \<in> set (clusterRoleNames gs). n |\<notin>| cs) \<and>
     distinct (concat (map fixedRoleKeys gs)) \<and>
     (\<forall>k \<in> set (concat (map fixedRoleKeys gs)). k |\<notin>| ns)"
proof (induction gs arbitrary: cs ns)
  case Nil
  show ?case by (simp add: clusterRoleNames_def)
next
  case (Cons g gs)
  consider "gType g = RBACGrantTypeRole" | "gType g = RBACGrantTypeClusterRole"
    | "gType g \<noteq> RBACGrantTypeRole" "gType g \<noteq> RBACGrantTypeClusterRole"
    by blast
  then show ?case
  proof cases
    case 1
    then show ?thesis
      unfolding validateObjectNamesLoop_Role [OF 1] Cons.IH
      by (auto simp: clusterRoleNames_def)
  next
    case 2
    then have "fixedRoleKeys g = []" by (simp add: fixedRoleKeys_def)
    with 2 show ?thesis by (auto simp: Let_def Cons.IH clusterRoleNames_def image_iff)
  next
    case 3
    then have "fixedRoleKeys g = []" by (simp add: fixedRoleKeys_def)
    with 3 show ?thesis by (auto simp: Let_def Cons.IH clusterRoleNames_def)
  qed
qed

lemma validateRuntimeSpec_None: "validateRuntimeSpec rs = None \<longleftrightarrow> runtimeSpecValid rs"
proof (cases "spRBAC (setSpec rs)")
  case None
  then show ?thesis
    unfolding runtimeSpecValid_def validatePlacementRefs_None [symmetric]
    by (simp add: validateRuntimeSpec_def setGrants_def clusterRoleNames_def split: option.splits)
next
  case (Some r)
  have grants: "validateGrants {||} (rbGrants r) = None \<longleftrightarrow>
      (\<forall>g \<in> set (rbGrants r). grantValid g) \<and> distinct (map gID (rbGrants r))"
    by (simp add: validateGrants_None)
  have names: "validateGrantObjectNames (rbGrants r) = None \<longleftrightarrow>
      distinct (clusterRoleNames (rbGrants r)) \<and> distinct (concat (map fixedRoleKeys (rbGrants r)))"
    by (simp add: validateGrantObjectNames_def validateObjectNamesLoop_None)
  from Some grants names show ?thesis
    unfolding runtimeSpecValid_def validatePlacementRefs_None [symmetric] setGrants_def
    by (cases "validateGrants {||} (rbGrants r)"; cases "validateGrantObjectNames (rbGrants r)")
      (auto simp: validateRuntimeSpec_def split: option.splits)
qed

section \<open>Properties\<close>

text \<open>
  C20: Runtime validation decides validity. \<^verbatim>\<open>validateRuntimeSpec\<close> returns no error exactly for the
  specifications that have placement references with names and known strategies, a template name
  and namespace, and grants that are complete, use no reserved key, fit their type, have unique
  ids, unique ClusterRole names and no Role named twice for one fixed namespace.
\<close>

theorem validateRuntimeSpec_decides: "validateRuntimeSpec rs = None \<longleftrightarrow> runtimeSpecValid rs"
  by (rule validateRuntimeSpec_None)

end
