(* ===== verification/Api_Server.thy ===== *)
theory Api_Server
  imports Library_Interface
begin

text \<open>
  The outside world of a reconciliation. The Kubernetes API server, the namespace resolver and
  the event recorder are services: a record of functions over an arbitrary environment state
  \<open>'e\<close>, so that every answer, stale read, failure and concurrent change is possible. A program
  runs in the state monad over a world, which is that environment and the trace of the calls
  made so far, each with its answer. Theorems about traces hold for every server.

  A trace policy says which calls are justified by the calls before them. The locale gives
  the rules by which a program is shown to comply, one per construct of the language.
\<close>

section \<open>Calls and their answers\<close>

datatype api_event =
    GetSet key "go_error + replicaSet"
  | PatchSet replicaSet replicaSet "go_error + replicaSet" \<comment> \<open>base, patched, answer; with optimistic lock\<close>
  | PatchSetStatus replicaSet replicaSet "go_error + replicaSet"
  | GetPlacement key "go_error + placement"
  | ListDecisions selector string "go_error + placementDecision list"
  | GetNamespace string "go_error option"
  | GetChild childKind key "go_error + child"
  | CreateChild child "go_error + child"
  | PatchChild child child "go_error + child"
  | DeleteChild child "go_error option"
  | ListChildren childKind selector "go_error + child list"
  | ResolveNamespaces string string selector "go_error + string list" \<comment> \<open>cluster, grant id\<close>
  | StopCaches key strset
  | WarningEvent string string string

record 'e server =
  srvGetSet :: "key \<Rightarrow> 'e \<Rightarrow> (go_error + replicaSet) \<times> 'e"
  srvPatchSet :: "replicaSet \<Rightarrow> replicaSet \<Rightarrow> 'e \<Rightarrow> (go_error + replicaSet) \<times> 'e"
  srvPatchStatus :: "replicaSet \<Rightarrow> replicaSet \<Rightarrow> 'e \<Rightarrow> (go_error + replicaSet) \<times> 'e"
  srvGetPlacement :: "key \<Rightarrow> 'e \<Rightarrow> (go_error + placement) \<times> 'e"
  srvListDecisions :: "selector \<Rightarrow> string \<Rightarrow> 'e \<Rightarrow> (go_error + placementDecision list) \<times> 'e"
  srvGetNamespace :: "string \<Rightarrow> 'e \<Rightarrow> go_error option \<times> 'e"
  srvGetMSA :: "key \<Rightarrow> 'e \<Rightarrow> (go_error + managedServiceAccount) \<times> 'e"
  srvCreateMSA :: "managedServiceAccount \<Rightarrow> 'e \<Rightarrow> (go_error + managedServiceAccount) \<times> 'e"
  srvPatchMSA :: "managedServiceAccount \<Rightarrow> managedServiceAccount \<Rightarrow> 'e \<Rightarrow> (go_error + managedServiceAccount) \<times> 'e"
  srvDeleteMSA :: "managedServiceAccount \<Rightarrow> 'e \<Rightarrow> go_error option \<times> 'e"
  srvListMSAs :: "selector \<Rightarrow> 'e \<Rightarrow> (go_error + managedServiceAccount list) \<times> 'e"
  srvGetWork :: "key \<Rightarrow> 'e \<Rightarrow> (go_error + manifestWork) \<times> 'e"
  srvCreateWork :: "manifestWork \<Rightarrow> 'e \<Rightarrow> (go_error + manifestWork) \<times> 'e"
  srvPatchWork :: "manifestWork \<Rightarrow> manifestWork \<Rightarrow> 'e \<Rightarrow> (go_error + manifestWork) \<times> 'e"
  srvDeleteWork :: "manifestWork \<Rightarrow> 'e \<Rightarrow> go_error option \<times> 'e"
  srvListWorks :: "selector \<Rightarrow> 'e \<Rightarrow> (go_error + manifestWork list) \<times> 'e"

text \<open>
  The fields of \<^verbatim>\<open>ManagedServiceAccountReplicaSetReconciler\<close>: the client and API reader, the
  recorder (which may be nil), the namespace resolver (which may be nil) and, when the resolver
  also implements \<^verbatim>\<open>NamespaceCacheJanitor\<close>, its janitor; with them the imported packages, and
  of the OCM placement tracker the list it asks its getter for and how it groups the answer.
\<close>

record 'e reconciler =
  rLib :: lib
  rServer :: "'e server"
  rRecorder :: "(replicaSet \<Rightarrow> string \<Rightarrow> string \<Rightarrow> string \<Rightarrow> 'e \<Rightarrow> 'e) option"
  rResolver :: "(replicaSet \<Rightarrow> string \<Rightarrow> rbacGrant \<Rightarrow> selector \<Rightarrow> 'e \<Rightarrow> (go_error + string list) \<times> 'e) option"
  rJanitor :: "(replicaSet \<Rightarrow> strset \<Rightarrow> 'e \<Rightarrow> 'e) option"
  rTrackerQuery :: "placement \<Rightarrow> selector \<times> string"
  rTrackerGroups :: "placement \<Rightarrow> go_error + placementDecision list \<Rightarrow> go_error + clusterGroups"

record 'e world =
  env :: 'e
  trace :: "api_event list"

type_synonym ('e, 'a) prog = "('e world, 'a) state"

definition call :: "('e \<Rightarrow> 'a \<times> 'e) \<Rightarrow> ('a \<Rightarrow> api_event) \<Rightarrow> ('e, 'a) prog" where
  "call f ev = State (\<lambda>w. case f (env w) of (r, e') \<Rightarrow> (r, w\<lparr>env := e', trace := trace w @ [ev r]\<rparr>))"

section \<open>The client\<close>

definition getSet :: "'e reconciler \<Rightarrow> key \<Rightarrow> ('e, go_error + replicaSet) prog" where
  "getSet R k = call (srvGetSet (rServer R) k) (GetSet k)"

definition patchSet :: "'e reconciler \<Rightarrow> replicaSet \<Rightarrow> replicaSet \<Rightarrow> ('e, go_error + replicaSet) prog" where
  "patchSet R base s = call (srvPatchSet (rServer R) base s) (PatchSet base s)"

definition patchSetStatus :: "'e reconciler \<Rightarrow> replicaSet \<Rightarrow> replicaSet \<Rightarrow> ('e, go_error + replicaSet) prog" where
  "patchSetStatus R base s = call (srvPatchStatus (rServer R) base s) (PatchSetStatus base s)"

definition getPlacement :: "'e reconciler \<Rightarrow> key \<Rightarrow> ('e, go_error + placement) prog" where
  "getPlacement R k = call (srvGetPlacement (rServer R) k) (GetPlacement k)"

definition listDecisions :: "'e reconciler \<Rightarrow> selector \<Rightarrow> string \<Rightarrow> ('e, go_error + placementDecision list) prog" where
  "listDecisions R sel ns = call (srvListDecisions (rServer R) sel ns) (ListDecisions sel ns)"

definition getNamespace :: "'e reconciler \<Rightarrow> string \<Rightarrow> ('e, go_error option) prog" where
  "getNamespace R ns = call (srvGetNamespace (rServer R) ns) (GetNamespace ns)"

definition deleteMSA :: "'e reconciler \<Rightarrow> managedServiceAccount \<Rightarrow> ('e, go_error option) prog" where
  "deleteMSA R m = call (srvDeleteMSA (rServer R) m) (DeleteChild (MSA m))"

definition deleteWork :: "'e reconciler \<Rightarrow> manifestWork \<Rightarrow> ('e, go_error option) prog" where
  "deleteWork R m = call (srvDeleteWork (rServer R) m) (DeleteChild (Work m))"

definition listMSAs :: "'e reconciler \<Rightarrow> selector \<Rightarrow> ('e, go_error + managedServiceAccount list) prog" where
  "listMSAs R sel = call (srvListMSAs (rServer R) sel) (\<lambda>r. ListChildren MSAKind sel (map_sum id (map MSA) r))"

definition listWorks :: "'e reconciler \<Rightarrow> selector \<Rightarrow> ('e, go_error + manifestWork list) prog" where
  "listWorks R sel = call (srvListWorks (rServer R) sel) (\<lambda>r. ListChildren WorkKind sel (map_sum id (map Work) r))"

text \<open>
  The client at one child type \<open>'t\<close>, the way the generic functions of the controller see it:
  the calls, the object metadata and \<^verbatim>\<open>GetObjectKind().GroupVersionKind().Kind\<close>.
\<close>

record ('e, 't) childClient =
  ccGet :: "key \<Rightarrow> ('e, go_error + 't) prog"
  ccCreate :: "'t \<Rightarrow> ('e, go_error + 't) prog"
  ccPatch :: "'t \<Rightarrow> 't \<Rightarrow> ('e, go_error + 't) prog"
  ccMeta :: "'t \<Rightarrow> objectMeta"
  ccSetMeta :: "objectMeta \<Rightarrow> 't \<Rightarrow> 't"
  ccKindName :: "'t \<Rightarrow> string"

definition msaClient :: "'e reconciler \<Rightarrow> ('e, managedServiceAccount) childClient" where
  "msaClient R = \<lparr>
     ccGet = (\<lambda>k. call (srvGetMSA (rServer R) k) (\<lambda>r. GetChild MSAKind k (map_sum id MSA r))),
     ccCreate = (\<lambda>m. call (srvCreateMSA (rServer R) m) (\<lambda>r. CreateChild (MSA m) (map_sum id MSA r))),
     ccPatch = (\<lambda>b m. call (srvPatchMSA (rServer R) b m) (\<lambda>r. PatchChild (MSA b) (MSA m) (map_sum id MSA r))),
     ccMeta = msaMeta, ccSetMeta = (\<lambda>m x. x\<lparr>msaMeta := m\<rparr>), ccKindName = (\<lambda>x. tyKind (msaType x))\<rparr>"

definition workClient :: "'e reconciler \<Rightarrow> ('e, manifestWork) childClient" where
  "workClient R = \<lparr>
     ccGet = (\<lambda>k. call (srvGetWork (rServer R) k) (\<lambda>r. GetChild WorkKind k (map_sum id Work r))),
     ccCreate = (\<lambda>m. call (srvCreateWork (rServer R) m) (\<lambda>r. CreateChild (Work m) (map_sum id Work r))),
     ccPatch = (\<lambda>b m. call (srvPatchWork (rServer R) b m) (\<lambda>r. PatchChild (Work b) (Work m) (map_sum id Work r))),
     ccMeta = workMeta, ccSetMeta = (\<lambda>m x. x\<lparr>workMeta := m\<rparr>), ccKindName = (\<lambda>x. tyKind (workType x))\<rparr>"

section \<open>The other services\<close>

definition recordWarningEvent :: "'e reconciler \<Rightarrow> replicaSet \<Rightarrow> string \<Rightarrow> string \<Rightarrow> string \<Rightarrow> ('e, unit) prog" where
  "recordWarningEvent R obj reason action message =
     (case rRecorder R of None \<Rightarrow> return ()
      | Some record \<Rightarrow> call (\<lambda>e. ((), record obj reason action message e))
          (\<lambda>_. WarningEvent reason action message))"

definition stopNamespaceCaches :: "'e reconciler \<Rightarrow> replicaSet \<Rightarrow> strset \<Rightarrow> ('e, unit) prog" where
  "stopNamespaceCaches R rs keepClusters =
     (case rJanitor R of None \<Rightarrow> return ()
      | Some janitor \<Rightarrow> call (\<lambda>e. ((), janitor rs keepClusters e))
          (\<lambda>_. StopCaches (objectKey (setMeta rs)) keepClusters))"

text \<open>A loop that threads a value through the effects of its body.\<close>

fun mfold :: "('a \<Rightarrow> 'b \<Rightarrow> ('s, 'b) state) \<Rightarrow> 'a list \<Rightarrow> 'b \<Rightarrow> ('s, 'b) state" where
  "mfold f [] acc = return acc"
| "mfold f (x # xs) acc = do { acc' \<leftarrow> f x acc; mfold f xs acc' }"

section \<open>What a program emits\<close>

text \<open>
  \<open>emits m Q\<close>: run from any world, \<open>m\<close> appends some events to the trace, and \<open>Q\<close> holds of
  its result and those events.
\<close>

definition emits :: "('e, 'a) prog \<Rightarrow> ('a \<Rightarrow> api_event list \<Rightarrow> bool) \<Rightarrow> bool" where
  "emits m Q \<longleftrightarrow>
     (\<forall>w. \<exists>es. trace (snd (run_state m w)) = trace w @ es \<and> Q (fst (run_state m w)) es)"

lemma emitsI:
  "(\<And>w. \<exists>es. trace (snd (run_state m w)) = trace w @ es \<and> Q (fst (run_state m w)) es) \<Longrightarrow> emits m Q"
  by (simp add: emits_def)

lemma emitsD:
  assumes "emits m Q" "run_state m w = (r, w')"
  obtains es where "trace w' = trace w @ es" "Q r es"
  using assms unfolding emits_def by (metis fst_conv snd_conv)

lemma emits_return: "Q x [] \<Longrightarrow> emits (return x) Q"
  by (rule emitsI) simp

lemma emits_call: "(\<And>r. Q r [ev r]) \<Longrightarrow> emits (call f ev) Q"
  by (rule emitsI) (simp add: call_def split: prod.splits)

lemma emits_bind:
  assumes m: "emits m P" and f: "\<And>a es. P a es \<Longrightarrow> emits (f a) (\<lambda>b es'. Q b (es @ es'))"
  shows "emits (State_Monad.bind m f) Q"
proof (rule emitsI)
  fix w :: "'a world"
  obtain a w1 where run: "run_state m w = (a, w1)" by (cases "run_state m w") auto
  then obtain es where es: "trace w1 = trace w @ es" "P a es"
    by (rule emitsD [OF m])
  then obtain es' where "trace (snd (run_state (f a) w1)) = trace w1 @ es'"
    "Q (fst (run_state (f a) w1)) (es @ es')"
    using f [OF es(2)] unfolding emits_def by blast
  with es(1) run show "\<exists>es. trace (snd (run_state (State_Monad.bind m f) w)) = trace w @ es \<and>
      Q (fst (run_state (State_Monad.bind m f) w)) es"
    by simp
qed

lemma emits_bind_call:
  assumes "\<And>r. emits (g r) (\<lambda>b es. Q b (ev r # es))"
  shows "emits (State_Monad.bind (call f ev) g) Q"
  by (rule emits_bind [where P = "\<lambda>r es. es = [ev r]"]) (auto intro: emits_call assms)

lemma emits_weaken: "emits m P \<Longrightarrow> (\<And>r es. P r es \<Longrightarrow> Q r es) \<Longrightarrow> emits m Q"
  unfolding emits_def by blast

lemma emits_conj: "emits m P \<Longrightarrow> emits m Q \<Longrightarrow> emits m (\<lambda>r es. P r es \<and> Q r es)"
  unfolding emits_def by (metis same_append_eq)

text \<open>The loop rule: an invariant over the elements done and the events of those iterations.\<close>

lemma emits_mfold:
  assumes init: "I [] acc []"
    and step: "\<And>xs x ys acc es. zs = xs @ x # ys \<Longrightarrow> I xs acc es \<Longrightarrow>
      emits (f x acc) (\<lambda>acc' es'. I (xs @ [x]) acc' (es @ es'))"
  shows "emits (mfold f zs acc) (\<lambda>acc' es. I zs acc' es)"
proof -
  have "emits (mfold f ys acc) (\<lambda>acc' es'. I zs acc' (es @ es'))"
    if "zs = xs @ ys" "I xs acc es" for xs ys acc es
    using that
  proof (induction ys arbitrary: xs acc es)
    case Nil
    then show ?case by (simp add: emits_return)
  next
    case (Cons x ys)
    have "emits (mfold f ys acc') (\<lambda>acc' es''. I zs acc' ((es @ es') @ es''))"
      if "I (xs @ [x]) acc' (es @ es')" for acc' es'
      using Cons.IH [of "xs @ [x]" acc' "es @ es'"] Cons.prems(1) that by simp
    then show ?case
      using step [OF Cons.prems] by (auto intro!: emits_bind [where P = "\<lambda>a es'. I (xs @ [x]) a (es @ es')"])
  qed
  from this [of "[]" zs acc "[]"] init show ?thesis by simp
qed

section \<open>Walking a program\<close>

text \<open>
  A preorder on worlds, and the programs that only move along it: one rule per construct of the
  language. What a program does to its environment and what it does to the trace are both preorders.
\<close>

locale world_preorder =
  fixes T :: "'w \<Rightarrow> 'w \<Rightarrow> bool"
  assumes T_refl: "T w w" and T_trans: "T u v \<Longrightarrow> T v w \<Longrightarrow> T u w"
begin

definition moves :: "('w, 'a) state \<Rightarrow> bool" where
  "moves m \<longleftrightarrow> (\<forall>w. T w (snd (run_state m w)))"

lemma movesD: "moves m \<Longrightarrow> run_state m w = (r, w') \<Longrightarrow> T w w'"
  unfolding moves_def by (metis snd_conv)

lemma moves_return [policy_intros]: "moves (return x)"
  by (simp add: moves_def T_refl)

lemma moves_bind [policy_intros]:
  assumes "moves m" "\<And>a. moves (f a)"
  shows "moves (State_Monad.bind m f)"
  unfolding moves_def
proof
  fix w
  obtain a w1 where run: "run_state m w = (a, w1)" by (cases "run_state m w") auto
  have "T w1 (snd (run_state (f a) w1))" using assms(2) by (simp add: moves_def)
  with T_trans [OF movesD [OF assms(1) run]] run show "T w (snd (run_state (State_Monad.bind m f) w))" by simp
qed

lemma moves_mfold [policy_intros]: "(\<And>x acc. moves (f x acc)) \<Longrightarrow> moves (mfold f xs acc)"
  by (induction xs arbitrary: acc) (simp_all add: moves_return moves_bind)

lemma moves_if [policy_intros]: "moves a \<Longrightarrow> moves b \<Longrightarrow> moves (if c then a else b)"
  by simp

lemma moves_sum [policy_intros]:
  "(\<And>e. moves (f e)) \<Longrightarrow> (\<And>x. moves (g x)) \<Longrightarrow> moves (case r of Inl e \<Rightarrow> f e | Inr x \<Rightarrow> g x)"
  by (cases r) simp_all

lemma moves_option [policy_intros]:
  "moves f \<Longrightarrow> (\<And>x. moves (g x)) \<Longrightarrow> moves (case r of None \<Rightarrow> f | Some x \<Rightarrow> g x)"
  by (cases r) simp_all

lemma moves_list [policy_intros]:
  "moves f \<Longrightarrow> (\<And>y ys. moves (g y ys)) \<Longrightarrow> moves (case xs of [] \<Rightarrow> f | y # ys \<Rightarrow> g y ys)"
  by (cases xs) simp_all

lemma moves_prod [policy_intros]: "(\<And>a b. moves (f a b)) \<Longrightarrow> moves (case p of (a, b) \<Rightarrow> f a b)"
  by (cases p) simp

lemma moves_Let [policy_intros]: "(\<And>x. moves (f x)) \<Longrightarrow> moves (Let x f)"
  by (simp add: Let_def)

end

section \<open>Trace policies\<close>

fun justified :: "(api_event set \<Rightarrow> api_event \<Rightarrow> bool) \<Rightarrow> api_event set \<Rightarrow> api_event list \<Rightarrow> bool" where
  "justified J before [] = True"
| "justified J before (e # es) = (J before e \<and> justified J (insert e before) es)"

locale trace_policy =
  fixes J :: "api_event set \<Rightarrow> api_event \<Rightarrow> bool"
  assumes J_mono: "A \<subseteq> B \<Longrightarrow> J A e \<Longrightarrow> J B e"
begin

lemma justified_mono: "A \<subseteq> B \<Longrightarrow> justified J A es \<Longrightarrow> justified J B es"
proof (induction es arbitrary: A B)
  case (Cons e es)
  have ins: "insert e A \<subseteq> insert e B" using Cons.prems(1) by blast
  from Cons.prems show ?case
    using Cons.IH [OF ins] J_mono [OF Cons.prems(1)] by auto
qed simp

lemma justified_append:
  "justified J A (es @ fs) \<longleftrightarrow> justified J A es \<and> justified J (A \<union> set es) fs"
  by (induction es arbitrary: A) auto

lemma justified_append_empty:
  "justified J {} es \<Longrightarrow> justified J {} fs \<Longrightarrow> justified J {} (es @ fs)"
  using justified_mono [of "{}"] by (auto simp: justified_append)

lemma justified_all: "(\<And>e. e \<in> set es \<Longrightarrow> J A e) \<Longrightarrow> justified J A es"
proof (induction es arbitrary: A)
  case (Cons e es)
  then show ?case using J_mono [of A "insert e A"] by (simp add: subset_insertI)
qed simp

lemma justified_member: "justified J A es \<Longrightarrow> e \<in> set es \<Longrightarrow> J (A \<union> set es) e"
proof (induction es arbitrary: A)
  case (Cons x es)
  show ?case
  proof (cases "e = x")
    case True
    with Cons.prems J_mono [of A "A \<union> set (x # es)" x] show ?thesis by auto
  next
    case False
    with Cons show ?thesis using Cons.IH [of "insert x A"] by simp
  qed
qed simp

text \<open>The trace grows by justified calls.\<close>

definition extends :: "'e world \<Rightarrow> 'e world \<Rightarrow> bool" where
  "extends w w' \<longleftrightarrow> (\<exists>es. trace w' = trace w @ es \<and> justified J {} es)"

end

sublocale trace_policy \<subseteq> walk: world_preorder extends
proof
  fix u v w :: "'a world"
  show "extends u u" unfolding extends_def by (rule exI [of _ "[]"]) simp
  assume "extends u v" "extends v w"
  then obtain es fs where "trace v = trace u @ es" "justified J {} es" "trace w = trace v @ fs" "justified J {} fs"
    unfolding extends_def by blast
  then show "extends u w"
    unfolding extends_def using justified_append_empty by (intro exI [of _ "es @ fs"]) simp
qed

context trace_policy
begin

abbreviation complies :: "('e, 'a) prog \<Rightarrow> bool" where
  "complies \<equiv> walk.moves"

lemma complies_emits: "complies m \<longleftrightarrow> emits m (\<lambda>_ es. justified J {} es)"
  by (simp add: walk.moves_def extends_def emits_def)

lemma complies_call: "(\<And>r. J {} (ev r)) \<Longrightarrow> complies (call f ev)"
  unfolding complies_emits by (rule emits_call) simp

lemma complies_trace:
  assumes "complies m" "run_state m w = (r, w')"
  shows "\<exists>es. trace w' = trace w @ es \<and> justified J {} es"
  using walk.movesD [OF assms] by (simp add: extends_def)

text \<open>Compliance of a program that runs after the events of \<open>A\<close>.\<close>

definition compliesFrom :: "api_event set \<Rightarrow> ('e, 'a) prog \<Rightarrow> bool" where
  "compliesFrom A m \<longleftrightarrow> emits m (\<lambda>_ es. justified J A es)"

lemma complies_from_empty: "complies m \<longleftrightarrow> compliesFrom {} m"
  by (simp add: complies_emits compliesFrom_def)

lemma compliesFrom_complies: "complies m \<Longrightarrow> compliesFrom A m"
  unfolding complies_emits compliesFrom_def
  by (erule emits_weaken) (rule justified_mono, simp_all)

lemma compliesFrom_return: "compliesFrom A (return x)"
  by (simp add: compliesFrom_def emits_return)

lemma compliesFrom_call: "(\<And>r. J A (ev r)) \<Longrightarrow> compliesFrom A (call f ev)"
  unfolding compliesFrom_def by (rule emits_call) simp

lemma compliesFrom_bind:
  assumes "emits m P"
    and "\<And>a es. P a es \<Longrightarrow> justified J A es"
    and "\<And>a es. P a es \<Longrightarrow> compliesFrom (A \<union> set es) (f a)"
  shows "compliesFrom A (State_Monad.bind m f)"
  unfolding compliesFrom_def using assms(1)
proof (rule emits_bind)
  fix a es
  assume "P a es"
  with assms(2,3) show "emits (f a) (\<lambda>_ es'. justified J A (es @ es'))"
    unfolding compliesFrom_def justified_append by (blast intro: emits_weaken)
qed

end

end
