(* ===== verification/Reference_Hub.thy ===== *)
theory Reference_Hub
  imports Api_Server
begin

text \<open>
  One concrete API server, executable: objects in lists, reads by key, lists by label selector,
  manifests kept as raw JSON the way the API server keeps them. Examples run against it, and the
  interface of a well-behaved store is interpreted on it.
\<close>

section \<open>A concrete hub\<close>

record hub =
  hubSets :: "replicaSet list"
  hubPlacements :: "placement list"
  hubDecisions :: "placementDecision list"
  hubNamespaces :: "string list"
  hubMSAs :: "managedServiceAccount list"
  hubWorks :: "manifestWork list"

definition hubFind :: "('t \<Rightarrow> objectMeta) \<Rightarrow> 't list \<Rightarrow> key \<Rightarrow> 't option" where
  "hubFind meta xs k = find (\<lambda>x. objectKey (meta x) = k) xs"

definition hubGet :: "('t \<Rightarrow> objectMeta) \<Rightarrow> 't list \<Rightarrow> key \<Rightarrow> go_error + 't" where
  "hubGet meta xs k = (case hubFind meta xs k of None \<Rightarrow> Inl (ApiNotFound ''not found'') | Some x \<Rightarrow> Inr x)"

definition hubCreate :: "('t \<Rightarrow> objectMeta) \<Rightarrow> 't \<Rightarrow> 't list \<Rightarrow> (go_error + 't) \<times> 't list" where
  "hubCreate meta x xs = (case hubFind meta xs (objectKey (meta x)) of
     None \<Rightarrow> (Inr x, xs @ [x]) | Some _ \<Rightarrow> (Inl (ApiError ''already exists''), xs))"

definition hubPatch :: "('t \<Rightarrow> objectMeta) \<Rightarrow> 't \<Rightarrow> 't list \<Rightarrow> (go_error + 't) \<times> 't list" where
  "hubPatch meta x xs = (case hubFind meta xs (objectKey (meta x)) of
     None \<Rightarrow> (Inl (ApiNotFound ''not found''), xs)
   | Some _ \<Rightarrow> (Inr x, map (\<lambda>y. if objectKey (meta y) = objectKey (meta x) then x else y) xs))"

definition hubDelete :: "('t \<Rightarrow> objectMeta) \<Rightarrow> 't \<Rightarrow> 't list \<Rightarrow> go_error option \<times> 't list" where
  "hubDelete meta x xs = (case hubFind meta xs (objectKey (meta x)) of
     None \<Rightarrow> (Some (ApiNotFound ''not found''), xs)
   | Some _ \<Rightarrow> (None, filter (\<lambda>y. objectKey (meta y) \<noteq> objectKey (meta x)) xs))"

text \<open>A manifest as the API server keeps it: its JSON.\<close>

definition storedManifest :: "lib \<Rightarrow> manifest \<Rightarrow> manifest" where
  "storedManifest L m = (if mfRaw m \<noteq> [] then m\<lparr>mfObject := None\<rparr>
     else case mfObject m of None \<Rightarrow> m
       | Some ob \<Rightarrow> (case json_Marshal L ob of None \<Rightarrow> m | Some b \<Rightarrow> \<lparr>mfRaw = b, mfObject = None\<rparr>))"

definition storedWork :: "lib \<Rightarrow> manifestWork \<Rightarrow> manifestWork" where
  "storedWork L w = w\<lparr>workSpec := (workSpec w)\<lparr>mwManifests := map (storedManifest L) (mwManifests (workSpec w))\<rparr>\<rparr>"

definition hubServer :: "lib \<Rightarrow> hub server" where
  "hubServer L = \<lparr>
     srvGetSet = (\<lambda>k e. (hubGet setMeta (hubSets e) k, e)),
     srvPatchSet = (\<lambda>b s e. case hubPatch setMeta s (hubSets e) of (r, xs) \<Rightarrow> (r, e\<lparr>hubSets := xs\<rparr>)),
     srvPatchStatus = (\<lambda>b s e. case hubPatch setMeta s (hubSets e) of (r, xs) \<Rightarrow> (r, e\<lparr>hubSets := xs\<rparr>)),
     srvGetPlacement = (\<lambda>k e. (hubGet plMeta (hubPlacements e) k, e)),
     srvListDecisions = (\<lambda>sel ns e. (Inr (filter (\<lambda>d. omNamespace (pdMeta d) = ns \<and>
        selector_Matches L sel (omLabels (pdMeta d))) (hubDecisions e)), e)),
     srvGetNamespace = (\<lambda>ns e. (if ns \<in> set (hubNamespaces e) then None else Some (ApiNotFound ''not found''), e)),
     srvGetMSA = (\<lambda>k e. (hubGet msaMeta (hubMSAs e) k, e)),
     srvCreateMSA = (\<lambda>m e. case hubCreate msaMeta m (hubMSAs e) of (r, xs) \<Rightarrow> (r, e\<lparr>hubMSAs := xs\<rparr>)),
     srvPatchMSA = (\<lambda>b m e. case hubPatch msaMeta m (hubMSAs e) of (r, xs) \<Rightarrow> (r, e\<lparr>hubMSAs := xs\<rparr>)),
     srvDeleteMSA = (\<lambda>m e. case hubDelete msaMeta m (hubMSAs e) of (r, xs) \<Rightarrow> (r, e\<lparr>hubMSAs := xs\<rparr>)),
     srvListMSAs = (\<lambda>sel e. (Inr (filter (\<lambda>m. selector_Matches L sel (omLabels (msaMeta m))) (hubMSAs e)), e)),
     srvGetWork = (\<lambda>k e. (hubGet workMeta (hubWorks e) k, e)),
     srvCreateWork = (\<lambda>m e. case hubCreate workMeta (storedWork L m) (hubWorks e) of (r, xs) \<Rightarrow> (r, e\<lparr>hubWorks := xs\<rparr>)),
     srvPatchWork = (\<lambda>b m e. case hubPatch workMeta (storedWork L m) (hubWorks e) of (r, xs) \<Rightarrow> (r, e\<lparr>hubWorks := xs\<rparr>)),
     srvDeleteWork = (\<lambda>m e. case hubDelete workMeta m (hubWorks e) of (r, xs) \<Rightarrow> (r, e\<lparr>hubWorks := xs\<rparr>)),
     srvListWorks = (\<lambda>sel e. (Inr (filter (\<lambda>m. selector_Matches L sel (omLabels (workMeta m))) (hubWorks e)), e))\<rparr>"

text \<open>
  A reconciler over the hub: no recorder, no resolver; the tracker asks for the decisions of the
  placement and puts every decided cluster in one group.
\<close>

definition hubReconciler :: "lib \<Rightarrow> hub reconciler" where
  "hubReconciler L = \<lparr>rLib = L, rServer = hubServer L, rRecorder = None, rResolver = None, rJanitor = None,
     rTrackerQuery = (\<lambda>pl. (SelectorFromValidatedSet (fmap_of_list [(c_PlacementLabel L, omName (plMeta pl))]),
        omNamespace (plMeta pl))),
     rTrackerGroups = (\<lambda>pl r. case r of Inl e \<Rightarrow> Inl e
        | Inr ds \<Rightarrow> Inr [((''all'', 0), fset_of_list (concat (map pdDecisions ds)))])\<rparr>"

lemma hubReconciler_simps [simp]:
  "rLib (hubReconciler L) = L" "rServer (hubReconciler L) = hubServer L"
  by (simp_all add: hubReconciler_def)

section \<open>Example data\<close>

definition emptyHub :: hub where
  "emptyHub = \<lparr>hubSets = [], hubPlacements = [], hubDecisions = [], hubNamespaces = [], hubMSAs = [], hubWorks = []\<rparr>"

definition sampleWorld :: "hub \<Rightarrow> hub world" where
  "sampleWorld h = \<lparr>env = h, trace = []\<rparr>"

text \<open>A hub with the example set, its placement over two clusters, and the cluster namespaces.\<close>

definition placedHub :: hub where
  "placedHub = emptyHub\<lparr>hubSets := [sampleSet],
     hubPlacements := [\<lparr>plMeta = objectMeta_zero\<lparr>omName := ''all'', omNamespace := ''fleet''\<rparr>,
       plDecisionGroups = 1, plNumberOfSelectedClusters = 2\<rparr>],
     hubDecisions := [\<lparr>pdMeta = objectMeta_zero\<lparr>omName := ''all-1'', omNamespace := ''fleet'',
         omLabels := fmap_of_list [(''cluster.open-cluster-management.io/placement'', ''all'')]\<rparr>,
       pdDecisions = [''c2'', ''c1'']\<rparr>],
     hubNamespaces := [''c1'', ''c2'']\<rparr>"

end
