(* ===== verification/Rbac.thy ===== *)
theory Rbac
  imports Validation Reference_Hub
begin

text \<open>
  \<^verbatim>\<open>internal/controller/rbac.go\<close>: how a set's grants become RBAC objects on a managed cluster,
  sliced into one ManifestWork for cluster-scoped objects and one per target namespace, and how
  the state of a ManifestWork is summarised. \<open>slicesSpec\<close> is the reference definition of the
  slices, given how each grant's namespaces resolved; the program is shown to compute it. What roles
  and bindings permit together is \<open>privileges\<close>, read as Kubernetes reads them, and compared with what the grants ask for.
\<close>

section \<open>Names and metadata\<close>

definition rbacClusterSliceType :: string where
  "rbacClusterSliceType = ''workload-rbac-cluster''"

definition rbacNamespaceSliceType :: string where
  "rbacNamespaceSliceType = ''workload-rbac-namespace''"

record rbacSlice =
  slName :: string
  slSliceType :: string
  slTargetNamespace :: string
  slManifests :: "manifest list"
  slManifestsHash :: string

definition rbacEnabled :: "replicaSet \<Rightarrow> bool" where
  "rbacEnabled rs = (case spRBAC (setSpec rs) of None \<Rightarrow> False | Some rbac \<Rightarrow> length (rbGrants rbac) > 0)"

definition rbacClusterManifestWorkName :: "replicaSet \<Rightarrow> string" where
  "rbacClusterManifestWorkName rs = stableChildName [setName rs, ''rbac'', ''cluster'']"

definition rbacNamespaceManifestWorkName :: "replicaSet \<Rightarrow> string \<Rightarrow> string" where
  "rbacNamespaceManifestWorkName rs namespace =
     stableChildName [setName rs, ''rbac'', ''ns'', stableHash namespace]"

definition rbacObjectLabels :: "lib \<Rightarrow> replicaSet \<Rightarrow> rbacGrant \<Rightarrow> string \<Rightarrow> kv" where
  "rbacObjectLabels L rs grant namespace =
     (let lbls = fmupd labelGrantID (gID grant)
                   (labels_Merge L (sanitizedMetadata (gmLabels (gMetadata grant))) (sourceLabels rs))
      in if namespace \<noteq> []
         then fmupd labelTargetNamespaceHash (stableHash namespace) (fmupd labelTargetNamespace namespace lbls)
         else lbls)"

definition rbacObjectAnnotations :: "lib \<Rightarrow> replicaSet \<Rightarrow> rbacGrant \<Rightarrow> string \<Rightarrow> kv" where
  "rbacObjectAnnotations L rs grant namespace =
     (let annotations = labels_Merge L (sanitizedMetadata (gmAnnotations (gMetadata grant))) (sourceAnnotations rs)
      in if namespace \<noteq> [] then fmupd annotationTargetNamespace namespace annotations else annotations)"

section \<open>Rendering\<close>

definition rawManifest :: "rbacObject \<Rightarrow> manifest" where
  "rawManifest obj = \<lparr>mfRaw = [], mfObject = Some obj\<rparr>"

definition rbacType :: "lib \<Rightarrow> string \<Rightarrow> typeMeta" where
  "rbacType L kind = \<lparr>tyAPIVersion = c_rbacGroupVersion L, tyKind = kind\<rparr>"

definition renderNamespacedGrant :: "lib \<Rightarrow> replicaSet \<Rightarrow> rbacGrant \<Rightarrow> string \<Rightarrow> subject \<Rightarrow> manifest list" where
  "renderNamespacedGrant L rs grant namespace subj =
     (let roleName = gmName (gMetadata grant);
          md = objectMeta_zero\<lparr>omName := roleName, omNamespace := namespace,
                 omLabels := rbacObjectLabels L rs grant namespace,
                 omAnnotations := rbacObjectAnnotations L rs grant namespace\<rparr>
      in [rawManifest (Role (rbacType L ''Role'') md (gRules grant)),
          rawManifest (RoleBinding (rbacType L ''RoleBinding'') md [subj]
            \<lparr>rrAPIGroup = c_rbacGroupName L, rrKind = ''Role'', rrName = roleName\<rparr>)])"

definition renderClusterGrant :: "lib \<Rightarrow> replicaSet \<Rightarrow> rbacGrant \<Rightarrow> subject \<Rightarrow> manifest list" where
  "renderClusterGrant L rs grant subj =
     (let roleName = gmName (gMetadata grant);
          md = objectMeta_zero\<lparr>omName := roleName,
                 omLabels := rbacObjectLabels L rs grant [],
                 omAnnotations := rbacObjectAnnotations L rs grant []\<rparr>
      in [rawManifest (ClusterRole (rbacType L ''ClusterRole'') md (gRules grant)),
          rawManifest (ClusterRoleBinding (rbacType L ''ClusterRoleBinding'') md [subj]
            \<lparr>rrAPIGroup = c_rbacGroupName L, rrKind = ''ClusterRole'', rrName = roleName\<rparr>)])"

text \<open>
  \<^verbatim>\<open>json.Encoder.Encode\<close> writes the encoding and a newline, \<^verbatim>\<open>null\<close> for a nil object and
  nothing when encoding fails (the error is dropped).
\<close>

definition encodeManifest :: "lib \<Rightarrow> manifest \<Rightarrow> string" where
  "encodeManifest L m = (case mfObject m of None \<Rightarrow> ''null'' @ [CHR 0x0A]
     | Some ob \<Rightarrow> (case json_Marshal L ob of None \<Rightarrow> [] | Some b \<Rightarrow> b @ [CHR 0x0A]))"

definition manifestsHash :: "lib \<Rightarrow> manifest list \<Rightarrow> string" where
  "manifestsHash L manifests =
     (if manifests = [] then []
      else take 16 (hex_EncodeToString (sha256_Sum256 (concat (map (encodeManifest L) manifests)))))"

definition buildManifestWork :: "lib \<Rightarrow> replicaSet \<Rightarrow> string \<Rightarrow> string \<Rightarrow> rbacSlice \<Rightarrow> manifestWork" where
  "buildManifestWork L rs clusterName placementRefName sl =
     (let annotations = fmupd annotationSpecHash (slManifestsHash sl) (sourceAnnotations rs);
          lbls = fmupd labelSliceType (slSliceType sl) (childLabels L rs placementRefName fmempty);
          ns = slTargetNamespace sl;
          lbls' = (if ns \<noteq> [] then fmupd labelTargetNamespaceHash (stableHash ns) (fmupd labelTargetNamespace ns lbls) else lbls);
          annotations' = (if ns \<noteq> [] then fmupd annotationTargetNamespace ns annotations else annotations)
      in \<lparr>workType = \<lparr>tyAPIVersion = c_workGroupVersion L, tyKind = ''ManifestWork''\<rparr>,
          workMeta = objectMeta_zero\<lparr>omName := slName sl, omNamespace := clusterName,
             omLabels := lbls', omAnnotations := annotations'\<rparr>,
          workSpec = \<lparr>mwDeletePropagation = Some (c_deleteForeground L),
             mwManifests = slManifests sl, mwOther = []\<rparr>,
          workConditions = []\<rparr>)"

section \<open>Slices\<close>

definition resolveGrantNamespaces ::
  "'e reconciler \<Rightarrow> replicaSet \<Rightarrow> string \<Rightarrow> rbacGrant \<Rightarrow> ('e, go_error + string list) prog" where
  "resolveGrantNamespaces R rs clusterName grant =
     (case gForEachNamespace grant of
        None \<Rightarrow> return (Inl (ErrText (''role grant '' @ fmt_q (gID grant) @ '' requires forEachNamespace'')))
      | Some it \<Rightarrow>
         if niName it \<noteq> [] then return (Inr [niName it])
         else if length (niNames it) > 0 then return (Inr (sorted_list_of_fset (fset_of_list (niNames it))))
         else case niSelector it of
           Some ls \<Rightarrow> (case labelSelectorError (rLib R) ls of
             Some err \<Rightarrow> return (Inl (ErrWrapped (''invalid namespace selector for grant '' @ fmt_q (gID grant) @ '': '') err []))
           | None \<Rightarrow> (case rResolver R of
               None \<Rightarrow> return (Inl (ErrText (''selector-targeted RBAC grant '' @ fmt_q (gID grant) @
                        '' is waiting for controller namespace access'')))
             | Some resolver \<Rightarrow> do {
                 r \<leftarrow> call (resolver rs clusterName grant (SelectorFromLabelSelector ls))
                        (ResolveNamespaces clusterName (gID grant) (SelectorFromLabelSelector ls));
                 case r of
                   Inl err \<Rightarrow> return (Inl err)
                 | Inr namespaces \<Rightarrow> return (Inr (sorted_list_of_fset (fset_of_list namespaces)))
               }))
         | None \<Rightarrow> return (Inl (ErrText (''role grant '' @ fmt_q (gID grant) @
                    '' requires exactly one namespace iterator mode''))))"

definition grantSubject :: "replicaSet \<Rightarrow> subject" where
  "grantSubject rs = \<lparr>sjKind = ''ServiceAccount'', sjName = tmName (setTemplateMetadata rs),
     sjNamespace = tmNamespace (setTemplateMetadata rs)\<rparr>"

type_synonym nsManifests = "(string, manifest list) fmap"

definition ns_get :: "nsManifests \<Rightarrow> string \<Rightarrow> manifest list" where
  "ns_get m ns = (case fmlookup m ns of None \<Rightarrow> [] | Some ms \<Rightarrow> ms)"

text \<open>The loop over the resolved namespaces of one grant.\<close>

fun appendNamespaced :: "lib \<Rightarrow> replicaSet \<Rightarrow> rbacGrant \<Rightarrow> subject \<Rightarrow> string list \<Rightarrow> nsManifests \<Rightarrow> nsManifests" where
  "appendNamespaced L rs grant subj [] m = m"
| "appendNamespaced L rs grant subj (ns # nss) m =
     appendNamespaced L rs grant subj nss (fmupd ns (ns_get m ns @ renderNamespacedGrant L rs grant ns subj) m)"

record sliceAcc =
  saCluster :: "manifest list"
  saNamespaces :: nsManifests
  saJoined :: "go_error option"

text \<open>The loop over the grants; the left result is the early return for an unsupported type.\<close>

fun grantsLoop :: "'e reconciler \<Rightarrow> replicaSet \<Rightarrow> string \<Rightarrow> rbacGrant list \<Rightarrow> sliceAcc \<Rightarrow> ('e, go_error + sliceAcc) prog" where
  "grantsLoop R rs clusterName [] acc = return (Inr acc)"
| "grantsLoop R rs clusterName (grant # grants) acc =
     (if gType grant = RBACGrantTypeClusterRole then
        grantsLoop R rs clusterName grants
          (acc\<lparr>saCluster := saCluster acc @ renderClusterGrant (rLib R) rs grant (grantSubject rs)\<rparr>)
      else if gType grant = RBACGrantTypeRole then do {
        r \<leftarrow> resolveGrantNamespaces R rs clusterName grant;
        case r of
          Inl err \<Rightarrow> grantsLoop R rs clusterName grants (acc\<lparr>saJoined := errors_Join [saJoined acc, Some err]\<rparr>)
        | Inr namespaces \<Rightarrow> grantsLoop R rs clusterName grants
            (acc\<lparr>saNamespaces := appendNamespaced (rLib R) rs grant (grantSubject rs) namespaces (saNamespaces acc)\<rparr>)
      }
      else return (Inl (ErrText (''unsupported RBAC grant type '' @ fmt_q (gType grant) @
             '' for grant '' @ fmt_q (gID grant)))))"

definition clusterSlice :: "lib \<Rightarrow> replicaSet \<Rightarrow> manifest list \<Rightarrow> rbacSlice" where
  "clusterSlice L rs ms = \<lparr>slName = rbacClusterManifestWorkName rs, slSliceType = rbacClusterSliceType,
     slTargetNamespace = [], slManifests = ms, slManifestsHash = manifestsHash L ms\<rparr>"

definition namespaceSlice :: "lib \<Rightarrow> replicaSet \<Rightarrow> string \<Rightarrow> manifest list \<Rightarrow> rbacSlice" where
  "namespaceSlice L rs ns ms = \<lparr>slName = rbacNamespaceManifestWorkName rs ns, slSliceType = rbacNamespaceSliceType,
     slTargetNamespace = ns, slManifests = ms, slManifestsHash = manifestsHash L ms\<rparr>"

definition assembleSlices :: "lib \<Rightarrow> replicaSet \<Rightarrow> sliceAcc \<Rightarrow> rbacSlice list" where
  "assembleSlices L rs acc =
     (if saCluster acc \<noteq> [] then [clusterSlice L rs (saCluster acc)] else []) @
     map (\<lambda>ns. namespaceSlice L rs ns (ns_get (saNamespaces acc) ns))
       (sorted_list_of_fset (fmdom (saNamespaces acc)))"

text \<open>The slices together with the joined error: callers use both.\<close>

definition desiredRBACSlices ::
  "'e reconciler \<Rightarrow> replicaSet \<Rightarrow> string \<Rightarrow> ('e, rbacSlice list \<times> go_error option) prog" where
  "desiredRBACSlices R rs clusterName =
     (case spRBAC (setSpec rs) of
        None \<Rightarrow> return ([], None)
      | Some rbac \<Rightarrow> do {
          r \<leftarrow> grantsLoop R rs clusterName (rbGrants rbac)
                 \<lparr>saCluster = [], saNamespaces = fmempty, saJoined = None\<rparr>;
          case r of
            Inl err \<Rightarrow> return ([], Some err)
          | Inr acc \<Rightarrow> return (assembleSlices (rLib R) rs acc, saJoined acc)
        })"

section \<open>ManifestWork state\<close>

definition summary_zero :: summary where
  "summary_zero = \<lparr>suDesiredTotal = 0, suTotal = 0, suApplied = 0, suAvailable = 0,
     suDegraded = 0, suProgressing = 0, suUpdated = 0\<rparr>"

definition manifestWorkConditionTrue :: "lib \<Rightarrow> manifestWork \<Rightarrow> string \<Rightarrow> bool" where
  "manifestWorkConditionTrue L work conditionType =
     (case meta_FindStatusCondition L (workConditions work) conditionType of
        None \<Rightarrow> False
      | Some c \<Rightarrow> cStatus c = ConditionTrue \<and> cObservedGeneration c = omGeneration (workMeta work))"

definition manifestWorkAvailable :: "lib \<Rightarrow> manifestWork \<Rightarrow> bool" where
  "manifestWorkAvailable L work = manifestWorkConditionTrue L work (c_WorkAvailable L)"

definition summarizeManifestWork :: "lib \<Rightarrow> manifestWork \<Rightarrow> string \<Rightarrow> summary" where
  "summarizeManifestWork L work expectedHash =
     (let flag = (\<lambda>b. if b then 1 else 0) in
      \<lparr>suDesiredTotal = 0, suTotal = 1,
       suApplied = flag (manifestWorkConditionTrue L work (c_WorkApplied L)),
       suAvailable = flag (manifestWorkConditionTrue L work (c_WorkAvailable L)),
       suDegraded = flag (manifestWorkConditionTrue L work (c_WorkDegraded L)),
       suProgressing = flag (manifestWorkConditionTrue L work (c_WorkProgressing L)),
       suUpdated = flag (kv_get (omAnnotations (workMeta work)) annotationSpecHash = expectedHash)\<rparr>)"

definition addSummary :: "summary \<Rightarrow> summary \<Rightarrow> summary" where
  "addSummary dst src = \<lparr>
     suDesiredTotal = add32 (suDesiredTotal dst) (suDesiredTotal src),
     suTotal = add32 (suTotal dst) (suTotal src),
     suApplied = add32 (suApplied dst) (suApplied src),
     suAvailable = add32 (suAvailable dst) (suAvailable src),
     suDegraded = add32 (suDegraded dst) (suDegraded src),
     suProgressing = add32 (suProgressing dst) (suProgressing src),
     suUpdated = add32 (suUpdated dst) (suUpdated src)\<rparr>"

section \<open>The reference definition of the slices\<close>

text \<open>
  Given how the namespaces of each grant resolved, in grant order: the objects of a namespace
  are those of the Role grants whose resolution holds it, in grant order; the namespaces are
  those of any resolution, sorted.
\<close>

type_synonym resolution = "(rbacGrant \<times> (go_error + string list)) list"

fun grantObjectsAt :: "lib \<Rightarrow> replicaSet \<Rightarrow> string \<Rightarrow> rbacGrant \<times> (go_error + string list) \<Rightarrow> manifest list" where
  "grantObjectsAt L rs ns (g, Inl e) = []"
| "grantObjectsAt L rs ns (g, Inr nss) =
     (if gType g = RBACGrantTypeRole \<and> ns \<in> set nss then renderNamespacedGrant L rs g ns (grantSubject rs) else [])"

fun grantNamespaces :: "rbacGrant \<times> (go_error + string list) \<Rightarrow> string list" where
  "grantNamespaces (g, Inl e) = []"
| "grantNamespaces (g, Inr nss) = (if gType g = RBACGrantTypeRole then nss else [])"

definition clusterObjects :: "lib \<Rightarrow> replicaSet \<Rightarrow> rbacGrant list \<Rightarrow> manifest list" where
  "clusterObjects L rs gs = concat (map (\<lambda>g. renderClusterGrant L rs g (grantSubject rs))
     (filter (\<lambda>g. gType g = RBACGrantTypeClusterRole) gs))"

definition slicesSpec :: "lib \<Rightarrow> replicaSet \<Rightarrow> resolution \<Rightarrow> rbacSlice list" where
  "slicesSpec L rs res =
     (let cluster = clusterObjects L rs (map fst res) in
      (if cluster \<noteq> [] then [clusterSlice L rs cluster] else []) @
      map (\<lambda>ns. namespaceSlice L rs ns (concat (map (grantObjectsAt L rs ns) res)))
        (sort (remdups (concat (map grantNamespaces res)))))"

text \<open>
  How one grant resolves on a cluster, given the resolver's answers in the trace and whether there is
  a resolver (\<open>known\<close>). A ClusterRole grant needs no namespaces. A Role grant with fixed namespaces
  resolves to these, one with a selector to the sorted answer of the resolver, or to its error; it
  fails for no other reason than a missing or incomplete iterator, a selector that is invalid, or no resolver.
  Grants of other types do not resolve.
\<close>

definition grantResolves :: "lib \<Rightarrow> bool \<Rightarrow> api_event list \<Rightarrow> string \<Rightarrow> rbacGrant \<Rightarrow> go_error + string list \<Rightarrow> bool" where
  "grantResolves L known es clusterName g r \<longleftrightarrow>
     (if gType g = RBACGrantTypeRole then
        (case gForEachNamespace g of None \<Rightarrow> isl r
         | Some it \<Rightarrow>
             if niName it \<noteq> [] then r = Inr [niName it]
             else if niNames it \<noteq> [] then r = Inr (sorted_list_of_fset (fset_of_list (niNames it)))
             else case niSelector it of None \<Rightarrow> isl r
               | Some ls \<Rightarrow> if labelSelectorError L ls \<noteq> None \<or> \<not> known then isl r
                   else \<exists>answer. ResolveNamespaces clusterName (gID g) (SelectorFromLabelSelector ls) answer \<in> set es \<and>
                     r = map_sum id (\<lambda>nss. sort (remdups nss)) answer)
      else gType g = RBACGrantTypeClusterRole \<and> r = Inr [])"

definition unsupportedGrant :: "rbacGrant \<Rightarrow> bool" where
  "unsupportedGrant g \<longleftrightarrow> gType g \<noteq> RBACGrantTypeRole \<and> gType g \<noteq> RBACGrantTypeClusterRole"

text \<open>The errors of the grants that failed, in grant order, and how the loop joins them.\<close>

definition resolutionErrors :: "resolution \<Rightarrow> go_error list" where
  "resolutionErrors res = concat (map (\<lambda>(g, r). case r of Inl e \<Rightarrow> [e] | Inr nss \<Rightarrow> []) res)"

definition joinAll :: "go_error option \<Rightarrow> go_error list \<Rightarrow> go_error option" where
  "joinAll joined errs = foldl (\<lambda>j e. errors_Join [j, Some e]) joined errs"

lemma joinAll_None: "joinAll joined errs = None \<longleftrightarrow> joined = None \<and> errs = []"
  unfolding joinAll_def by (induction errs arbitrary: joined) auto

lemma resolutionErrors_Nil: "resolutionErrors res = [] \<longleftrightarrow> (\<forall>(g, r) \<in> set res. \<not> isl r)"
  unfolding resolutionErrors_def by (force split: sum.splits)

section \<open>The program computes the reference slices\<close>

lemma grantResolves_mono: "grantResolves L k es c g r \<Longrightarrow> set es \<subseteq> set es' \<Longrightarrow> grantResolves L k es' c g r"
  unfolding grantResolves_def by (auto split: option.splits if_splits)

lemma Inr_eq_map_sum: "Inr y = map_sum f h a \<longleftrightarrow> (\<exists>x. a = Inr x \<and> y = h x)"
  by (cases a) auto

lemma grantResolves_distinct: "grantResolves L k es c g (Inr nss) \<Longrightarrow> distinct nss \<and> sorted nss"
  unfolding grantResolves_def Inr_eq_map_sum by (auto split: option.splits if_splits)

lemma grantResolves_known: "grantResolves L k es c g (Inr nss) \<Longrightarrow> grantResolves L True es c g (Inr nss)"
  unfolding grantResolves_def by (auto split: option.splits if_splits)

lemma resolveGrantNamespaces_emits:
  assumes "gType g = RBACGrantTypeRole"
  shows "emits (resolveGrantNamespaces R rs c g) (\<lambda>r es. grantResolves (rLib R) (rResolver R \<noteq> None) es c g r)"
  unfolding resolveGrantNamespaces_def grantResolves_def
  using assms
  by (auto intro!: emits_return emits_bind_call split: option.splits sum.splits)

lemma appendNamespaced_get:
  "distinct nss \<Longrightarrow> ns_get (appendNamespaced L rs g subj nss m) ns =
     ns_get m ns @ (if ns \<in> set nss then renderNamespacedGrant L rs g ns subj else [])"
  by (induction nss arbitrary: m) (auto simp: ns_get_def)

lemma fmdom_appendNamespaced:
  "fmdom (appendNamespaced L rs g subj nss m) = fmdom m |\<union>| fset_of_list nss"
  by (induction nss arbitrary: m) auto

definition sliceAccRefines :: "lib \<Rightarrow> replicaSet \<Rightarrow> resolution \<Rightarrow> sliceAcc \<Rightarrow> sliceAcc \<Rightarrow> bool" where
  "sliceAccRefines L rs res acc acc' \<longleftrightarrow>
     saCluster acc' = saCluster acc @ clusterObjects L rs (map fst res) \<and>
     (\<forall>ns. ns_get (saNamespaces acc') ns =
        ns_get (saNamespaces acc) ns @ concat (map (grantObjectsAt L rs ns) res)) \<and>
     fmdom (saNamespaces acc') = fmdom (saNamespaces acc) |\<union>| fset_of_list (concat (map grantNamespaces res)) \<and>
     saJoined acc' = joinAll (saJoined acc) (resolutionErrors res)"

lemma sliceAccRefines_Cons:
  "sliceAccRefines L rs [gr] acc acc1 \<Longrightarrow> sliceAccRefines L rs res acc1 acc2 \<Longrightarrow>
   sliceAccRefines L rs (gr # res) acc acc2"
  unfolding sliceAccRefines_def clusterObjects_def by (auto simp: joinAll_def resolutionErrors_def)

lemma sliceAccRefines_cluster:
  "gType g = RBACGrantTypeClusterRole \<Longrightarrow>
   sliceAccRefines L rs [(g, Inr [])] acc
     (acc\<lparr>saCluster := saCluster acc @ renderClusterGrant L rs g (grantSubject rs)\<rparr>)"
  by (simp add: sliceAccRefines_def joinAll_def resolutionErrors_def clusterObjects_def)

lemma sliceAccRefines_namespaces:
  "gType g = RBACGrantTypeRole \<Longrightarrow> distinct nss \<Longrightarrow>
   sliceAccRefines L rs [(g, Inr nss)] acc
     (acc\<lparr>saNamespaces := appendNamespaced L rs g (grantSubject rs) nss (saNamespaces acc)\<rparr>)"
  by (simp add: sliceAccRefines_def joinAll_def resolutionErrors_def clusterObjects_def appendNamespaced_get fmdom_appendNamespaced)

lemma sliceAccRefines_error:
  "gType g = RBACGrantTypeRole \<Longrightarrow>
   sliceAccRefines L rs [(g, Inl e)] acc (acc\<lparr>saJoined := errors_Join [saJoined acc, Some e]\<rparr>)"
  by (simp add: sliceAccRefines_def joinAll_def resolutionErrors_def clusterObjects_def)

text \<open>The result of the loop: the first unsupported grant, or a refinement of the reference definition.\<close>

definition firstUnsupported :: "rbacGrant list \<Rightarrow> go_error \<Rightarrow> bool" where
  "firstUnsupported gs e \<longleftrightarrow> (\<exists>g. find unsupportedGrant gs = Some g \<and>
     e = ErrText (''unsupported RBAC grant type '' @ fmt_q (gType g) @ '' for grant '' @ fmt_q (gID g)))"

fun grantsLoopPost ::
  "lib \<Rightarrow> bool \<Rightarrow> replicaSet \<Rightarrow> string \<Rightarrow> rbacGrant list \<Rightarrow> sliceAcc \<Rightarrow> go_error + sliceAcc \<Rightarrow> api_event list \<Rightarrow> bool" where
  "grantsLoopPost L k rs c gs acc (Inl e) es = firstUnsupported gs e"
| "grantsLoopPost L k rs c gs acc (Inr acc') es =
     (\<exists>res. map fst res = gs \<and> (\<forall>(g, r) \<in> set res. grantResolves L k es c g r) \<and>
        sliceAccRefines L rs res acc acc')"

lemma grantsLoopPost_Cons:
  assumes "grantsLoopPost L k rs c gs acc1 q es'" "grantResolves L k es c g r" "sliceAccRefines L rs [(g, r)] acc acc1"
  shows "grantsLoopPost L k rs c (g # gs) acc q (es @ es')"
proof (cases q)
  case (Inl e)
  have "\<not> unsupportedGrant g" using assms(2) by (auto simp: grantResolves_def unsupportedGrant_def split: if_splits)
  with assms(1) Inl show ?thesis by (simp add: firstUnsupported_def)
next
  case (Inr acc')
  with assms(1) obtain res where res: "map fst res = gs" "\<forall>(g, r) \<in> set res. grantResolves L k es' c g r"
    "sliceAccRefines L rs res acc1 acc'" by auto
  have "\<forall>(g, r) \<in> set ((g, r) # res). grantResolves L k (es @ es') c g r"
    using res(2) assms(2) by (auto intro: grantResolves_mono)
  with res(1,3) Inr show ?thesis
    using sliceAccRefines_Cons [OF assms(3) res(3)] by (auto intro!: exI [of _ "(g, r) # res"])
qed

lemma grantsLoop_emits:
  "emits (grantsLoop R rs c gs acc) (\<lambda>q es. grantsLoopPost (rLib R) (rResolver R \<noteq> None) rs c gs acc q es)"
proof (induction gs arbitrary: acc)
  case Nil
  show ?case by (auto intro!: emits_return exI [of _ "[]"] simp: sliceAccRefines_def clusterObjects_def joinAll_def resolutionErrors_def)
next
  case (Cons g gs)
  let ?k = "rResolver R \<noteq> None"
  have step: "emits (grantsLoop R rs c gs acc1) (\<lambda>q es'. grantsLoopPost (rLib R) ?k rs c (g # gs) acc q (es @ es'))"
    if "grantResolves (rLib R) ?k es c g r" "sliceAccRefines (rLib R) rs [(g, r)] acc acc1" for es r acc1
    using Cons.IH by (rule emits_weaken) (rule grantsLoopPost_Cons [OF _ that])
  consider "gType g = RBACGrantTypeClusterRole" | "gType g = RBACGrantTypeRole" | "unsupportedGrant g"
    by (auto simp: unsupportedGrant_def)
  then show ?case
  proof cases
    case 1
    then have "grantResolves (rLib R) ?k [] c g (Inr [])" by (simp add: grantResolves_def)
    from step [OF this sliceAccRefines_cluster [OF 1]] 1 show ?thesis by simp
  next
    case 2
    show ?thesis
      using 2 step sliceAccRefines_error [OF 2] sliceAccRefines_namespaces [OF 2] grantResolves_distinct
      by (auto intro!: emits_bind [OF resolveGrantNamespaces_emits [OF 2]] split: sum.splits)
  next
    case 3
    then have "firstUnsupported (g # gs) (ErrText (''unsupported RBAC grant type '' @ fmt_q (gType g) @ '' for grant '' @ fmt_q (gID g)))"
      by (simp add: firstUnsupported_def)
    with 3 show ?thesis by (auto intro!: emits_return simp: unsupportedGrant_def)
  qed
qed

lemma assembleSlices_refines:
  assumes "sliceAccRefines L rs res \<lparr>saCluster = [], saNamespaces = fmempty, saJoined = None\<rparr> acc"
  shows "assembleSlices L rs acc = slicesSpec L rs res"
  using assms by (simp add: sliceAccRefines_def assembleSlices_def slicesSpec_def Let_def ns_get_def)

fun slicesPost :: "lib \<Rightarrow> bool \<Rightarrow> replicaSet \<Rightarrow> string \<Rightarrow> rbacSlice list \<times> go_error option \<Rightarrow> api_event list \<Rightarrow> bool" where
  "slicesPost L k rs c (slices, err) es =
     ((\<exists>e. firstUnsupported (setGrants rs) e \<and> slices = [] \<and> err = Some e) \<or>
      (\<exists>res. map fst res = setGrants rs \<and> (\<forall>(g, r) \<in> set res. grantResolves L k es c g r) \<and>
        slices = slicesSpec L rs res \<and> err = joinAll None (resolutionErrors res)))"

text \<open>Without an error every grant resolved, and whether there is a resolver follows from the trace.\<close>

lemma slicesPost_known:
  assumes "slicesPost L k rs c (slices, None) es"
  shows "slicesPost L True rs c (slices, None) es"
proof -
  obtain res where res: "map fst res = setGrants rs" "\<forall>(g, r) \<in> set res. grantResolves L k es c g r"
    "slices = slicesSpec L rs res" "joinAll None (resolutionErrors res) = None" using assms by auto
  then have ok: "\<forall>(g, r) \<in> set res. \<not> isl r" by (simp add: joinAll_None resolutionErrors_Nil)
  have "grantResolves L True es c g r" if "(g, r) \<in> set res" for g r
    using that ok res(2) by (cases r) (auto dest: grantResolves_known)
  with res show ?thesis by fastforce
qed

lemma desiredRBACSlices_emits:
  "emits (desiredRBACSlices R rs c) (\<lambda>q es. slicesPost (rLib R) (rResolver R \<noteq> None) rs c q es)"
proof (cases "spRBAC (setSpec rs)")
  case None
  then show ?thesis
    by (auto intro!: emits_return exI [of _ "[]"]
        simp: desiredRBACSlices_def setGrants_def slicesSpec_def clusterObjects_def joinAll_def resolutionErrors_def)
next
  case (Some rbac)
  let ?acc = "\<lparr>saCluster = [], saNamespaces = fmempty, saJoined = None\<rparr>" and ?k = "rResolver R \<noteq> None"
  have "emits (case r of Inl err \<Rightarrow> return ([], Some err)
      | Inr acc \<Rightarrow> return (assembleSlices (rLib R) rs acc, saJoined acc))
      (\<lambda>q es'. slicesPost (rLib R) ?k rs c q (es @ es'))"
    if "grantsLoopPost (rLib R) ?k rs c (rbGrants rbac) ?acc r es" for r es
  proof (cases r)
    case (Inl e)
    with that Some show ?thesis by (auto intro!: emits_return simp: setGrants_def)
  next
    case (Inr acc)
    with that obtain res where res: "map fst res = rbGrants rbac"
      "\<forall>(g, r) \<in> set res. grantResolves (rLib R) ?k es c g r" "sliceAccRefines (rLib R) rs res ?acc acc" by auto
    then have "saJoined acc = joinAll None (resolutionErrors res)" by (simp add: sliceAccRefines_def)
    with res Some have "slicesPost (rLib R) ?k rs c (assembleSlices (rLib R) rs acc, saJoined acc) es"
      unfolding slicesPost.simps
      by (intro disjI2 exI [of _ res]) (simp add: setGrants_def assembleSlices_refines)
    with Inr show ?thesis by (simp add: emits_return)
  qed
  then show ?thesis
    unfolding desiredRBACSlices_def Some option.case by (rule emits_bind [OF grantsLoop_emits])
qed

section \<open>What the slices contain\<close>

fun objectSubjects :: "rbacObject \<Rightarrow> subject list" where
  "objectSubjects (ClusterRoleBinding t m subjects ref) = subjects"
| "objectSubjects (RoleBinding t m subjects ref) = subjects"
| "objectSubjects _ = []"

fun objectRules :: "rbacObject \<Rightarrow> policyRule list" where
  "objectRules (ClusterRole t m rules) = rules"
| "objectRules (Role t m rules) = rules"
| "objectRules _ = []"

fun rbacObjectMeta :: "rbacObject \<Rightarrow> objectMeta" where
  "rbacObjectMeta (ClusterRole t m rules) = m"
| "rbacObjectMeta (ClusterRoleBinding t m subjects ref) = m"
| "rbacObjectMeta (Role t m rules) = m"
| "rbacObjectMeta (RoleBinding t m subjects ref) = m"

fun objectRoleRefs :: "rbacObject \<Rightarrow> roleRef list" where
  "objectRoleRefs (ClusterRoleBinding t m subjects ref) = [ref]"
| "objectRoleRefs (RoleBinding t m subjects ref) = [ref]"
| "objectRoleRefs _ = []"

fun namespacedObject :: "rbacObject \<Rightarrow> bool" where
  "namespacedObject (Role t m rules) = True"
| "namespacedObject (RoleBinding t m subjects ref) = True"
| "namespacedObject _ = False"

text \<open>
  A rendered object belongs to one grant: it is namespaced exactly for a Role grant, binds nobody but the
  generated account, and that to the role of the grant and no other, carries no rules but the
  grant's, has the grant's name, and lives in the slice's namespace.
\<close>

definition grantObject :: "lib \<Rightarrow> replicaSet \<Rightarrow> string \<Rightarrow> rbacGrant \<Rightarrow> manifest \<Rightarrow> bool" where
  "grantObject L rs ns g m \<longleftrightarrow> (\<exists>ob. m = rawManifest ob \<and>
     gType g = (if namespacedObject ob then RBACGrantTypeRole else RBACGrantTypeClusterRole) \<and>
     set (objectSubjects ob) \<subseteq> {grantSubject rs} \<and> set (objectRules ob) \<subseteq> set (gRules g) \<and>
     set (objectRoleRefs ob) \<subseteq> {\<lparr>rrAPIGroup = c_rbacGroupName L,
       rrKind = (if namespacedObject ob then ''Role'' else ''ClusterRole''), rrName = gmName (gMetadata g)\<rparr>} \<and>
     omName (rbacObjectMeta ob) = gmName (gMetadata g) \<and> omNamespace (rbacObjectMeta ob) = ns)"

lemma rawManifest_inject [simp]: "rawManifest a = rawManifest b \<longleftrightarrow> a = b"
  by (simp add: rawManifest_def)

lemma grantObject_raw:
  "grantObject L rs ns g (rawManifest ob) \<longleftrightarrow>
     gType g = (if namespacedObject ob then RBACGrantTypeRole else RBACGrantTypeClusterRole) \<and>
     set (objectSubjects ob) \<subseteq> {grantSubject rs} \<and> set (objectRules ob) \<subseteq> set (gRules g) \<and>
     set (objectRoleRefs ob) \<subseteq> {\<lparr>rrAPIGroup = c_rbacGroupName L,
       rrKind = (if namespacedObject ob then ''Role'' else ''ClusterRole''), rrName = gmName (gMetadata g)\<rparr>} \<and>
     omName (rbacObjectMeta ob) = gmName (gMetadata g) \<and> omNamespace (rbacObjectMeta ob) = ns"
  unfolding grantObject_def rawManifest_inject by blast

lemma renderClusterGrant_object:
  "m \<in> set (renderClusterGrant L rs g (grantSubject rs)) \<Longrightarrow> gType g = RBACGrantTypeClusterRole \<Longrightarrow> grantObject L rs [] g m"
  by (auto simp: renderClusterGrant_def Let_def grantObject_raw objectMeta_zero_def)

lemma renderNamespacedGrant_object:
  "m \<in> set (renderNamespacedGrant L rs g ns (grantSubject rs)) \<Longrightarrow> gType g = RBACGrantTypeRole \<Longrightarrow> grantObject L rs ns g m"
  by (auto simp: renderNamespacedGrant_def Let_def grantObject_raw objectMeta_zero_def)

lemma grantObjectsAt_object:
  "m \<in> set (grantObjectsAt L rs ns (g, r)) \<Longrightarrow> grantObject L rs ns g m"
  by (cases r) (auto split: if_splits dest: renderNamespacedGrant_object)

lemma slicesSpec_object:
  assumes "sl \<in> set (slicesSpec L rs res)" "m \<in> set (slManifests sl)"
  shows "\<exists>g \<in> set (map fst res). grantObject L rs (slTargetNamespace sl) g m"
proof -
  consider (cluster) "sl = clusterSlice L rs (clusterObjects L rs (map fst res))"
    | (ns) ns where "sl = namespaceSlice L rs ns (concat (map (grantObjectsAt L rs ns) res))"
    using assms(1) by (auto simp: slicesSpec_def Let_def split: if_splits)
  then show ?thesis
  proof cases
    case cluster
    with assms(2) show ?thesis
      by (auto simp: clusterSlice_def clusterObjects_def dest: renderClusterGrant_object)
  next
    case ns
    with assms(2) obtain g r where "(g, r) \<in> set res" "m \<in> set (grantObjectsAt L rs ns (g, r))"
      by (auto simp: namespaceSlice_def)
    with ns show ?thesis by (force simp: namespaceSlice_def dest: grantObjectsAt_object)
  qed
qed

section \<open>What the objects permit\<close>

text \<open>
  A binding with its scope: a namespace, or none for cluster-wide. It gives its subjects the rules of
  the role it refers to: a ClusterRole, or a Role of the same namespace.
\<close>

fun bindingOf :: "rbacObject \<Rightarrow> (string option \<times> subject list \<times> roleRef) option" where
  "bindingOf (ClusterRoleBinding t m subjects ref) = Some (None, subjects, ref)"
| "bindingOf (RoleBinding t m subjects ref) = Some (Some (omNamespace m), subjects, ref)"
| "bindingOf _ = None"

fun refersTo :: "lib \<Rightarrow> string option \<Rightarrow> roleRef \<Rightarrow> rbacObject \<Rightarrow> bool" where
  "refersTo L scope ref (ClusterRole t m rules) \<longleftrightarrow>
     ref = \<lparr>rrAPIGroup = c_rbacGroupName L, rrKind = ''ClusterRole'', rrName = omName m\<rparr>"
| "refersTo L scope ref (Role t m rules) \<longleftrightarrow>
     ref = \<lparr>rrAPIGroup = c_rbacGroupName L, rrKind = ''Role'', rrName = omName m\<rparr> \<and> scope = Some (omNamespace m)"
| "refersTo L scope ref _ \<longleftrightarrow> False"

definition privileges :: "lib \<Rightarrow> rbacObject set \<Rightarrow> (subject \<times> string option \<times> policyRule) set" where
  "privileges L obs = {(subj, scope, rule). \<exists>b \<in> obs. \<exists>role \<in> obs. \<exists>subjects ref.
     bindingOf b = Some (scope, subjects, ref) \<and> subj \<in> set subjects \<and> refersTo L scope ref role \<and> rule \<in> set (objectRules role)}"

definition dangling :: "lib \<Rightarrow> rbacObject set \<Rightarrow> bool" where
  "dangling L obs \<longleftrightarrow> (\<exists>b \<in> obs. \<exists>scope subjects ref. bindingOf b = Some (scope, subjects, ref) \<and> (\<forall>role \<in> obs. \<not> refersTo L scope ref role))"

text \<open>The account the set generates, and what the grants ask for it.\<close>

definition generatedAccount :: "replicaSet \<Rightarrow> subject" where
  "generatedAccount rs = \<lparr>sjKind = ''ServiceAccount'', sjName = tmName (setTemplateMetadata rs), sjNamespace = tmNamespace (setTemplateMetadata rs)\<rparr>"

lemma grantSubject_generated: "grantSubject rs = generatedAccount rs"
  by (simp add: grantSubject_def generatedAccount_def)

definition grantedPrivileges :: "replicaSet \<Rightarrow> resolution \<Rightarrow> (subject \<times> string option \<times> policyRule) set" where
  "grantedPrivileges rs res =
     {(generatedAccount rs, None, rule) | rule. \<exists>g \<in> set (map fst res). gType g = RBACGrantTypeClusterRole \<and> rule \<in> set (gRules g)} \<union>
     {(generatedAccount rs, Some ns, rule) | ns rule. \<exists>gr \<in> set res. ns \<in> set (grantNamespaces gr) \<and> rule \<in> set (gRules (fst gr))}"

definition resolutionObjects :: "lib \<Rightarrow> replicaSet \<Rightarrow> resolution \<Rightarrow> rbacObject set" where
  "resolutionObjects L rs res =
     {ob. \<exists>g \<in> set (map fst res). gType g = RBACGrantTypeClusterRole \<and> rawManifest ob \<in> set (renderClusterGrant L rs g (grantSubject rs))} \<union>
     {ob. \<exists>gr \<in> set res. \<exists>ns \<in> set (grantNamespaces gr). rawManifest ob \<in> set (renderNamespacedGrant L rs (fst gr) ns (grantSubject rs))}"

lemma grantObjectsAt_eq:
  "grantObjectsAt L rs ns gr = (if ns \<in> set (grantNamespaces gr) then renderNamespacedGrant L rs (fst gr) ns (grantSubject rs) else [])"
  by (cases gr; cases "snd gr") auto

lemma slicesSpec_manifests:
  "(\<Union>sl \<in> set (slicesSpec L rs res). set (slManifests sl)) = set (clusterObjects L rs (map fst res)) \<union>
     (\<Union>ns \<in> set (concat (map grantNamespaces res)). set (concat (map (grantObjectsAt L rs ns) res)))"
  by (simp add: slicesSpec_def Let_def clusterSlice_def namespaceSlice_def)

lemma slicesSpec_objects: "{ob. \<exists>sl \<in> set (slicesSpec L rs res). rawManifest ob \<in> set (slManifests sl)} = resolutionObjects L rs res"
proof -
  have "{ob. \<exists>sl \<in> set (slicesSpec L rs res). rawManifest ob \<in> set (slManifests sl)} =
      {ob. rawManifest ob \<in> (\<Union>sl \<in> set (slicesSpec L rs res). set (slManifests sl))}" by simp
  also have "\<dots> = resolutionObjects L rs res"
    unfolding slicesSpec_manifests resolutionObjects_def by (auto simp: clusterObjects_def grantObjectsAt_eq split: if_splits)
  finally show ?thesis .
qed

text \<open>Two objects per grant and namespace: a role, and the binding that refers to it.\<close>

lemma resolutionObjects_cases:
  assumes "ob \<in> resolutionObjects L rs res"
  obtains (clusterRole) g t m where "g \<in> set (map fst res)" "gType g = RBACGrantTypeClusterRole" "ob = ClusterRole t m (gRules g)"
      "omName m = gmName (gMetadata g)"
  | (clusterBinding) g t m where "g \<in> set (map fst res)" "gType g = RBACGrantTypeClusterRole"
      "ob = ClusterRoleBinding t m [grantSubject rs] \<lparr>rrAPIGroup = c_rbacGroupName L, rrKind = ''ClusterRole'', rrName = gmName (gMetadata g)\<rparr>"
  | (role) gr ns t m where "gr \<in> set res" "ns \<in> set (grantNamespaces gr)" "ob = Role t m (gRules (fst gr))"
      "omName m = gmName (gMetadata (fst gr))" "omNamespace m = ns"
  | (binding) gr ns t m where "gr \<in> set res" "ns \<in> set (grantNamespaces gr)"
      "ob = RoleBinding t m [grantSubject rs] \<lparr>rrAPIGroup = c_rbacGroupName L, rrKind = ''Role'', rrName = gmName (gMetadata (fst gr))\<rparr>"
      "omNamespace m = ns"
proof -
  from assms consider (a) g where "g \<in> set (map fst res)" "gType g = RBACGrantTypeClusterRole"
      "rawManifest ob \<in> set (renderClusterGrant L rs g (grantSubject rs))"
    | (b) gr ns where "gr \<in> set res" "ns \<in> set (grantNamespaces gr)"
      "rawManifest ob \<in> set (renderNamespacedGrant L rs (fst gr) ns (grantSubject rs))"
    unfolding resolutionObjects_def by blast
  then show thesis
  proof cases
    case a
    then show thesis using clusterRole [OF a(1,2)] clusterBinding [OF a(1,2)] by (auto simp: renderClusterGrant_def Let_def)
  next
    case b
    then show thesis using role [OF b(1,2)] binding [OF b(1,2)] by (auto simp: renderNamespacedGrant_def Let_def)
  qed
qed

lemma resolutionObjects_cluster:
  assumes "g \<in> set (map fst res)" "gType g = RBACGrantTypeClusterRole"
  obtains t m t' m' where "ClusterRole t m (gRules g) \<in> resolutionObjects L rs res" "omName m = gmName (gMetadata g)"
    "ClusterRoleBinding t' m' [grantSubject rs] \<lparr>rrAPIGroup = c_rbacGroupName L, rrKind = ''ClusterRole'', rrName = gmName (gMetadata g)\<rparr>
       \<in> resolutionObjects L rs res"
proof -
  let ?md = "objectMeta_zero\<lparr>omName := gmName (gMetadata g), omLabels := rbacObjectLabels L rs g [], omAnnotations := rbacObjectAnnotations L rs g []\<rparr>"
  show ?thesis
    by (rule that [of "rbacType L ''ClusterRole''" ?md "rbacType L ''ClusterRoleBinding''" ?md])
      (use assms in \<open>auto simp: resolutionObjects_def renderClusterGrant_def Let_def\<close>)
qed

lemma resolutionObjects_namespaced:
  assumes "gr \<in> set res" "ns \<in> set (grantNamespaces gr)"
  obtains t m t' m' where "Role t m (gRules (fst gr)) \<in> resolutionObjects L rs res" "omName m = gmName (gMetadata (fst gr))" "omNamespace m = ns"
    "RoleBinding t' m' [grantSubject rs] \<lparr>rrAPIGroup = c_rbacGroupName L, rrKind = ''Role'', rrName = gmName (gMetadata (fst gr))\<rparr>
       \<in> resolutionObjects L rs res" "omNamespace m' = ns"
proof -
  let ?md = "objectMeta_zero\<lparr>omName := gmName (gMetadata (fst gr)), omNamespace := ns, omLabels := rbacObjectLabels L rs (fst gr) ns,
    omAnnotations := rbacObjectAnnotations L rs (fst gr) ns\<rparr>"
  show ?thesis
    by (rule that [of "rbacType L ''Role''" ?md "rbacType L ''RoleBinding''" ?md])
      (use assms in \<open>auto simp: resolutionObjects_def renderNamespacedGrant_def Let_def intro!: bexI [of _ gr] bexI [of _ ns]\<close>)
qed

lemma privilegesI:
  "b \<in> obs \<Longrightarrow> role \<in> obs \<Longrightarrow> bindingOf b = Some (scope, subjects, ref) \<Longrightarrow> subj \<in> set subjects \<Longrightarrow> refersTo L scope ref role \<Longrightarrow>
   rule \<in> set (objectRules role) \<Longrightarrow> (subj, scope, rule) \<in> privileges L obs"
  unfolding privileges_def by blast

lemma not_dangling_resolution: "\<not> dangling L (resolutionObjects L rs res)"
  unfolding dangling_def
proof clarify
  fix b scope subjects ref
  assume b: "b \<in> resolutionObjects L rs res" "bindingOf b = Some (scope, subjects, ref)"
    and none: "\<forall>role \<in> resolutionObjects L rs res. \<not> refersTo L scope ref role"
  from b(1) show False
  proof (cases rule: resolutionObjects_cases)
    case (clusterBinding g t m)
    obtain t' m' where "ClusterRole t' m' (gRules g) \<in> resolutionObjects L rs res" "omName m' = gmName (gMetadata g)"
      using clusterBinding(1,2) by (rule resolutionObjects_cluster)
    with none b(2) clusterBinding(3) show ?thesis by fastforce
  next
    case (binding gr ns t m)
    obtain t' m' where "Role t' m' (gRules (fst gr)) \<in> resolutionObjects L rs res" "omName m' = gmName (gMetadata (fst gr))" "omNamespace m' = ns"
      using binding(1,2) by (rule resolutionObjects_namespaced)
    with none b(2) binding(3,4) show ?thesis by fastforce
  qed (use b(2) in auto)
qed

lemma privileges_resolution: "privileges L (resolutionObjects L rs res) = grantedPrivileges rs res"
proof (intro set_eqI iffI)
  fix x
  assume "x \<in> privileges L (resolutionObjects L rs res)"
  then obtain subj scope rule b role subjects ref where x: "x = (subj, scope, rule)" "b \<in> resolutionObjects L rs res"
    "role \<in> resolutionObjects L rs res" "bindingOf b = Some (scope, subjects, ref)" "subj \<in> set subjects" "refersTo L scope ref role"
    "rule \<in> set (objectRules role)" by (auto simp: privileges_def)
  from x(2) have "subjects = [grantSubject rs] \<and> rrKind ref = (if scope = None then ''ClusterRole'' else ''Role'')"
    by (cases rule: resolutionObjects_cases) (use x(4) in auto)
  with x(3) x show "x \<in> grantedPrivileges rs res"
    by (cases rule: resolutionObjects_cases) (auto simp: grantedPrivileges_def grantSubject_generated split: if_splits)
next
  fix x
  assume "x \<in> grantedPrivileges rs res"
  then consider (cluster) g rule where "x = (grantSubject rs, None, rule)" "g \<in> set (map fst res)" "gType g = RBACGrantTypeClusterRole"
      "rule \<in> set (gRules g)"
    | (ns) gr ns rule where "x = (grantSubject rs, Some ns, rule)" "gr \<in> set res" "ns \<in> set (grantNamespaces gr)" "rule \<in> set (gRules (fst gr))"
    by (auto simp: grantedPrivileges_def grantSubject_generated)
  then show "x \<in> privileges L (resolutionObjects L rs res)"
  proof cases
    case cluster
    obtain t m t' m' where "ClusterRole t m (gRules g) \<in> resolutionObjects L rs res" "omName m = gmName (gMetadata g)"
      "ClusterRoleBinding t' m' [grantSubject rs] \<lparr>rrAPIGroup = c_rbacGroupName L, rrKind = ''ClusterRole'', rrName = gmName (gMetadata g)\<rparr>
         \<in> resolutionObjects L rs res" using cluster(2,3) by (rule resolutionObjects_cluster)
    from privilegesI [OF this(3,1), of None "[grantSubject rs]"] this(2) cluster(1,4) show ?thesis by simp
  next
    case ns
    obtain t m t' m' where "Role t m (gRules (fst gr)) \<in> resolutionObjects L rs res" "omName m = gmName (gMetadata (fst gr))" "omNamespace m = ns"
      "RoleBinding t' m' [grantSubject rs] \<lparr>rrAPIGroup = c_rbacGroupName L, rrKind = ''Role'', rrName = gmName (gMetadata (fst gr))\<rparr>
         \<in> resolutionObjects L rs res" "omNamespace m' = ns" using ns(2,3) by (rule resolutionObjects_namespaced)
    from privilegesI [OF this(4,1), of "Some ns" "[grantSubject rs]"] this(2,3,5) ns(1,4) show ?thesis by simp
  qed
qed

section \<open>Ownership of the generated objects\<close>

context label_library
begin

lemma buildManifestWork_owned: "ownedBySet L rs (omLabels (workMeta (buildManifestWork L rs c ref sl)))"
  by (simp add: buildManifestWork_def Let_def objectMeta_zero_def ownedBySet_upd childLabels_owned
      extra_keys_not_source)

lemma rbacObjectLabels_owned: "ownedBySet L rs (rbacObjectLabels L rs g ns)"
  by (simp add: rbacObjectLabels_def Let_def ownedBySet_upd ownedBySet_Merge ownedBySet_sourceLabels
      extra_keys_not_source)

end

lemma buildManifestWork_key [simp]:
  "omName (workMeta (buildManifestWork L rs c ref sl)) = slName sl"
  "omNamespace (workMeta (buildManifestWork L rs c ref sl)) = c"
  by (simp_all add: buildManifestWork_def Let_def objectMeta_zero_def)

section \<open>Summaries\<close>

definition summaryOK :: "summary \<Rightarrow> bool" where
  "summaryOK s \<longleftrightarrow> 0 \<le> suDesiredTotal s \<and> suTotal s \<le> suDesiredTotal s \<and>
     (\<forall>f \<in> {suApplied, suAvailable, suDegraded, suProgressing, suUpdated}. 0 \<le> f s \<and> f s \<le> suTotal s)"

lemma manifestsHash_length: "length (manifestsHash L ms) = (if ms = [] then 0 else 16)"
  by (simp add: manifestsHash_def)

section \<open>No object is rendered twice\<close>

fun objectId :: "rbacObject \<Rightarrow> string \<times> string \<times> string" where
  "objectId (ClusterRole t m rules) = (''ClusterRole'', omNamespace m, omName m)"
| "objectId (ClusterRoleBinding t m subjects ref) = (''ClusterRoleBinding'', omNamespace m, omName m)"
| "objectId (Role t m rules) = (''Role'', omNamespace m, omName m)"
| "objectId (RoleBinding t m subjects ref) = (''RoleBinding'', omNamespace m, omName m)"

definition manifestIds :: "manifest list \<Rightarrow> (string \<times> string \<times> string) list" where
  "manifestIds ms = concat (map (\<lambda>m. case mfObject m of None \<Rightarrow> [] | Some ob \<Rightarrow> [objectId ob]) ms)"

definition sliceIds :: "rbacSlice list \<Rightarrow> (string \<times> string \<times> string) list" where
  "sliceIds slices = concat (map (\<lambda>sl. manifestIds (slManifests sl)) slices)"

lemma manifestIds_append [simp]: "manifestIds (a @ b) = manifestIds a @ manifestIds b"
  by (simp add: manifestIds_def)

lemma manifestIds_Nil [simp]: "manifestIds [] = []"
  by (simp add: manifestIds_def)

lemma manifestIds_concat: "manifestIds (concat xss) = concat (map manifestIds xss)"
  by (induction xss) (simp_all add: manifestIds_def)

lemma manifestIds_cluster:
  "manifestIds (renderClusterGrant L rs g subj) =
     [(''ClusterRole'', [], gmName (gMetadata g)), (''ClusterRoleBinding'', [], gmName (gMetadata g))]"
  by (simp add: manifestIds_def renderClusterGrant_def Let_def rawManifest_def objectMeta_zero_def)

lemma manifestIds_namespaced:
  "manifestIds (renderNamespacedGrant L rs g ns subj) =
     [(''Role'', ns, gmName (gMetadata g)), (''RoleBinding'', ns, gmName (gMetadata g))]"
  by (simp add: manifestIds_def renderNamespacedGrant_def Let_def rawManifest_def objectMeta_zero_def)

text \<open>Two objects per name, of two kinds: distinct when the names are.\<close>

lemma distinct_pairs:
  assumes "distinct names" "a \<noteq> b"
  shows "distinct (concat (map (\<lambda>n. [(a, ns, n), (b, ns, n)]) names))"
  using assms by (induction names) auto

lemma distinct_clusterObjects:
  assumes "distinct (clusterRoleNames gs)"
  shows "distinct (manifestIds (clusterObjects L rs gs))"
  using distinct_pairs [OF assms, of "''ClusterRole''" "''ClusterRoleBinding''" "[]"]
  by (simp add: clusterObjects_def clusterRoleNames_def manifestIds_concat manifestIds_cluster comp_def)

text \<open>The names of the Roles that a resolution puts in a namespace.\<close>

fun grantNamesAt :: "string \<Rightarrow> rbacGrant \<times> (go_error + string list) \<Rightarrow> string list" where
  "grantNamesAt ns (g, r) = (if ns \<in> set (grantNamespaces (g, r)) then [gmName (gMetadata g)] else [])"

lemma manifestIds_grantObjectsAt:
  "manifestIds (grantObjectsAt L rs ns gr) =
     concat (map (\<lambda>n. [(''Role'', ns, n), (''RoleBinding'', ns, n)]) (grantNamesAt ns gr))"
  by (cases gr; cases "snd gr") (auto simp: manifestIds_namespaced)

lemma manifestIds_namespace:
  "manifestIds (concat (map (grantObjectsAt L rs ns) res)) =
     concat (map (\<lambda>n. [(''Role'', ns, n), (''RoleBinding'', ns, n)]) (concat (map (grantNamesAt ns) res)))"
  by (induction res) (simp_all add: manifestIds_grantObjectsAt)

text \<open>A fixed grant resolves to its fixed namespaces.\<close>

definition noSelector :: "rbacGrant \<Rightarrow> bool" where
  "noSelector g = (case gForEachNamespace g of None \<Rightarrow> True | Some it \<Rightarrow> niSelector it = None)"

lemma fixed_grant_iterator:
  assumes "grantValid g" "noSelector g" "gType g = RBACGrantTypeRole"
  obtains it where "gForEachNamespace g = Some it" "niSelector it = None"
    "niName it \<noteq> [] \<and> niNames it = [] \<or> niName it = [] \<and> niNames it \<noteq> []"
  using assms by (auto simp: grantValid_def noSelector_def namespaceModes_def split: option.splits if_splits)

lemma fixed_grant_namespaces:
  assumes "grantValid g" "noSelector g" "grantResolves L k es c g r" "ns \<in> set (grantNamespaces (g, r))"
  shows "ns @ ''/'' @ gmName (gMetadata g) \<in> set (fixedRoleKeys g)"
proof -
  from assms(4) obtain nss where r: "r = Inr nss" "gType g = RBACGrantTypeRole" "ns \<in> set nss"
    by (cases r) (auto split: if_splits)
  from fixed_grant_iterator [OF assms(1,2) r(2)] obtain it where it: "gForEachNamespace g = Some it"
    "niSelector it = None" "niName it \<noteq> [] \<and> niNames it = [] \<or> niName it = [] \<and> niNames it \<noteq> []" .
  with assms(3) r have "nss = fixedNamespaces it"
    by (auto simp: grantResolves_def fixedNamespaces_def sorted_list_of_fset.rep_eq)
  with it r show ?thesis by (simp add: fixedRoleKeys_def)
qed

lemma grantNamesAt_key:
  assumes "grantValid g" "noSelector g" "grantResolves L k es c g r" "n \<in> set (grantNamesAt ns (g, r))"
  shows "ns @ ''/'' @ n \<in> set (fixedRoleKeys g)"
  using assms(4) fixed_grant_namespaces [OF assms(1,2,3), of ns] by (simp split: if_splits)

lemma distinct_grantNames:
  assumes "distinct (concat (map fixedRoleKeys (map fst res)))"
    and "\<forall>(g, r) \<in> set res. grantValid g \<and> noSelector g \<and> grantResolves L k es c g r"
  shows "distinct (concat (map (grantNamesAt ns) res))"
  using assms
proof (induction res)
  case (Cons gr res)
  obtain g r where gr: "gr = (g, r)" by (cases gr)
  have keys: "ns @ ''/'' @ n \<in> (\<Union>g \<in> fst ` set res. set (fixedRoleKeys g))"
    if "(g', r') \<in> set res" "n \<in> set (grantNamesAt ns (g', r'))" for n g' r'
  proof -
    have "ns @ ''/'' @ n \<in> set (fixedRoleKeys g')"
      using Cons.prems(2) that by (intro grantNamesAt_key [of g' L k es c r']) auto
    with that(1) show ?thesis by force
  qed
  have own: "ns @ ''/'' @ n \<in> set (fixedRoleKeys g)" if "n \<in> set (grantNamesAt ns (g, r))" for n
    using Cons.prems(2) gr that by (intro grantNamesAt_key [of g L k es c r]) auto
  have disj: "set (fixedRoleKeys g) \<inter> (\<Union>g \<in> fst ` set res. set (fixedRoleKeys g)) = {}"
    and rest: "distinct (concat (map fixedRoleKeys (map fst res)))"
    using Cons.prems(1) by (simp_all add: gr)
  have "n \<notin> set (grantNamesAt ns (g', r'))"
    if "n \<in> set (grantNamesAt ns (g, r))" "(g', r') \<in> set res" for n g' r'
    using own [OF that(1)] keys [OF that(2)] disj by blast
  then have "set (grantNamesAt ns (g, r)) \<inter> (\<Union>x \<in> set res. set (grantNamesAt ns x)) = {}"
    by (auto simp del: grantNamesAt.simps)
  moreover have "distinct (concat (map (grantNamesAt ns) res))"
    using Cons.IH [OF rest] Cons.prems(2) by simp
  ultimately show ?case by (simp add: gr)
qed simp

lemma distinct_sliceIds:
  assumes res: "map fst res = setGrants rs" "\<forall>(g, r) \<in> set res. grantResolves L k es c g r"
    and valid: "runtimeSpecValid rs" and fixed: "\<forall>g \<in> set (setGrants rs). noSelector g"
  shows "distinct (sliceIds (slicesSpec L rs res))"
proof -
  let ?nss = "sort (remdups (concat (map grantNamespaces res)))"
  let ?ids = "\<lambda>ns. manifestIds (concat (map (grantObjectsAt L rs ns) res))"
  have grants: "\<forall>(g, r) \<in> set res. grantValid g \<and> noSelector g \<and> grantResolves L k es c g r"
  proof (clarify, intro conjI)
    fix g r
    assume gr: "(g, r) \<in> set res"
    then have "g \<in> set (setGrants rs)" unfolding res(1) [symmetric] by force
    with valid fixed show "grantValid g" "noSelector g" by (simp_all add: runtimeSpecValid_def)
    from gr res(2) show "grantResolves L k es c g r" by blast
  qed
  have names: "distinct (concat (map (grantNamesAt ns) res))" for ns
    using distinct_grantNames [OF _ grants] valid res(1) by (simp add: runtimeSpecValid_def)
  have each: "distinct (?ids ns)" for ns
    unfolding manifestIds_namespace by (rule distinct_pairs [OF names]) simp
  have at: "x \<in> set (?ids ns) \<Longrightarrow> fst (snd x) = ns \<and> fst x \<in> {''Role'', ''RoleBinding''}" for x ns
    unfolding manifestIds_namespace by auto
  have "distinct (concat (map ?ids nss))" if "distinct nss" for nss
    using that by (induction nss) (auto simp: each dest: at)
  then have namespaces: "distinct (concat (map ?ids ?nss))" by simp
  have cluster: "distinct (manifestIds (clusterObjects L rs (map fst res)))"
    using valid res(1) by (simp add: runtimeSpecValid_def distinct_clusterObjects)
  have "x \<in> set (manifestIds (clusterObjects L rs gs)) \<Longrightarrow> fst x \<in> {''ClusterRole'', ''ClusterRoleBinding''}" for x gs
    by (auto simp: clusterObjects_def manifestIds_concat manifestIds_cluster)
  with at have "set (manifestIds (clusterObjects L rs (map fst res))) \<inter> set (concat (map ?ids ?nss)) = {}"
    by fastforce
  with namespaces cluster show ?thesis
    by (simp add: sliceIds_def slicesSpec_def Let_def clusterSlice_def namespaceSlice_def comp_def)
qed

section \<open>Properties\<close>

text \<open>
  C16: The slices refine their specification. Against any namespace resolver, the slices a cluster
  gets are the reference slices for the resolution of the grants, in grant order: a fixed grant
  resolves to its own namespaces, a selector grant to the sorted answer of the resolver. A grant fails
  exactly when it is a Role grant with no usable iterator, with an invalid selector, with a selector and no
  resolver, or when the resolver answered with an error, which is then the error of the grant; the
  error returned joins those of the failed grants in order. A failing grant does not take the
  slices of the others with it; only an unsupported type yields none, and its own error.
\<close>

theorem desiredRBACSlices_refines:
  "\<exists>es. trace (snd (run_state (desiredRBACSlices R rs c) w)) = trace w @ es \<and>
     slicesPost (rLib R) (rResolver R \<noteq> None) rs c (fst (run_state (desiredRBACSlices R rs c) w)) es"
  using desiredRBACSlices_emits [of R rs c] by (simp add: emits_def)


text \<open>
  C18: A valid specification without selectors never renders an object twice: over all slices of a
  cluster the triples of kind, namespace and name are distinct.
\<close>

theorem desiredRBACSlices_distinct_objects:
  assumes "validateRuntimeSpec rs = None" "\<forall>g \<in> set (setGrants rs). noSelector g"
    and "run_state (desiredRBACSlices R rs c) w = ((slices, err), w')"
  shows "distinct (sliceIds slices)"
proof -
  obtain es where "slicesPost (rLib R) (rResolver R \<noteq> None) rs c (slices, err) es"
    using desiredRBACSlices_emits [of R rs c] assms(3) by (rule emitsD)
  then consider "slices = []" | res where "map fst res = setGrants rs" "\<forall>(g, r) \<in> set res. grantResolves (rLib R) (rResolver R \<noteq> None) es c g r"
    "slices = slicesSpec (rLib R) rs res" by auto
  then show ?thesis
    by cases (use assms(1,2) in \<open>auto simp: sliceIds_def [of "[]"] validateRuntimeSpec_None distinct_sliceIds\<close>)
qed

section \<open>Examples\<close>

definition clusterOnlySet :: replicaSet where
  "clusterOnlySet = sampleSet\<lparr>setSpec := sampleSpec [sampleClusterGrant]\<rparr>"

lemma clusterOnlySet_simps [simp]:
  "setGrants clusterOnlySet = [sampleClusterGrant]"
  "spRBAC (setSpec clusterOnlySet) = Some \<lparr>rbGrants = [sampleClusterGrant]\<rparr>"
  by (simp_all add: clusterOnlySet_def sampleSpec_def setGrants_def)

lemma clusterOnlySet_slices:
  "run_state (desiredRBACSlices R clusterOnlySet c) w = (([clusterSlice (rLib R) clusterOnlySet
     (renderClusterGrant (rLib R) clusterOnlySet sampleClusterGrant (grantSubject clusterOnlySet))], None), w)"
  by (simp add: desiredRBACSlices_def sampleClusterGrant_def assembleSlices_def renderClusterGrant_def Let_def)

lemma clusterOnlySet_valid: "validateRuntimeSpec clusterOnlySet = None"
  by (simp add: clusterOnlySet_def sampleSpec_def validateRuntimeSpec_def sampleClusterGrant_def sampleRule_def
      validateGrantMetadata_def validateGrantObjectNames_def defaultRolloutStrategy_def StrategyAll_def
      StrategyProgressive_def StrategyProgressivePerGroup_def namespaceModes_def Let_def)


theorem desiredRBACSlices_distinct_objects_witness:
  "validateRuntimeSpec clusterOnlySet = None \<and>
   (case fst (run_state (desiredRBACSlices (hubReconciler ref_lib) clusterOnlySet ''c1'') (sampleWorld emptyHub)) of
      (slices, err) \<Rightarrow> distinct (sliceIds slices) \<and> length (sliceIds slices) = 2)"
proof -
  have "noSelector sampleClusterGrant" by (simp add: noSelector_def sampleClusterGrant_def)
  then have "distinct (sliceIds [clusterSlice ref_lib clusterOnlySet
      (renderClusterGrant ref_lib clusterOnlySet sampleClusterGrant (grantSubject clusterOnlySet))])"
    using desiredRBACSlices_distinct_objects [OF clusterOnlySet_valid _ clusterOnlySet_slices
        [where R = "hubReconciler ref_lib"]] by simp
  then show ?thesis
    by (simp add: clusterOnlySet_valid clusterOnlySet_slices sliceIds_def clusterSlice_def manifestIds_cluster)
qed

definition sampleSelectorGrant :: "string \<Rightarrow> rbacGrant" where
  "sampleSelectorGrant gid = \<lparr>gID = gid, gType = RBACGrantTypeRole,
     gForEachNamespace = Some \<lparr>niName = [], niNames = [],
       niSelector = Some \<lparr>lsMatchLabels = fmempty, lsMatchExpressions = []\<rparr>\<rparr>,
     gMetadata = \<lparr>gmName = ''reader'', gmLabels = fmempty, gmAnnotations = fmempty\<rparr>, gRules = [sampleRule]\<rparr>"

definition selectorSet :: replicaSet where
  "selectorSet = sampleSet\<lparr>setSpec := sampleSpec [sampleSelectorGrant ''one'', sampleSelectorGrant ''two'']\<rparr>"

text \<open>A Role grant for the namespaces a selector selects.\<close>

definition selectorGrant :: "rbacGrant \<Rightarrow> labelSelector \<Rightarrow> bool" where
  "selectorGrant g ls \<longleftrightarrow> gType g = RBACGrantTypeRole \<and> (\<exists>it. gForEachNamespace g = Some it \<and> niSelector it = Some ls)"

definition renamedGrant :: "string \<Rightarrow> rbacGrant \<Rightarrow> rbacGrant" where
  "renamedGrant name g = g\<lparr>gMetadata := (gMetadata g)\<lparr>gmName := name\<rparr>\<rparr>"

lemma selector_grant_iterator:
  assumes "grantValid g" "selectorGrant g ls"
  obtains it where "gForEachNamespace g = Some it" "niName it = []" "niNames it = []" "niSelector it = Some ls"
  using assms by (auto simp: grantValid_def selectorGrant_def namespaceModes_def split: if_splits)

lemma fixedRoleKeys_selector:
  assumes "grantValid g" "selectorGrant g ls"
  shows "fixedRoleKeys (renamedGrant name g) = []" "fixedRoleKeys g = []"
proof -
  obtain it where "gForEachNamespace g = Some it" "niName it = []" "niNames it = []" using assms by (rule selector_grant_iterator)
  then show "fixedRoleKeys (renamedGrant name g) = []" "fixedRoleKeys g = []"
    by (simp_all add: fixedRoleKeys_def renamedGrant_def fixedNamespaces_def)
qed

lemma renamed_selector_valid:
  assumes "runtimeSpecValid rs" "setGrants rs = xs @ h # ys" "selectorGrant h ls" "name \<noteq> []"
    and "rs' = rs\<lparr>setSpec := (setSpec rs)\<lparr>spRBAC := Some \<lparr>rbGrants = xs @ renamedGrant name h # ys\<rparr>\<rparr>\<rparr>"
  shows "runtimeSpecValid rs'"
proof -
  have grants: "setGrants rs' = xs @ renamedGrant name h # ys" by (simp add: assms(5) setGrants_def)
  have h: "grantValid h" using assms(1,2) by (simp add: runtimeSpecValid_def)
  then have "grantValid (renamedGrant name h)" using assms(4) by (simp add: grantValid_def renamedGrant_def namespaceModes_def)
  moreover have "clusterRoleNames (setGrants rs') = clusterRoleNames (setGrants rs)"
    using assms(3) by (simp add: grants assms(2) clusterRoleNames_def renamedGrant_def selectorGrant_def RBACGrantTypeRole_def
        RBACGrantTypeClusterRole_def)
  moreover have "map gID (setGrants rs') = map gID (setGrants rs)" by (simp add: grants assms(2) renamedGrant_def)
  moreover have "concat (map fixedRoleKeys (setGrants rs')) = concat (map fixedRoleKeys (setGrants rs))"
    using fixedRoleKeys_selector [OF h assms(3)] by (simp add: grants assms(2))
  moreover have "spPlacementRefs (setSpec rs') = spPlacementRefs (setSpec rs)" "spTemplate (setSpec rs') = spTemplate (setSpec rs)"
    by (simp_all add: assms(5))
  moreover have "\<forall>g \<in> set (setGrants rs). grantValid g" using assms(1) by (simp add: runtimeSpecValid_def)
  ultimately show ?thesis using assms(1) by (simp add: runtimeSpecValid_def) (simp add: grants assms(2))
qed

lemma selector_grant_names:
  assumes "grantValid g" "selectorGrant g ls" "grantResolves L True es c g r" "labelSelectorError L ls = None"
    and "\<And>answer. ResolveNamespaces c (gID g) (SelectorFromLabelSelector ls) answer \<in> set es \<Longrightarrow> \<exists>nss. answer = Inr nss \<and> ns \<in> set nss"
  shows "grantNamesAt ns (g, r) = [gmName (gMetadata g)]"
proof -
  obtain it where it: "gForEachNamespace g = Some it" "niName it = []" "niNames it = []" "niSelector it = Some ls"
    using assms(1,2) by (rule selector_grant_iterator)
  with assms(2,3,4) obtain answer where "ResolveNamespaces c (gID g) (SelectorFromLabelSelector ls) answer \<in> set es"
    "r = map_sum id (\<lambda>nss. sort (remdups nss)) answer" by (auto simp: grantResolves_def selectorGrant_def)
  with assms(5) obtain nss where "r = Inr (sort (remdups nss))" "ns \<in> set nss" by fastforce
  with assms(2) show ?thesis by (simp add: selectorGrant_def)
qed

lemma map_fst_split:
  assumes "map fst res = xs @ g # ys"
  obtains rx r ry where "res = rx @ (g, r) # ry" "map fst ry = ys"
  using assms
proof (induction xs arbitrary: res thesis)
  case Nil
  then obtain r ry where "res = [] @ (g, r) # ry" "map fst ry = ys" by auto
  then show ?case by (rule Nil.prems(1))
next
  case (Cons x xs)
  then obtain gr rest where rest: "res = gr # rest" "map fst rest = xs @ g # ys" by auto
  obtain rx r ry where "rest = rx @ (g, r) # ry" "map fst ry = ys" using rest(2) by (rule Cons.IH [rotated])
  with rest(1) show ?case using Cons.prems(1) [of "gr # rx" r ry] by simp
qed

lemma collision_not_distinct:
  assumes "res = xs @ a # ys @ b # zs" "grantNamesAt ns a = [n]" "grantNamesAt ns b = [n]"
  shows "\<not> distinct (sliceIds (slicesSpec L rs res))"
proof
  let ?ms = "concat (map (grantObjectsAt L rs ns) res)"
  assume "distinct (sliceIds (slicesSpec L rs res))"
  moreover have "ns \<in> set (concat (map grantNamespaces res))"
    using assms(1,2) by (cases a) (auto split: if_splits)
  then have "namespaceSlice L rs ns ?ms \<in> set (slicesSpec L rs res)" by (simp add: slicesSpec_def Let_def)
  then have "manifestIds ?ms \<in> set (map (\<lambda>sl. manifestIds (slManifests sl)) (slicesSpec L rs res))"
    by (force simp: namespaceSlice_def)
  ultimately have "distinct (manifestIds ?ms)" unfolding sliceIds_def by (auto simp: distinct_concat_iff)
  then show False unfolding manifestIds_namespace using assms by simp
qed

text \<open>
  C19: The validator does not look at the names of selector grants. In any valid set with two of them, the
  second can be given the name of the first and the set is still valid; and then, on every cluster where the
  resolver answers both with a common namespace, the same Role is rendered twice in the
  ManifestWork of that namespace.
\<close>

theorem selector_grants_collide:
  assumes "validateRuntimeSpec rs = None" "setGrants rs = xs @ g # ys @ h # zs" "selectorGrant g ls" "selectorGrant h ms"
    and "rs' = rs\<lparr>setSpec := (setSpec rs)\<lparr>spRBAC := Some \<lparr>rbGrants = xs @ g # ys @ renamedGrant (gmName (gMetadata g)) h # zs\<rparr>\<rparr>\<rparr>"
    and "rResolver R \<noteq> None" "labelSelectorError (rLib R) ls = None" "labelSelectorError (rLib R) ms = None"
    and "run_state (desiredRBACSlices R rs' c) w = ((slices, err), w')" "trace w' = trace w @ es"
    and "\<And>answer. ResolveNamespaces c (gID g) (SelectorFromLabelSelector ls) answer \<in> set es \<Longrightarrow> \<exists>nss. answer = Inr nss \<and> ns \<in> set nss"
    and "\<And>answer. ResolveNamespaces c (gID h) (SelectorFromLabelSelector ms) answer \<in> set es \<Longrightarrow> \<exists>nss. answer = Inr nss \<and> ns \<in> set nss"
  shows "validateRuntimeSpec rs' = None \<and> \<not> distinct (sliceIds slices)"
proof
  let ?n = "gmName (gMetadata g)" and ?h = "renamedGrant (gmName (gMetadata g)) h"
  have valid: "runtimeSpecValid rs" using assms(1) by (simp add: validateRuntimeSpec_None)
  then have g: "grantValid g" "?n \<noteq> []" using assms(2) by (simp_all add: runtimeSpecValid_def grantValid_def)
  have valid': "runtimeSpecValid rs'"
    using renamed_selector_valid [OF valid, of "xs @ g # ys" h zs ms ?n rs'] assms(2,4,5) g(2) by simp
  then show "validateRuntimeSpec rs' = None" by (simp add: validateRuntimeSpec_None)
  have grants: "setGrants rs' = xs @ g # ys @ ?h # zs" by (simp add: assms(5) setGrants_def)
  have h: "grantValid ?h" "selectorGrant ?h ms" "gID ?h = gID h" "gmName (gMetadata ?h) = ?n"
    using valid' assms(4) by (simp_all add: runtimeSpecValid_def grants selectorGrant_def renamedGrant_def)
  have "find unsupportedGrant (setGrants rs') = None"
    using valid' by (auto simp: runtimeSpecValid_def grantValid_def unsupportedGrant_def find_None_iff)
  moreover obtain es' where "trace w' = trace w @ es'" "slicesPost (rLib R) (rResolver R \<noteq> None) rs' c (slices, err) es'"
    using desiredRBACSlices_emits assms(9) by (rule emitsD)
  ultimately obtain res where res: "map fst res = xs @ g # ys @ ?h # zs" "slices = slicesSpec (rLib R) rs' res"
    "\<forall>(g, r) \<in> set res. grantResolves (rLib R) True es c g r"
    using assms(6,10) by (auto simp: firstUnsupported_def grants)
  obtain rx r1 rest where one: "res = rx @ (g, r1) # rest" "map fst rest = ys @ ?h # zs" using res(1) by (rule map_fst_split)
  obtain ry r2 rz where "rest = ry @ (?h, r2) # rz" using one(2) by (rule map_fst_split)
  with one(1) have split: "res = rx @ (g, r1) # ry @ (?h, r2) # rz" by simp
  with res(3) have resolved: "grantResolves (rLib R) True es c g r1" "grantResolves (rLib R) True es c ?h r2" by auto
  have "grantNamesAt ns (g, r1) = [?n]" by (rule selector_grant_names [OF g(1) assms(3) resolved(1) assms(7,11)])
  moreover have "grantNamesAt ns (?h, r2) = [?n]"
    using selector_grant_names [OF h(1,2) resolved(2) assms(8), of ns] assms(12) unfolding h(3,4) by blast
  ultimately show "\<not> distinct (sliceIds slices)" unfolding res(2) by (rule collision_not_distinct [OF split])
qed

theorem selector_grants_collide_witness:
  "let R = (hubReconciler ref_lib)\<lparr>rResolver := Some (\<lambda>rs cl g sel e. (Inr [''apps''], e))\<rparr>
   in validateRuntimeSpec selectorSet = None \<and>
      \<not> distinct (sliceIds (fst (fst (run_state (desiredRBACSlices R selectorSet ''c1'') (sampleWorld emptyHub)))))"
proof -
  let ?R = "(hubReconciler ref_lib)\<lparr>rResolver := Some (\<lambda>rs cl g sel e. (Inr [''apps''], e))\<rparr>"
  let ?ls = "\<lparr>lsMatchLabels = fmempty, lsMatchExpressions = []\<rparr>"
  let ?g = "sampleSelectorGrant ''one''" and ?h = "sampleSelectorGrant ''two''"
  have valid: "validateRuntimeSpec selectorSet = None"
    by (simp add: selectorSet_def sampleSpec_def validateRuntimeSpec_def sampleSelectorGrant_def sampleRule_def
      validateGrantMetadata_def validateGrantObjectNames_def defaultRolloutStrategy_def StrategyAll_def
      StrategyProgressive_def StrategyProgressivePerGroup_def namespaceModes_def fixedNamespaces_def Let_def)
  have grants: "setGrants selectorSet = [] @ ?g # [] @ ?h # []"
    by (simp add: selectorSet_def sampleSpec_def setGrants_def)
  have sel: "selectorGrant ?g ?ls" "selectorGrant ?h ?ls" by (simp_all add: selectorGrant_def sampleSelectorGrant_def)
  have renamed: "renamedGrant (gmName (gMetadata ?g)) ?h = ?h" by (simp add: renamedGrant_def sampleSelectorGrant_def)
  have same: "selectorSet = selectorSet\<lparr>setSpec := (setSpec selectorSet)\<lparr>spRBAC := Some \<lparr>rbGrants = [] @ ?g # [] @ renamedGrant (gmName (gMetadata ?g)) ?h # []\<rparr>\<rparr>\<rparr>"
    unfolding renamed by (simp add: selectorSet_def sampleSpec_def)
  obtain slices err w' where run: "run_state (desiredRBACSlices ?R selectorSet ''c1'') (sampleWorld emptyHub) = ((slices, err), w')"
    by (cases "run_state (desiredRBACSlices ?R selectorSet ''c1'') (sampleWorld emptyHub)") auto
  have "trace w' = [] @ [ResolveNamespaces ''c1'' ''one'' (SelectorFromLabelSelector ?ls) (Inr [''apps'']),
      ResolveNamespaces ''c1'' ''two'' (SelectorFromLabelSelector ?ls) (Inr [''apps''])]"
    using arg_cong [OF run, of "\<lambda>x. trace (snd x)"]
    by (simp add: desiredRBACSlices_def selectorSet_def sampleSpec_def sampleSelectorGrant_def resolveGrantNamespaces_def
        call_def sampleWorld_def)
  then have "\<not> distinct (sliceIds slices)"
    using selector_grants_collide [OF valid grants sel same _ _ _ run, where ns = "''apps''"]
    by (simp add: sampleWorld_def sampleSelectorGrant_def)
  with valid run show ?thesis by (simp add: Let_def)
qed

end
