(* ===== verification/Controller_Access.thy ===== *)
theory Controller_Access
  imports Rbac
begin

text \<open>
  \<^verbatim>\<open>internal/controller/controller_access.go\<close>: the controller's own read access to the namespaces
  of a managed cluster, needed for selector-targeted grants: a ManagedServiceAccount and a
  ManifestWork that grants it get, list and watch on namespaces.
\<close>

definition controllerAccessRBACSliceType :: string where
  "controllerAccessRBACSliceType = ''controller-access-rbac''"

text \<open>360 days, in nanoseconds (\<^verbatim>\<open>defaultTokenValidity\<close>).\<close>

definition defaultTokenValidity :: int where
  "defaultTokenValidity = 360 * 24 * 3600 * 1000000000"

definition selectorRBACEnabled :: "replicaSet \<Rightarrow> bool" where
  "selectorRBACEnabled rs =
     (case spRBAC (setSpec rs) of None \<Rightarrow> False
      | Some rbac \<Rightarrow> list_ex (\<lambda>grant. case gForEachNamespace grant of None \<Rightarrow> False
          | Some it \<Rightarrow> niSelector it \<noteq> None) (rbGrants rbac))"

definition controllerAccessManagedServiceAccountName :: "replicaSet \<Rightarrow> string" where
  "controllerAccessManagedServiceAccountName rs = stableChildName [setName rs, ''controller-access'']"

definition controllerAccessManifestWorkName :: "replicaSet \<Rightarrow> string" where
  "controllerAccessManifestWorkName rs = stableChildName [setName rs, ''access'', ''rbac'']"

definition buildControllerAccessManagedServiceAccount ::
  "lib \<Rightarrow> replicaSet \<Rightarrow> string \<Rightarrow> string \<Rightarrow> managedServiceAccount" where
  "buildControllerAccessManagedServiceAccount L rs clusterName placementRefName = \<lparr>
     msaType = \<lparr>tyAPIVersion = c_msaGroupVersion L, tyKind = ''ManagedServiceAccount''\<rparr>,
     msaMeta = objectMeta_zero\<lparr>omName := controllerAccessManagedServiceAccountName rs,
        omNamespace := clusterName, omLabels := childLabels L rs placementRefName fmempty,
        omAnnotations := sourceAnnotations rs\<rparr>,
     msaSpecOf = \<lparr>msRotationEnabled = True, msRotationValidity = defaultTokenValidity,
        msTTLSecondsAfterCreation = None\<rparr>,
     msaConditions = []\<rparr>"

definition namespaceReaderRules :: "policyRule list" where
  "namespaceReaderRules = [\<lparr>ruVerbs = [''get'', ''list'', ''watch''], ruAPIGroups = [''''],
     ruResources = [''namespaces''], ruResourceNames = [], ruNonResourceURLs = []\<rparr>]"

definition controllerAccessManifests :: "lib \<Rightarrow> replicaSet \<Rightarrow> manifest list" where
  "controllerAccessManifests L rs =
     (let name = controllerAccessManagedServiceAccountName rs;
          md = objectMeta_zero\<lparr>omName := name, omLabels := sourceLabels rs, omAnnotations := sourceAnnotations rs\<rparr>
      in [rawManifest (ClusterRole (rbacType L ''ClusterRole'') md namespaceReaderRules),
          rawManifest (ClusterRoleBinding (rbacType L ''ClusterRoleBinding'') md
            [\<lparr>sjKind = ''ServiceAccount'', sjName = name, sjNamespace = tmNamespace (setTemplateMetadata rs)\<rparr>]
            \<lparr>rrAPIGroup = c_rbacGroupName L, rrKind = ''ClusterRole'', rrName = name\<rparr>)])"

definition buildControllerAccessManifestWork ::
  "lib \<Rightarrow> replicaSet \<Rightarrow> string \<Rightarrow> string \<Rightarrow> manifestWork" where
  "buildControllerAccessManifestWork L rs clusterName placementRefName =
     (let manifests = controllerAccessManifests L rs in
      buildManifestWork L rs clusterName placementRefName
        \<lparr>slName = controllerAccessManifestWorkName rs, slSliceType = controllerAccessRBACSliceType,
         slTargetNamespace = [], slManifests = manifests, slManifestsHash = manifestsHash L manifests\<rparr>)"

definition desiredManagedServiceAccountNames :: "replicaSet \<Rightarrow> strset" where
  "desiredManagedServiceAccountNames rs =
     (let names = {|tmName (setTemplateMetadata rs)|} in
      if selectorRBACEnabled rs then finsert (controllerAccessManagedServiceAccountName rs) names else names)"

end
