(* ===== verification/Children.thy ===== *)
theory Children
  imports Controller_Access
begin

text \<open>
  Creating and patching generated children: \<^verbatim>\<open>ensureChild\<close>, generic over the child type, with
  the two instances of \<^verbatim>\<open>childSpecOps\<close>, the JSON-level comparison of ManifestWork specs and the
  four ensure functions. The locale \<open>child_client\<close> is the interface \<^verbatim>\<open>ensureChild\<close> relies on;
  it is interpreted on the clients of both child types. Its lemmas say what ensuring a child does
  on every branch (for an account, in terms of the template: \<open>accountAsWanted\<close>), and that it complies with the write policy \<open>writeOK\<close>, which the whole
  reconciliation is later shown to follow.
\<close>

section \<open>Comparing specs\<close>

record 't childSpecOps =
  opApply :: "'t \<Rightarrow> 't \<Rightarrow> 't"
  opEqual :: "'t \<Rightarrow> 't \<Rightarrow> bool"

text \<open>The bytes of a raw extension; \<^const>\<open>None\<close> when its object does not encode.\<close>

definition rawExtensionJSON :: "lib \<Rightarrow> manifest \<Rightarrow> string option" where
  "rawExtensionJSON L raw =
     (if length (mfRaw raw) > 0 then Some (mfRaw raw)
      else case mfObject raw of None \<Rightarrow> Some [] | Some ob \<Rightarrow> json_Marshal L ob)"

definition rawExtensionsEqual :: "lib \<Rightarrow> manifest \<Rightarrow> manifest \<Rightarrow> bool" where
  "rawExtensionsEqual L current desired =
     (case rawExtensionJSON L current of None \<Rightarrow> False
      | Some currentJSON \<Rightarrow> (case rawExtensionJSON L desired of None \<Rightarrow> False
         | Some desiredJSON \<Rightarrow>
             if length currentJSON = 0 \<or> length desiredJSON = 0 then length currentJSON = length desiredJSON
             else if currentJSON = desiredJSON then True
             else case json_Unmarshal L currentJSON of None \<Rightarrow> False
               | Some currentValue \<Rightarrow> (case json_Unmarshal L desiredJSON of None \<Rightarrow> False
                   | Some desiredValue \<Rightarrow> currentValue = desiredValue)))"

definition manifestWorkSpecsEqual :: "lib \<Rightarrow> manifestWorkSpec \<Rightarrow> manifestWorkSpec \<Rightarrow> bool" where
  "manifestWorkSpecsEqual L current desired =
     (if length (mwManifests current) \<noteq> length (mwManifests desired) then False
      else if current\<lparr>mwManifests := []\<rparr> \<noteq> desired\<lparr>mwManifests := []\<rparr> then False
      else list_all2 (rawExtensionsEqual L) (mwManifests current) (mwManifests desired))"

definition msaSpecOps :: "managedServiceAccount childSpecOps" where
  "msaSpecOps = \<lparr>opApply = (\<lambda>current desired. current\<lparr>msaSpecOf := msaSpecOf desired\<rparr>),
     opEqual = (\<lambda>current desired. msaSpecOf current = msaSpecOf desired)\<rparr>"

definition manifestWorkSpecOps :: "lib \<Rightarrow> manifestWork childSpecOps" where
  "manifestWorkSpecOps L = \<lparr>opApply = (\<lambda>current desired. current\<lparr>workSpec := workSpec desired\<rparr>),
     opEqual = (\<lambda>current desired. manifestWorkSpecsEqual L (workSpec current) (workSpec desired))\<rparr>"

definition childMatches :: "('e, 't) childClient \<Rightarrow> 't \<Rightarrow> 't \<Rightarrow> 't childSpecOps \<Rightarrow> bool" where
  "childMatches cc current desired ops \<longleftrightarrow>
     omLabels (ccMeta cc current) = omLabels (ccMeta cc desired) \<and>
     omAnnotations (ccMeta cc current) = omAnnotations (ccMeta cc desired) \<and>
     opEqual ops current desired"

section \<open>ensureChild\<close>

definition conflictError :: "string \<Rightarrow> key \<Rightarrow> go_error" where
  "conflictError kind k = ErrWrapped [] ErrChildConflict
     ('': '' @ kind @ '' '' @ fst k @ ''/'' @ snd k @ '' is not owned by this set'')"

text \<open>\<^verbatim>\<open>SetLabels\<close>, \<^verbatim>\<open>SetAnnotations\<close> and the spec, as patched onto the current object.\<close>

definition patchedChild :: "('e, 't) childClient \<Rightarrow> 't \<Rightarrow> 't \<Rightarrow> 't childSpecOps \<Rightarrow> 't" where
  "patchedChild cc current desired ops =
     opApply ops (ccSetMeta cc ((ccMeta cc current)\<lparr>omLabels := omLabels (ccMeta cc desired),
       omAnnotations := omAnnotations (ccMeta cc desired)\<rparr>) current) desired"

definition ensureChild ::
  "lib \<Rightarrow> ('e, 't) childClient \<Rightarrow> replicaSet \<Rightarrow> 't \<Rightarrow> 't childSpecOps \<Rightarrow> ('e, go_error + 't) prog" where
  "ensureChild L cc rs desired ops = do {
     r \<leftarrow> ccGet cc (objectKey (ccMeta cc desired));
     case r of
       Inl err \<Rightarrow> if isNotFound err then ccCreate cc desired else return (Inl err)
     | Inr current \<Rightarrow>
         if \<not> ownedBySet L rs (omLabels (ccMeta cc current))
         then return (Inl (conflictError (ccKindName cc desired) (objectKey (ccMeta cc current))))
         else if childMatches cc current desired ops then return (Inr current)
         else ccPatch cc current (patchedChild cc current desired ops)
   }"

section \<open>The children of a cluster\<close>

definition buildManagedServiceAccount :: "lib \<Rightarrow> replicaSet \<Rightarrow> string \<Rightarrow> string \<Rightarrow> managedServiceAccount" where
  "buildManagedServiceAccount L rs clusterName placementRefName =
     (let rotation = tsRotation (setTemplateSpec rs);
          validity = (case rotValidity rotation of None \<Rightarrow> defaultTokenValidity | Some v \<Rightarrow> v)
      in \<lparr>msaType = \<lparr>tyAPIVersion = c_msaGroupVersion L, tyKind = ''ManagedServiceAccount''\<rparr>,
          msaMeta = objectMeta_zero\<lparr>omName := tmName (setTemplateMetadata rs), omNamespace := clusterName,
            omLabels := childLabels L rs placementRefName (tmLabels (setTemplateMetadata rs)),
            omAnnotations := childAnnotations L rs (tmAnnotations (setTemplateMetadata rs))\<rparr>,
          msaSpecOf = \<lparr>msRotationEnabled = (case rotEnabled rotation of None \<Rightarrow> True | Some b \<Rightarrow> b),
            msRotationValidity = validity,
            msTTLSecondsAfterCreation = tsTTLSecondsAfterCreation (setTemplateSpec rs)\<rparr>,
          msaConditions = []\<rparr>)"

definition ensureManagedServiceAccount ::
  "'e reconciler \<Rightarrow> replicaSet \<Rightarrow> string \<Rightarrow> string \<Rightarrow> ('e, go_error + managedServiceAccount) prog" where
  "ensureManagedServiceAccount R rs clusterName placementRefName =
     ensureChild (rLib R) (msaClient R) rs (buildManagedServiceAccount (rLib R) rs clusterName placementRefName) msaSpecOps"

definition ensureControllerAccessManagedServiceAccount ::
  "'e reconciler \<Rightarrow> replicaSet \<Rightarrow> string \<Rightarrow> string \<Rightarrow> ('e, go_error + managedServiceAccount) prog" where
  "ensureControllerAccessManagedServiceAccount R rs clusterName placementRefName =
     ensureChild (rLib R) (msaClient R) rs
       (buildControllerAccessManagedServiceAccount (rLib R) rs clusterName placementRefName) msaSpecOps"

definition ensureControllerAccessManifestWork ::
  "'e reconciler \<Rightarrow> replicaSet \<Rightarrow> string \<Rightarrow> string \<Rightarrow> ('e, go_error + manifestWork) prog" where
  "ensureControllerAccessManifestWork R rs clusterName placementRefName =
     ensureChild (rLib R) (workClient R) rs
       (buildControllerAccessManifestWork (rLib R) rs clusterName placementRefName) (manifestWorkSpecOps (rLib R))"

definition ensureManifestWork ::
  "'e reconciler \<Rightarrow> replicaSet \<Rightarrow> string \<Rightarrow> string \<Rightarrow> rbacSlice \<Rightarrow> ('e, go_error + manifestWork) prog" where
  "ensureManifestWork R rs clusterName placementRefName sl =
     ensureChild (rLib R) (workClient R) rs
       (buildManifestWork (rLib R) rs clusterName placementRefName sl) (manifestWorkSpecOps (rLib R))"

definition managedServiceAccountReady :: "lib \<Rightarrow> managedServiceAccount \<Rightarrow> bool" where
  "managedServiceAccountReady L msa \<longleftrightarrow>
     meta_IsStatusConditionTrue L (msaConditions msa) (c_TokenReported L) \<or>
     meta_IsStatusConditionTrue L (msaConditions msa) (c_SecretCreated L)"

section \<open>The write policy\<close>

fun childConditions :: "child \<Rightarrow> condition list" where
  "childConditions (MSA m) = msaConditions m"
| "childConditions (Work w) = workConditions w"

text \<open>A patch keeps everything but labels, annotations and spec; in particular the status.\<close>

definition onlyLabelsAnnotationsSpec :: "child \<Rightarrow> child \<Rightarrow> bool" where
  "onlyLabelsAnnotationsSpec base new \<longleftrightarrow> kindOf new = kindOf base \<and>
     childConditions new = childConditions base \<and>
     (childMeta new)\<lparr>omLabels := fmempty, omAnnotations := fmempty\<rparr> =
     (childMeta base)\<lparr>omLabels := fmempty, omAnnotations := fmempty\<rparr>"

definition withFinalizers :: "replicaSet \<Rightarrow> string list \<Rightarrow> replicaSet" where
  "withFinalizers rs fs = rs\<lparr>setMeta := (setMeta rs)\<lparr>omFinalizers := fs\<rparr>\<rparr>"

text \<open>Two children that agree in labels, annotations and spec, the manifests compared as JSON values.\<close>

fun sameChild :: "lib \<Rightarrow> child \<Rightarrow> child \<Rightarrow> bool" where
  "sameChild L (MSA a) (MSA b) = (omLabels (msaMeta a) = omLabels (msaMeta b) \<and> omAnnotations (msaMeta a) = omAnnotations (msaMeta b) \<and>
     msaSpecOf a = msaSpecOf b)"
| "sameChild L (Work a) (Work b) = (omLabels (workMeta a) = omLabels (workMeta b) \<and> omAnnotations (workMeta a) = omAnnotations (workMeta b) \<and>
     manifestWorkSpecsEqual L (workSpec a) (workSpec b))"
| "sameChild L _ _ = False"

text \<open>
  What a reconciliation of \<open>rs\<close> may write, given the calls before. A child is created only after
  a read said it does not exist, patched only as read and owned and only when that changes it,
  deleted only as listed under the ownership selector; what is written is owned by the set. Of the set itself the controller
  adds its finalizer while the set is live; removes it while the set is being deleted, once a
  list of ManifestWorks and a list of ManagedServiceAccounts came back empty; or patches a
  status that differs, and nothing else.
\<close>

fun writeOK :: "lib \<Rightarrow> replicaSet \<Rightarrow> api_event set \<Rightarrow> api_event \<Rightarrow> bool" where
  "writeOK L rs before (CreateChild c r) =
     (ownedBySet L rs (omLabels (childMeta c)) \<and>
      (\<exists>e. GetChild (kindOf c) (objectKey (childMeta c)) (Inl e) \<in> before \<and> isNotFound e))"
| "writeOK L rs before (PatchChild base new r) =
     (ownedBySet L rs (omLabels (childMeta base)) \<and> ownedBySet L rs (omLabels (childMeta new)) \<and>
      onlyLabelsAnnotationsSpec base new \<and> \<not> sameChild L base new \<and>
      (\<exists>k. GetChild (kindOf base) k (Inr base) \<in> before))"
| "writeOK L rs before (DeleteChild c r) =
     (\<exists>items. ListChildren (kindOf c) (ownedSelector rs) (Inr items) \<in> before \<and> c \<in> set items)"
| "writeOK L rs before (PatchSet base new r) =
     (if deletionTimestamp_IsZero (setMeta base)
      then finalizerName \<notin> set (omFinalizers (setMeta base)) \<and>
           new = withFinalizers base (omFinalizers (setMeta base) @ [finalizerName])
      else finalizerName \<in> set (omFinalizers (setMeta base)) \<and>
           new = withFinalizers base (filter (\<lambda>f. f \<noteq> finalizerName) (omFinalizers (setMeta base))) \<and>
           ListChildren WorkKind (ownedSelector rs) (Inr []) \<in> before \<and>
           ListChildren MSAKind (ownedSelector rs) (Inr []) \<in> before)"
| "writeOK L rs before (PatchSetStatus base new r) =
     (new = base\<lparr>setStatus := setStatus new\<rparr> \<and> setStatus new \<noteq> setStatus base)"
| "writeOK L rs before _ = True"

interpretation own: trace_policy "writeOK L rs" for L rs
proof unfold_locales
  fix A B e
  assume "A \<subseteq> B" and ok: "writeOK L rs A e"
  then show "writeOK L rs B e" by (cases e) (auto split: if_splits)
qed

section \<open>ensureChild, branch by branch\<close>

text \<open>What ensuring a child does: the calls, with their answers, and the result.\<close>

inductive ensureOutcome ::
  "lib \<Rightarrow> ('e, 't) childClient \<Rightarrow> ('t \<Rightarrow> child) \<Rightarrow> childKind \<Rightarrow> replicaSet \<Rightarrow> 't \<Rightarrow> 't childSpecOps
    \<Rightarrow> go_error + 't \<Rightarrow> api_event list \<Rightarrow> bool"
  for L cc mk kind rs desired ops where
  get_failed: "\<not> isNotFound err \<Longrightarrow> ensureOutcome L cc mk kind rs desired ops (Inl err)
     [GetChild kind (objectKey (ccMeta cc desired)) (Inl err)]"
| created: "isNotFound err \<Longrightarrow> ensureOutcome L cc mk kind rs desired ops r
     [GetChild kind (objectKey (ccMeta cc desired)) (Inl err), CreateChild (mk desired) (map_sum id mk r)]"
| conflict: "\<not> ownedBySet L rs (omLabels (ccMeta cc current)) \<Longrightarrow>
     ensureOutcome L cc mk kind rs desired ops
       (Inl (conflictError (ccKindName cc desired) (objectKey (ccMeta cc current))))
       [GetChild kind (objectKey (ccMeta cc desired)) (Inr (mk current))]"
| unchanged: "ownedBySet L rs (omLabels (ccMeta cc current)) \<Longrightarrow> childMatches cc current desired ops \<Longrightarrow>
     ensureOutcome L cc mk kind rs desired ops (Inr current)
       [GetChild kind (objectKey (ccMeta cc desired)) (Inr (mk current))]"
| patched: "ownedBySet L rs (omLabels (ccMeta cc current)) \<Longrightarrow> \<not> childMatches cc current desired ops \<Longrightarrow>
     ensureOutcome L cc mk kind rs desired ops r
       [GetChild kind (objectKey (ccMeta cc desired)) (Inr (mk current)),
        PatchChild (mk current) (mk (patchedChild cc current desired ops)) (map_sum id mk r)]"

inductive_cases ensureOutcomeE: "ensureOutcome L cc mk kind rs desired ops r es"

locale child_client =
  fixes cc :: "('e, 't) childClient" and mk :: "'t \<Rightarrow> child" and kind :: childKind
  assumes get_emits: "emits (ccGet cc k) (\<lambda>r es. es = [GetChild kind k (map_sum id mk r)])"
    and create_emits: "emits (ccCreate cc d) (\<lambda>r es. es = [CreateChild (mk d) (map_sum id mk r)])"
    and patch_emits: "emits (ccPatch cc b d) (\<lambda>r es. es = [PatchChild (mk b) (mk d) (map_sum id mk r)])"
    and mk_meta: "childMeta (mk x) = ccMeta cc x"
    and mk_kind: "kindOf (mk x) = kind"
    and meta_set: "ccMeta cc (ccSetMeta cc m x) = m"
    and conditions_set: "childConditions (mk (ccSetMeta cc m x)) = childConditions (mk x)"
begin

lemma ensureChild_emits:
  "emits (ensureChild L cc rs desired ops) (\<lambda>r es. ensureOutcome L cc mk kind rs desired ops r es)"
  unfolding ensureChild_def
proof (rule emits_bind [OF get_emits])
  fix a es
  assume es: "es = [GetChild kind (objectKey (ccMeta cc desired)) (map_sum id mk a)]"
  show "emits (case a of
        Inl err \<Rightarrow> if isNotFound err then ccCreate cc desired else return (Inl err)
      | Inr current \<Rightarrow>
         if \<not> ownedBySet L rs (omLabels (ccMeta cc current))
         then return (Inl (conflictError (ccKindName cc desired) (objectKey (ccMeta cc current))))
         else if childMatches cc current desired ops then return (Inr current)
         else ccPatch cc current (patchedChild cc current desired ops))
      (\<lambda>r es'. ensureOutcome L cc mk kind rs desired ops r (es @ es'))"
    by (cases a)
      (auto simp: es intro!: emits_return ensureOutcome.intros emits_weaken [OF create_emits]
        emits_weaken [OF patch_emits])
qed

lemma onlyLabelsAnnotationsSpec_patched:
  assumes apply_meta: "\<And>x d. ccMeta cc (opApply ops x d) = ccMeta cc x"
    and apply_conditions: "\<And>x d. childConditions (mk (opApply ops x d)) = childConditions (mk x)"
  shows "onlyLabelsAnnotationsSpec (mk x) (mk (patchedChild cc x desired ops))"
  by (simp add: onlyLabelsAnnotationsSpec_def mk_kind mk_meta patchedChild_def assms meta_set conditions_set)

lemma ensureChild_complies:
  assumes owned: "ownedBySet L rs (omLabels (ccMeta cc desired))"
    and apply_meta: "\<And>x d. ccMeta cc (opApply ops x d) = ccMeta cc x"
    and apply_conditions: "\<And>x d. childConditions (mk (opApply ops x d)) = childConditions (mk x)"
    and apply_same: "\<And>x d. sameChild L (mk x) (mk (patchedChild cc x d ops)) = childMatches cc x d ops"
  shows "own.complies L rs (ensureChild L cc rs desired ops)"
  unfolding own.complies_emits
proof (rule emits_weaken [OF ensureChild_emits])
  fix r es
  assume "ensureOutcome L cc mk kind rs desired ops r es"
  then show "justified (writeOK L rs) {} es"
    by cases (auto simp: mk_meta mk_kind owned patchedChild_def apply_meta meta_set apply_same [unfolded patchedChild_def]
        onlyLabelsAnnotationsSpec_patched [OF assms(2,3), unfolded patchedChild_def])
qed

end

interpretation msa: child_client "msaClient R" MSA MSAKind for R :: "'e reconciler"
  by unfold_locales (auto simp: msaClient_def intro: emits_call)

interpretation work: child_client "workClient R" Work WorkKind for R :: "'e reconciler"
  by unfold_locales (auto simp: workClient_def intro: emits_call)

lemma client_simps [simp]:
  "ccMeta (msaClient R) = msaMeta" "ccMeta (workClient R) = workMeta"
  by (simp_all add: msaClient_def workClient_def)

lemma opApply_simps [simp]:
  "msaMeta (opApply msaSpecOps m d) = msaMeta m" "msaConditions (opApply msaSpecOps m d) = msaConditions m"
  "workMeta (opApply (manifestWorkSpecOps L) w v) = workMeta w"
  "workConditions (opApply (manifestWorkSpecOps L) w v) = workConditions w"
  by (simp_all add: msaSpecOps_def manifestWorkSpecOps_def)

text \<open>A patch changes the child exactly when the child did not match.\<close>

lemma sameChild_patched [simp]:
  "sameChild L (MSA m) (MSA (patchedChild (msaClient R) m d msaSpecOps)) = childMatches (msaClient R) m d msaSpecOps"
  "sameChild L (Work w) (Work (patchedChild (workClient R) w v (manifestWorkSpecOps L))) =
     childMatches (workClient R) w v (manifestWorkSpecOps L)"
  by (simp_all add: patchedChild_def childMatches_def msaSpecOps_def manifestWorkSpecOps_def msaClient_def workClient_def)

section \<open>Comparing specs through JSON\<close>

text \<open>The JSON value of a manifest, when its bytes decode.\<close>

definition manifestValue :: "lib \<Rightarrow> manifest \<Rightarrow> json option" where
  "manifestValue L m = (case rawExtensionJSON L m of None \<Rightarrow> None
     | Some b \<Rightarrow> if b = [] then None else json_Unmarshal L b)"

lemma rawExtensionsEqual_value:
  assumes "manifestValue L a = Some x" "manifestValue L b = Some y"
  shows "rawExtensionsEqual L a b \<longleftrightarrow> x = y"
  using assms by (auto simp: manifestValue_def rawExtensionsEqual_def split: option.splits if_splits)

lemma list_all2_rawExtensionsEqual:
  assumes "\<forall>m \<in> set as \<union> set bs. manifestValue L m \<noteq> None"
  shows "list_all2 (rawExtensionsEqual L) as bs \<longleftrightarrow> map (manifestValue L) as = map (manifestValue L) bs"
  using assms
proof (induction as arbitrary: bs)
  case (Cons a as)
  show ?case
  proof (cases bs)
    case bs: (Cons b bs')
    from Cons.prems obtain x y where "manifestValue L a = Some x" "manifestValue L b = Some y" by (auto simp: bs)
    with Cons.IH [of bs'] Cons.prems show ?thesis by (simp add: bs rawExtensionsEqual_value)
  qed simp
qed simp

section \<open>Properties\<close>

text \<open>
  C32: Comparing ManifestWork specs is comparing JSON values. For specs whose manifests decode,
  \<^verbatim>\<open>manifestWorkSpecsEqual\<close> holds exactly when everything but the manifests is equal and the
  manifests have the same JSON values in the same order, whether each is kept as bytes or as an
  object: the byte-equality fast path changes nothing.
\<close>

theorem manifestWorkSpecsEqual_json:
  assumes "\<forall>m \<in> set (mwManifests current) \<union> set (mwManifests desired). manifestValue L m \<noteq> None"
  shows "manifestWorkSpecsEqual L current desired \<longleftrightarrow>
    current\<lparr>mwManifests := []\<rparr> = desired\<lparr>mwManifests := []\<rparr> \<and>
    map (manifestValue L) (mwManifests current) = map (manifestValue L) (mwManifests desired)"
  using list_all2_rawExtensionsEqual [OF assms]
  by (auto simp: manifestWorkSpecsEqual_def dest: map_eq_imp_length_eq)

theorem manifestWorkSpecsEqual_json_witness:
  "let ob = ClusterRole (rbacType ref_lib ''ClusterRole'') objectMeta_zero [];
       spec = (\<lambda>m. \<lparr>mwDeletePropagation = None, mwManifests = [m], mwOther = []\<rparr>)
   in manifestWorkSpecsEqual ref_lib (spec \<lparr>mfRaw = ''ClusterRole/'', mfObject = None\<rparr>) (spec (rawManifest ob)) \<and>
      \<not> manifestWorkSpecsEqual ref_lib (spec \<lparr>mfRaw = ''Role/'', mfObject = None\<rparr>) (spec (rawManifest ob))"
proof -
  let ?ob = "ClusterRole (rbacType ref_lib ''ClusterRole'') objectMeta_zero []"
  have val: "manifestValue ref_lib (rawManifest ?ob) = Some (JStr ''ClusterRole/'')"
    "b \<noteq> [] \<Longrightarrow> manifestValue ref_lib \<lparr>mfRaw = b, mfObject = None\<rparr> = Some (JStr b)" for b
    by (simp_all add: manifestValue_def rawExtensionJSON_def rawManifest_def ref_lib_def objectMeta_zero_def)
  show ?thesis unfolding Let_def by (subst (1 2) manifestWorkSpecsEqual_json) (simp_all add: val)
qed

text \<open>
  What the template asks of an account: labels and annotations, rotation on unless it is turned off, 360 days of
  validity unless another is given, and the time to live.
\<close>

definition accountAsWanted :: "lib \<Rightarrow> replicaSet \<Rightarrow> string \<Rightarrow> managedServiceAccount \<Rightarrow> bool" where
  "accountAsWanted L rs ref m \<longleftrightarrow>
     omLabels (msaMeta m) = childLabels L rs ref (tmLabels (setTemplateMetadata rs)) \<and>
     omAnnotations (msaMeta m) = childAnnotations L rs (tmAnnotations (setTemplateMetadata rs)) \<and>
     (msRotationEnabled (msaSpecOf m) \<longleftrightarrow> rotEnabled (tsRotation (setTemplateSpec rs)) \<noteq> Some False) \<and>
     (\<forall>v. rotValidity (tsRotation (setTemplateSpec rs)) = Some v \<longrightarrow> msRotationValidity (msaSpecOf m) = v) \<and>
     (rotValidity (tsRotation (setTemplateSpec rs)) = None \<longrightarrow> msRotationValidity (msaSpecOf m) = 360 * 24 * 3600 * 1000000000) \<and>
     msTTLSecondsAfterCreation (msaSpecOf m) = tsTTLSecondsAfterCreation (setTemplateSpec rs)"

lemma buildManagedServiceAccount_wanted:
  "accountAsWanted L rs ref (buildManagedServiceAccount L rs c ref)"
  "objectKey (msaMeta (buildManagedServiceAccount L rs c ref)) = (c, tmName (setTemplateMetadata rs))"
  "tyKind (msaType (buildManagedServiceAccount L rs c ref)) = ''ManagedServiceAccount''"
  by (simp_all add: accountAsWanted_def buildManagedServiceAccount_def Let_def defaultTokenValidity_def split: option.split)

lemma childMatches_wanted:
  "childMatches (msaClient R) x (buildManagedServiceAccount L rs c ref) msaSpecOps \<longleftrightarrow> accountAsWanted L rs ref x"
  by (cases "msaSpecOf x") (auto simp: childMatches_def msaSpecOps_def accountAsWanted_def buildManagedServiceAccount_def Let_def
      defaultTokenValidity_def split: option.splits)

text \<open>
  C14: What ensuring an account does, call by call, on every answer. It reads the account of the template's name in the
  cluster's namespace. If the read fails for another reason than that there is none, nothing is written
  and that is the error. If there is none, an account as the template asks for is created. If it belongs to
  another owner, nothing is written and the error is a conflict that names the object. If it is as the
  template asks for, nothing is written and it is returned. Otherwise it is patched: the labels, annotations
  and spec become what the template asks for, and nothing else of the object changes. A create or patch gives
  its answer as the result.
\<close>

theorem ensureManagedServiceAccount_outcome:
  assumes "run_state (ensureManagedServiceAccount R rs c ref) w = (r, w')" "k = (c, tmName (setTemplateMetadata rs))"
  shows "\<exists>a es. trace w' = trace w @ GetChild MSAKind k (map_sum id MSA a) # es \<and> (case a of
      Inl e \<Rightarrow> if isNotFound e
        then \<exists>d. es = [CreateChild (MSA d) (map_sum id MSA r)] \<and> objectKey (msaMeta d) = k \<and> accountAsWanted (rLib R) rs ref d
        else es = [] \<and> r = Inl e
    | Inr x \<Rightarrow> if \<not> ownedBySet (rLib R) rs (omLabels (msaMeta x))
        then es = [] \<and> (\<exists>e. r = Inl e \<and> isChildConflict e \<and> error_text e =
          ''generated child conflicts with an existing object: ManagedServiceAccount '' @ omNamespace (msaMeta x) @ ''/'' @
          omName (msaMeta x) @ '' is not owned by this set'')
        else if accountAsWanted (rLib R) rs ref x then es = [] \<and> r = Inr x
        else \<exists>d lbls annotations spec. es = [PatchChild (MSA x) (MSA d) (map_sum id MSA r)] \<and> accountAsWanted (rLib R) rs ref d \<and>
          d = x\<lparr>msaMeta := (msaMeta x)\<lparr>omLabels := lbls, omAnnotations := annotations\<rparr>, msaSpecOf := spec\<rparr>)"
proof -
  let ?d = "buildManagedServiceAccount (rLib R) rs c ref"
  obtain es where es: "trace w' = trace w @ es" "ensureOutcome (rLib R) (msaClient R) MSA MSAKind rs ?d msaSpecOps r es"
    using msa.ensureChild_emits assms(1) unfolding ensureManagedServiceAccount_def by (rule emitsD)
  note built = buildManagedServiceAccount_wanted [where L = "rLib R" and rs = rs and c = c and ref = ref]
  from es(2) show ?thesis
  proof (cases rule: ensureOutcome.cases)
    case (get_failed err)
    with es(1) assms(2) built(2) show ?thesis by (intro exI [of _ "Inl err"] exI [of _ "[]"]) simp
  next
    case (created err)
    with es(1) assms(2) built show ?thesis by (intro exI [of _ "Inl err"] exI [of _ "[CreateChild (MSA ?d) (map_sum id MSA r)]"]) simp
  next
    case (conflict x)
    have "ccKindName (msaClient R) ?d = ''ManagedServiceAccount''" using built(3) by (simp add: msaClient_def)
    with conflict es(1) assms(2) built(2) show ?thesis
      by (intro exI [of _ "Inr x"] exI [of _ "[]"]) (simp add: conflictError_def)
  next
    case (unchanged x)
    with es(1) assms(2) built(2) show ?thesis
      by (intro exI [of _ "Inr x"] exI [of _ "[]"]) (simp add: childMatches_wanted)
  next
    case (patched x)
    let ?new = "patchedChild (msaClient R) x ?d msaSpecOps"
    have "accountAsWanted (rLib R) rs ref ?new"
      using built(1) by (simp add: accountAsWanted_def patchedChild_def msaSpecOps_def msaClient_def)
    moreover have "?new = x\<lparr>msaMeta := (msaMeta x)\<lparr>omLabels := omLabels (msaMeta ?d), omAnnotations := omAnnotations (msaMeta ?d)\<rparr>,
        msaSpecOf := msaSpecOf ?d\<rparr>"
      by (simp add: patchedChild_def msaSpecOps_def msaClient_def)
    ultimately show ?thesis
      using patched es(1) assms(2) built(2)
      by (intro exI [of _ "Inr x"] exI [of _ "[PatchChild (MSA x) (MSA ?new) (map_sum id MSA r)]"]) (simp add: childMatches_wanted, blast)
  qed
qed

text \<open>An account of the set whose rotation somebody turned off.\<close>

definition unrotated :: managedServiceAccount where
  "unrotated = (buildManagedServiceAccount ref_lib sampleSet ''c1'' ''all'')\<lparr>msaSpecOf :=
     \<lparr>msRotationEnabled = False, msRotationValidity = 1, msTTLSecondsAfterCreation = None\<rparr>\<rparr>"

lemma unrotated_simps:
  "omNamespace (msaMeta unrotated) = ''c1''" "omName (msaMeta unrotated) = ''viewer-account''"
  "ownedBySet ref_lib sampleSet (omLabels (msaMeta unrotated))" "\<not> accountAsWanted ref_lib sampleSet ''all'' unrotated"
  using buildManagedServiceAccount_wanted(2) [of ref_lib sampleSet "''c1''" "''all''"] buildManagedServiceAccount_wanted(1) [of ref_lib sampleSet "''all''"]
    ref.childLabels_owned [of sampleSet "''all''"]
  by (simp_all add: unrotated_def accountAsWanted_def) (simp add: sampleSet_def sampleSpec_def)

theorem ensureManagedServiceAccount_outcome_witness:
  "let w = sampleWorld (emptyHub\<lparr>hubMSAs := [unrotated]\<rparr>)
   in \<exists>d r. trace (snd (run_state (ensureManagedServiceAccount (hubReconciler ref_lib) sampleSet ''c1'' ''all'') w)) =
     [GetChild MSAKind (''c1'', ''viewer-account'') (Inr (MSA unrotated)), PatchChild (MSA unrotated) (MSA d) r] \<and>
     accountAsWanted ref_lib sampleSet ''all'' d"
proof -
  let ?w = "sampleWorld (emptyHub\<lparr>hubMSAs := [unrotated]\<rparr>)" and ?m = "ensureManagedServiceAccount (hubReconciler ref_lib) sampleSet ''c1'' ''all''"
  let ?get = "GetChild MSAKind (''c1'', ''viewer-account'') (Inr (MSA unrotated))"
  obtain r w' where run: "run_state ?m ?w = (r, w')" by (cases "run_state ?m ?w") auto
  have key: "objectKey (msaMeta (buildManagedServiceAccount ref_lib sampleSet ''c1'' ''all'')) = (''c1'', ''viewer-account'')"
    using buildManagedServiceAccount_wanted(2) [of ref_lib sampleSet "''c1''" "''all''"] by simp
  have get: "run_state (ccGet (msaClient (hubReconciler ref_lib)) (''c1'', ''viewer-account'')) ?w = (Inr unrotated, ?w\<lparr>trace := [?get]\<rparr>)"
    by (simp add: msaClient_def call_def hubServer_def hubGet_def hubFind_def sampleWorld_def emptyHub_def unrotated_simps)
  have "\<exists>fs. trace w' = ?get # fs"
    using run unfolding ensureManagedServiceAccount_def ensureChild_def
    by (simp add: key get unrotated_simps childMatches_wanted) (auto simp: msaClient_def call_def split: prod.splits)
  then obtain fs where fs: "trace w' = ?get # fs" by blast
  from ensureManagedServiceAccount_outcome [OF run refl] show ?thesis
  proof (elim exE conjE, goal_cases)
    case (1 a es)
    with fs have "a = Inr unrotated" "es = fs" by (cases a; simp add: sampleWorld_def)+
    with 1(2) obtain d where "fs = [PatchChild (MSA unrotated) (MSA d) (map_sum id MSA r)]" "accountAsWanted ref_lib sampleSet ''all'' d"
      by (auto simp: unrotated_simps)
    with fs run show ?case by auto
  qed
qed

end
