(* ===== verification/Status.thy ===== *)
theory Status
  imports Children
begin

text \<open>
  The status of a ManagedServiceAccountReplicaSet
  (\<^verbatim>\<open>managedserviceaccountreplicaset_controller.go\<close>): condition types, reasons and messages,
  \<^verbatim>\<open>setCondition\<close>, the conditions of an early return and of a child reconciliation, and the
  status patch. The lemmas read a condition list through \<open>condView\<close>, the part of a condition
  the controller decides, and say for every list of errors which conditions result, with their reasons.
\<close>

section \<open>Condition types, reasons and messages\<close>

definition conditionPlacementResolved :: string where
  "conditionPlacementResolved = ''PlacementResolved''"

definition conditionManagedServiceAccountsReady :: string where
  "conditionManagedServiceAccountsReady = ''ManagedServiceAccountsReady''"

definition conditionRemotePermissionsApplied :: string where
  "conditionRemotePermissionsApplied = ''RemotePermissionsApplied''"

definition conditionCleanupBlocked :: string where
  "conditionCleanupBlocked = ''CleanupBlocked''"

definition conditionReady :: string where
  "conditionReady = ''Ready''"

definition conditionPlacementRolledOut :: string where
  "conditionPlacementRolledOut = ''PlacementRolledOut''"

definition conditionPlacementEmpty :: string where
  "conditionPlacementEmpty = ''PlacementEmpty''"

definition conditionProgressing :: string where
  "conditionProgressing = ''Progressing''"

lemmas condition_types = conditionPlacementResolved_def conditionManagedServiceAccountsReady_def
  conditionRemotePermissionsApplied_def conditionCleanupBlocked_def conditionReady_def
  conditionPlacementRolledOut_def conditionPlacementEmpty_def conditionProgressing_def

definition reasonInvalidSpec :: string where
  "reasonInvalidSpec = ''InvalidSpec''"

definition reasonPlacementUnavailable :: string where
  "reasonPlacementUnavailable = ''PlacementUnavailable''"

definition reasonResolved :: string where
  "reasonResolved = ''AsExpected''"

definition reasonNoDecisions :: string where
  "reasonNoDecisions = ''NoDecisions''"

definition reasonApplyFailed :: string where
  "reasonApplyFailed = ''ApplyFailed''"

definition reasonChildConflict :: string where
  "reasonChildConflict = ''ChildConflict''"

definition reasonClusterFailed :: string where
  "reasonClusterFailed = ''ClusterFailed''"

definition reasonWaitingForCredentials :: string where
  "reasonWaitingForCredentials = ''WaitingForCredentials''"

definition reasonWaitingForRBAC :: string where
  "reasonWaitingForRBAC = ''WaitingForRBAC''"

definition reasonReady :: string where
  "reasonReady = ''Ready''"

definition reasonProgressing :: string where
  "reasonProgressing = ''Progressing''"

definition reasonCompleted :: string where
  "reasonCompleted = ''Completed''"

definition reasonComplete :: string where
  "reasonComplete = ''Complete''"

definition reasonDisabled :: string where
  "reasonDisabled = ''Disabled''"

definition reasonApplied :: string where
  "reasonApplied = ''Applied''"

definition reasonNotDeleting :: string where
  "reasonNotDeleting = ''NotDeleting''"

definition reasonWaitingForOCMCleanup :: string where
  "reasonWaitingForOCMCleanup = ''WaitingForOCMCleanup''"

definition reasonCleanupBlocked :: string where
  "reasonCleanupBlocked = ''CleanupBlocked''"

definition msgChildConflict :: string where
  "msgChildConflict = ''one or more generated children conflict with existing objects''"

definition msgClusterFailed :: string where
  "msgClusterFailed = ''one or more selected clusters could not be reconciled''"

definition msgWaitingForCredentials :: string where
  "msgWaitingForCredentials = ''generated ManagedServiceAccounts are not ready on every selected cluster''"

definition msgWaitingForRBAC :: string where
  "msgWaitingForRBAC = ''generated RBAC ManifestWorks are not available on every selected cluster''"

definition msgStaleCleanupBlocked :: string where
  "msgStaleCleanupBlocked = ''waiting for stale ManifestWork cleanup before deleting stale ManagedServiceAccounts''"

definition msgStaleCleanupInProgress :: string where
  "msgStaleCleanupInProgress = ''stale child cleanup is still in progress''"

text \<open>Intervals, in nanoseconds.\<close>

definition cleanupRequeueInterval :: int where
  "cleanupRequeueInterval = 10 * 1000000000"

definition selectorRequeueInterval :: int where
  "selectorRequeueInterval = 30 * 1000000000"

section \<open>Setting conditions\<close>

definition setCondition ::
  "lib \<Rightarrow> condition list \<Rightarrow> string \<Rightarrow> conditionStatus \<Rightarrow> string \<Rightarrow> string \<Rightarrow> int \<Rightarrow> condition list" where
  "setCondition L conditions conditionType status reason message generation =
     meta_SetStatusCondition L conditions \<lparr>cType = conditionType, cStatus = status,
       cObservedGeneration = generation, cLastTransitionTime = 0, cReason = reason, cMessage = message\<rparr>"

text \<open>\<^verbatim>\<open>setCondition(&status.Conditions, ...)\<close>.\<close>

definition setStatusCond ::
  "lib \<Rightarrow> string \<Rightarrow> conditionStatus \<Rightarrow> string \<Rightarrow> string \<Rightarrow> int \<Rightarrow> replicaSetStatus \<Rightarrow> replicaSetStatus" where
  "setStatusCond L t s reason message generation status =
     status\<lparr>stConditions := setCondition L (stConditions status) t s reason message generation\<rparr>"

definition newStatus :: "replicaSet \<Rightarrow> replicaSetStatus" where
  "newStatus rs = \<lparr>stObservedGeneration = stObservedGeneration (setStatus rs), stSelectedClusterCount = 0,
     stReadyClusterCount = 0, stSummary = None, stRollout = None, stControllerAccess = None,
     stPlacements = [], stConditions = stConditions (setStatus rs)\<rparr>"

definition setNotDeletingCondition :: "lib \<Rightarrow> int \<Rightarrow> replicaSetStatus \<Rightarrow> replicaSetStatus" where
  "setNotDeletingCondition L generation status =
     setStatusCond L conditionCleanupBlocked ConditionFalse reasonNotDeleting ''cleanup is not active'' generation status"

definition setEarlyReturnConditions :: "lib \<Rightarrow> string \<Rightarrow> string \<Rightarrow> int \<Rightarrow> replicaSetStatus \<Rightarrow> replicaSetStatus" where
  "setEarlyReturnConditions L reason msg generation status =
     setNotDeletingCondition L generation
       (fold (\<lambda>t st. setStatusCond L t ConditionFalse reason msg generation st)
          [conditionPlacementResolved, conditionManagedServiceAccountsReady,
           conditionRemotePermissionsApplied, conditionPlacementRolledOut, conditionReady] status)"

text \<open>The set after the call and the error: a failed patch leaves the new status on the in-memory object.\<close>

definition patchStatus :: "'e reconciler \<Rightarrow> replicaSet \<Rightarrow> replicaSetStatus \<Rightarrow> ('e, replicaSet \<times> go_error option) prog" where
  "patchStatus R rs status =
     (if setStatus rs = status then return (rs, None)
      else do {
        r \<leftarrow> patchSetStatus R rs (rs\<lparr>setStatus := status\<rparr>);
        case r of
          Inl err \<Rightarrow> return (rs\<lparr>setStatus := status\<rparr>, Some err)
        | Inr rs' \<Rightarrow> return (rs', None)
      })"

section \<open>The result of reconciling children\<close>

record childReconcileResult =
  crrReady :: int
  crrConflicts :: int
  crrFailures :: int
  crrCleanupPending :: bool
  crrErr :: "go_error option"

definition childReconcileResult_zero :: childReconcileResult where
  "childReconcileResult_zero =
     \<lparr>crrReady = 0, crrConflicts = 0, crrFailures = 0, crrCleanupPending = False, crrErr = None\<rparr>"

definition recordErr :: "go_error \<Rightarrow> childReconcileResult \<Rightarrow> childReconcileResult" where
  "recordErr err result =
     (if isChildConflict err then result\<lparr>crrConflicts := add32 (crrConflicts result) 1\<rparr>
      else result\<lparr>crrFailures := add32 (crrFailures result) 1,
                  crrErr := errors_Join [crrErr result, Some err]\<rparr>)"

definition summaryRBACPending :: "summary option \<Rightarrow> bool" where
  "summaryRBACPending s = (case s of None \<Rightarrow> False | Some x \<Rightarrow> suAvailable x < suDesiredTotal x)"

definition applyChildResultConditions ::
  "lib \<Rightarrow> childReconcileResult \<Rightarrow> nat \<Rightarrow> int \<Rightarrow> bool \<Rightarrow> replicaSetStatus \<Rightarrow> replicaSetStatus" where
  "applyChildResultConditions L result totalClusters generation remoteEnabled status =
     (let setBoth = (\<lambda>s reason msg st.
            setStatusCond L conditionReady s reason msg generation
              (setStatusCond L conditionManagedServiceAccountsReady s reason msg generation st));
          status1 =
            (case crrErr result of
               Some err \<Rightarrow> setBoth ConditionFalse reasonApplyFailed (error_text err) status
             | None \<Rightarrow>
                 if crrConflicts result > 0 then setBoth ConditionFalse reasonChildConflict msgChildConflict status
                 else if crrFailures result > 0 then setBoth ConditionFalse reasonClusterFailed msgClusterFailed status
                 else if crrReady result < int32 (int totalClusters) then
                   (if remoteEnabled \<and> summaryRBACPending (stSummary status)
                    then setBoth ConditionFalse reasonWaitingForRBAC msgWaitingForRBAC status
                    else setBoth ConditionFalse reasonWaitingForCredentials msgWaitingForCredentials status)
                 else setStatusCond L conditionReady ConditionTrue reasonReady
                        ''all selected clusters are reconciled'' generation
                        (setStatusCond L conditionManagedServiceAccountsReady ConditionTrue reasonReady
                          ''generated ManagedServiceAccounts are ready'' generation status))
      in if \<not> remoteEnabled then
           setStatusCond L conditionRemotePermissionsApplied ConditionTrue reasonDisabled
             ''remote permissions are disabled'' generation status1
         else if crrErr result \<noteq> None \<or> crrConflicts result > 0 \<or> crrFailures result > 0 then
           setStatusCond L conditionRemotePermissionsApplied ConditionFalse reasonApplyFailed
             ''remote permissions were not applied to every selected cluster'' generation status1
         else if summaryRBACPending (stSummary status1) then
           setStatusCond L conditionRemotePermissionsApplied ConditionFalse reasonWaitingForRBAC
             msgWaitingForRBAC generation status1
         else setStatusCond L conditionRemotePermissionsApplied ConditionTrue reasonApplied
             ''remote permissions were applied'' generation status1)"

section \<open>Reading conditions\<close>

text \<open>What the controller decides of a condition: status, reason, message and generation.\<close>

type_synonym condition_view = "conditionStatus \<times> string \<times> string \<times> int"

definition condView :: "lib \<Rightarrow> condition list \<Rightarrow> string \<Rightarrow> condition_view option" where
  "condView L cs t = map_option (\<lambda>c. (cStatus c, cReason c, cMessage c, cObservedGeneration c))
     (meta_FindStatusCondition L cs t)"

abbreviation statusView :: "lib \<Rightarrow> replicaSetStatus \<Rightarrow> string \<Rightarrow> condition_view option" where
  "statusView L st t \<equiv> condView L (stConditions st) t"

context condition_library
begin

lemma condView_setCondition:
  "condView L (setCondition L cs t s r m g) t' = (if t' = t then Some (s, r, m, g) else condView L cs t')"
proof (cases "t' = t")
  case True
  then show ?thesis
    using find_set_same [of cs "\<lparr>cType = t, cStatus = s, cObservedGeneration = g, cLastTransitionTime = 0,
        cReason = r, cMessage = m\<rparr>"]
    by (auto simp: condView_def setCondition_def)
next
  case False
  then show ?thesis by (simp add: condView_def setCondition_def find_set_other)
qed

lemma statusView_setStatusCond:
  "statusView L (setStatusCond L t s r m g st) t' = (if t' = t then Some (s, r, m, g) else statusView L st t')"
  by (simp add: setStatusCond_def condView_setCondition)

lemma setEarlyReturnConditions_view:
  "statusView L (setEarlyReturnConditions L reason msg g st) t =
     (if t = conditionCleanupBlocked then Some (ConditionFalse, reasonNotDeleting, ''cleanup is not active'', g)
      else if t \<in> {conditionPlacementResolved, conditionManagedServiceAccountsReady,
        conditionRemotePermissionsApplied, conditionPlacementRolledOut, conditionReady}
      then Some (ConditionFalse, reason, msg, g) else statusView L st t)"
  by (simp add: setEarlyReturnConditions_def setNotDeletingCondition_def statusView_setStatusCond)

end

lemma setStatusCond_other [simp]:
  "stSummary (setStatusCond L t s r m g st) = stSummary st"
  "stSelectedClusterCount (setStatusCond L t s r m g st) = stSelectedClusterCount st"
  "stReadyClusterCount (setStatusCond L t s r m g st) = stReadyClusterCount st"
  "stRollout (setStatusCond L t s r m g st) = stRollout st"
  "stPlacements (setStatusCond L t s r m g st) = stPlacements st"
  "stControllerAccess (setStatusCond L t s r m g st) = stControllerAccess st"
  "stObservedGeneration (setStatusCond L t s r m g st) = stObservedGeneration st"
  by (simp_all add: setStatusCond_def)

text \<open>The verdict on a child reconciliation: status and reason of Ready.\<close>

definition childResultVerdict :: "childReconcileResult \<Rightarrow> nat \<Rightarrow> bool \<Rightarrow> summary option \<Rightarrow> conditionStatus \<times> string" where
  "childResultVerdict result totalClusters remoteEnabled summ =
     (if crrErr result \<noteq> None then (ConditionFalse, reasonApplyFailed)
      else if crrConflicts result > 0 then (ConditionFalse, reasonChildConflict)
      else if crrFailures result > 0 then (ConditionFalse, reasonClusterFailed)
      else if crrReady result < int32 (int totalClusters) then
        (ConditionFalse, if remoteEnabled \<and> summaryRBACPending summ then reasonWaitingForRBAC
                         else reasonWaitingForCredentials)
      else (ConditionTrue, reasonReady))"

context condition_library
begin

lemma applyChildResultConditions_ready:
  assumes "t = conditionReady \<or> t = conditionManagedServiceAccountsReady"
  shows "\<exists>msg. statusView L (applyChildResultConditions L result totalClusters g remote st) t =
    Some (fst (childResultVerdict result totalClusters remote (stSummary st)),
          snd (childResultVerdict result totalClusters remote (stSummary st)), msg, g)"
  using assms
  by (auto simp: applyChildResultConditions_def Let_def statusView_setStatusCond childResultVerdict_def
      condition_types split: option.splits)

lemma applyChildResultConditions_remote:
  "\<exists>msg. statusView L (applyChildResultConditions L result totalClusters g remote st) conditionRemotePermissionsApplied =
    (if \<not> remote then Some (ConditionTrue, reasonDisabled, msg, g)
     else if crrErr result \<noteq> None \<or> crrConflicts result > 0 \<or> crrFailures result > 0
     then Some (ConditionFalse, reasonApplyFailed, msg, g)
     else if summaryRBACPending (stSummary st) then Some (ConditionFalse, reasonWaitingForRBAC, msg, g)
     else Some (ConditionTrue, reasonApplied, msg, g))"
  by (auto simp: applyChildResultConditions_def Let_def statusView_setStatusCond split: option.splits)

lemma applyChildResultConditions_other:
  assumes "t \<notin> {conditionReady, conditionManagedServiceAccountsReady, conditionRemotePermissionsApplied}"
  shows "statusView L (applyChildResultConditions L result totalClusters g remote st) t = statusView L st t"
  using assms
  by (auto simp: applyChildResultConditions_def Let_def statusView_setStatusCond split: option.splits)

end

lemma recordErr_simps [simp]:
  "crrReady (recordErr err result) = crrReady result"
  "crrCleanupPending (recordErr err result) = crrCleanupPending result"
  by (simp_all add: recordErr_def)

section \<open>Properties\<close>

text \<open>
  What the loop over the clusters leaves behind: the errors it recorded, one by one, the clusters it counted as
  ready, and the outcome of the cleanup that may follow.
\<close>

definition childOutcome :: "go_error list \<Rightarrow> int \<Rightarrow> bool \<Rightarrow> go_error option \<Rightarrow> childReconcileResult" where
  "childOutcome errs ready pending cleanup = (let r = fold recordErr errs childReconcileResult_zero in
     r\<lparr>crrReady := ready, crrCleanupPending := pending,
       crrErr := (case cleanup of None \<Rightarrow> crrErr r | Some e \<Rightarrow> errors_Join [crrErr r, Some e])\<rparr>)"

lemma recordErr_fold:
  assumes "crrConflicts r = int a" "crrFailures r = int b" "a + b + length errs < 2 ^ 31"
  shows "crrConflicts (fold recordErr errs r) = int (a + length (filter isChildConflict errs)) \<and>
    crrFailures (fold recordErr errs r) = int (b + length (filter (\<lambda>e. \<not> isChildConflict e) errs)) \<and>
    (crrErr (fold recordErr errs r) = None \<longleftrightarrow> crrErr r = None \<and> list_all isChildConflict errs)"
  using assms
proof (induction errs arbitrary: r a b)
  case (Cons e errs)
  show ?case
  proof (cases "isChildConflict e")
    case True
    with Cons.prems have "crrConflicts (recordErr e r) = int (Suc a)" "crrFailures (recordErr e r) = int b" "crrErr (recordErr e r) = crrErr r"
      using add32_of_nat [of a 1] by (simp_all add: recordErr_def)
    with Cons.IH [of "recordErr e r" "Suc a" b] Cons.prems(3) True show ?thesis by simp
  next
    case False
    with Cons.prems have "crrConflicts (recordErr e r) = int a" "crrFailures (recordErr e r) = int (Suc b)" "crrErr (recordErr e r) \<noteq> None"
      using add32_of_nat [of b 1] by (simp_all add: recordErr_def)
    with Cons.IH [of "recordErr e r" a "Suc b"] Cons.prems(3) False show ?thesis by simp
  qed
qed simp

lemma childOutcome_fields:
  assumes "length errs < 2 ^ 31"
  shows "crrErr (childOutcome errs ready pending cleanup) = None \<longleftrightarrow> list_all isChildConflict errs \<and> cleanup = None"
    "crrConflicts (childOutcome errs ready pending cleanup) > 0 \<longleftrightarrow> list_ex isChildConflict errs"
    "crrFailures (childOutcome errs ready pending cleanup) > 0 \<longleftrightarrow> \<not> list_all isChildConflict errs"
    "crrReady (childOutcome errs ready pending cleanup) = ready"
  using recordErr_fold [of childReconcileResult_zero 0 0 errs] assms
  by (auto simp: childOutcome_def Let_def childReconcileResult_zero_def list_ex_iff list_all_iff filter_empty_conv split: option.split)

lemma childOutcome_verdict:
  assumes "length errs < 2 ^ 31" and failed: "failed \<longleftrightarrow> (\<exists>e \<in> set errs. \<not> isChildConflict e) \<or> cleanup \<noteq> None"
    and r: "r = childOutcome errs ready pending cleanup"
  shows "crrErr r \<noteq> None \<or> crrConflicts r > 0 \<or> crrFailures r > 0 \<longleftrightarrow> failed \<or> errs \<noteq> []"
    "childResultVerdict r n remote summ =
      (if failed then (ConditionFalse, reasonApplyFailed) else if errs \<noteq> [] then (ConditionFalse, reasonChildConflict)
       else if ready < int32 (int n)
       then (ConditionFalse, if remote \<and> summaryRBACPending summ then reasonWaitingForRBAC else reasonWaitingForCredentials)
       else (ConditionTrue, reasonReady))"
proof -
  note fields = childOutcome_fields [OF assms(1), of ready pending cleanup, folded r]
  have err: "crrErr r = None \<longleftrightarrow> \<not> failed" using fields(1) failed by (auto simp: list_all_iff)
  have conflict: "crrConflicts r > 0 \<longleftrightarrow> errs \<noteq> []" if "\<not> failed"
    using that fields(2) failed by (cases errs) (auto simp: list_ex_iff)
  have failures: "\<not> crrFailures r > 0" if "\<not> failed" using that fields(3) failed by (auto simp: list_all_iff)
  show "crrErr r \<noteq> None \<or> crrConflicts r > 0 \<or> crrFailures r > 0 \<longleftrightarrow> failed \<or> errs \<noteq> []"
    using err conflict failures by (cases failed) auto
  show "childResultVerdict r n remote summ =
      (if failed then (ConditionFalse, reasonApplyFailed) else if errs \<noteq> [] then (ConditionFalse, reasonChildConflict)
       else if ready < int32 (int n)
       then (ConditionFalse, if remote \<and> summaryRBACPending summ then reasonWaitingForRBAC else reasonWaitingForCredentials)
       else (ConditionTrue, reasonReady))"
    using err conflict failures fields(4) by (cases failed; cases "errs = []") (simp_all add: childResultVerdict_def)
qed

lemmas reason_defs = reasonApplyFailed_def reasonChildConflict_def reasonWaitingForRBAC_def reasonWaitingForCredentials_def
  reasonReady_def reasonDisabled_def reasonApplied_def

text \<open>
  C25: The verdict on a reconciliation of the children, from the errors met. Ready and
  ManagedServiceAccountsReady are True exactly when there was no error of any kind and at least as many clusters
  are ready as were selected. Otherwise they are False, with reason ApplyFailed when some error is not a
  conflict or the cleanup failed, ChildConflict when all errors are conflicts, and without
  errors WaitingForRBAC or WaitingForCredentials, depending on whether RBAC is on and some wanted ManifestWork is not available;
  the reason ClusterFailed is never given. RemotePermissionsApplied is True as Disabled
  without RBAC, False as ApplyFailed after any error, False as WaitingForRBAC while some ManifestWork is not
  available, and True as Applied otherwise. All three carry the generation, and no other condition changes.
\<close>

theorem applyChildResultConditions_verdict:
  assumes "condition_library L" "length errs < 2 ^ 31"
    and "st' = applyChildResultConditions L (childOutcome errs ready pending cleanup) n g remote st"
    and "failed \<longleftrightarrow> (\<exists>e \<in> set errs. \<not> isChildConflict e) \<or> cleanup \<noteq> None"
    and "waits \<longleftrightarrow> (\<exists>s. stSummary st = Some s \<and> suAvailable s < suDesiredTotal s)"
  shows "(\<forall>t \<in> {conditionReady, conditionManagedServiceAccountsReady}. \<exists>s reason msg. statusView L st' t = Some (s, reason, msg, g) \<and>
      (s = ConditionTrue \<longleftrightarrow> \<not> failed \<and> errs = [] \<and> int32 (int n) \<le> ready) \<and>
      (if s = ConditionTrue then reason = ''Ready'' else s = ConditionFalse \<and>
        (if failed then reason = ''ApplyFailed'' else if errs \<noteq> [] then reason = ''ChildConflict''
         else if remote \<and> waits then reason = ''WaitingForRBAC'' else reason = ''WaitingForCredentials''))) \<and>
    (\<exists>msg. statusView L st' conditionRemotePermissionsApplied =
      (if \<not> remote then Some (ConditionTrue, ''Disabled'', msg, g)
       else if failed \<or> errs \<noteq> [] then Some (ConditionFalse, ''ApplyFailed'', msg, g)
       else if waits then Some (ConditionFalse, ''WaitingForRBAC'', msg, g)
       else Some (ConditionTrue, ''Applied'', msg, g))) \<and>
    (\<forall>t. t \<notin> {conditionReady, conditionManagedServiceAccountsReady, conditionRemotePermissionsApplied} \<longrightarrow>
      statusView L st' t = statusView L st t)"
proof -
  define r where "r = childOutcome errs ready pending cleanup"
  have waits: "summaryRBACPending (stSummary st) \<longleftrightarrow> waits" using assms(5) by (auto simp: summaryRBACPending_def split: option.splits)
  note outcome = childOutcome_verdict [OF assms(2,4) r_def]
  note problem = outcome(1) and verdict = outcome(2) [of n remote "stSummary st", unfolded waits]
  have ready: "\<exists>msg. statusView L st' t = Some (fst (childResultVerdict r n remote (stSummary st)),
      snd (childResultVerdict r n remote (stSummary st)), msg, g)" if "t \<in> {conditionReady, conditionManagedServiceAccountsReady}" for t
    using condition_library.applyChildResultConditions_ready [OF assms(1), of t r n g remote st] that unfolding assms(3) r_def [symmetric] by blast
  have remote: "\<exists>msg. statusView L st' conditionRemotePermissionsApplied =
      (if \<not> remote then Some (ConditionTrue, reasonDisabled, msg, g)
       else if failed \<or> errs \<noteq> [] then Some (ConditionFalse, reasonApplyFailed, msg, g)
       else if waits then Some (ConditionFalse, reasonWaitingForRBAC, msg, g) else Some (ConditionTrue, reasonApplied, msg, g))"
    using condition_library.applyChildResultConditions_remote [OF assms(1), of r n g remote st] unfolding assms(3) r_def [symmetric] problem waits .
  show ?thesis
  proof (intro conjI ballI)
    fix t assume "t \<in> {conditionReady, conditionManagedServiceAccountsReady}"
    from ready [OF this] show "\<exists>s reason msg. statusView L st' t = Some (s, reason, msg, g) \<and>
        (s = ConditionTrue \<longleftrightarrow> \<not> failed \<and> errs = [] \<and> int32 (int n) \<le> ready) \<and>
        (if s = ConditionTrue then reason = ''Ready'' else s = ConditionFalse \<and>
          (if failed then reason = ''ApplyFailed'' else if errs \<noteq> [] then reason = ''ChildConflict''
           else if remote \<and> waits then reason = ''WaitingForRBAC'' else reason = ''WaitingForCredentials''))"
      unfolding verdict by (cases failed; cases "errs = []"; cases "ready < int32 (int n)"; cases "remote \<and> waits") (auto simp: reason_defs)
  next
    show "\<exists>msg. statusView L st' conditionRemotePermissionsApplied =
      (if \<not> remote then Some (ConditionTrue, ''Disabled'', msg, g)
       else if failed \<or> errs \<noteq> [] then Some (ConditionFalse, ''ApplyFailed'', msg, g)
       else if waits then Some (ConditionFalse, ''WaitingForRBAC'', msg, g)
       else Some (ConditionTrue, ''Applied'', msg, g))"
      using remote unfolding reason_defs .
  qed (use condition_library.applyChildResultConditions_other [OF assms(1), of _ r n g remote st] assms(3) r_def in blast)
qed

theorem applyChildResultConditions_verdict_witness:
  "let st' = applyChildResultConditions ref_lib (childOutcome [ErrChildConflict] 1 False None) 2 7 True sampleStatus
   in \<exists>msg msg'. statusView ref_lib st' conditionReady = Some (ConditionFalse, ''ChildConflict'', msg, 7) \<and>
      statusView ref_lib st' conditionRemotePermissionsApplied = Some (ConditionFalse, ''ApplyFailed'', msg', 7)"
  using applyChildResultConditions_verdict [OF ref.condition_library_axioms _ refl refl refl, of "[ErrChildConflict]" 1 False None 2 7 True sampleStatus]
  by (auto simp: Let_def)

text \<open>
  An early return is visible. Invalid specifications and unavailable placements set the five
  conditions of the set to False with the reason and message of the error, CleanupBlocked to False,
  and leave every other condition as it was.
\<close>

theorem setEarlyReturnConditions_complete:
  assumes "condition_library L"
  shows "statusView L (setEarlyReturnConditions L reason msg g st) t =
     (if t = conditionCleanupBlocked then Some (ConditionFalse, reasonNotDeleting, ''cleanup is not active'', g)
      else if t \<in> {conditionPlacementResolved, conditionManagedServiceAccountsReady,
        conditionRemotePermissionsApplied, conditionPlacementRolledOut, conditionReady}
      then Some (ConditionFalse, reason, msg, g) else statusView L st t)"
  by (rule condition_library.setEarlyReturnConditions_view [OF assms])

theorem setEarlyReturnConditions_complete_witness:
  "statusView ref_lib (setEarlyReturnConditions ref_lib reasonInvalidSpec ''bad'' 3 sampleStatus) conditionReady =
     Some (ConditionFalse, reasonInvalidSpec, ''bad'', 3)"
  using setEarlyReturnConditions_complete [OF ref.condition_library_axioms, of reasonInvalidSpec "''bad''" 3 sampleStatus conditionReady]
  by (simp add: condition_types)

end
