(* ===== verification/Placement.thy ===== *)
theory Placement
  imports Status
begin

text \<open>
  Resolving the placement references of a set to clusters
  (\<^verbatim>\<open>managedserviceaccountreplicaset_controller.go\<close>, \<^verbatim>\<open>resolvePlacementRefs\<close> and what it calls).
  The OCM decision tracker is a parameter of the reconciler: the list it asks for and the
  groups it makes of the answer; the locale \<open>decision_tracker\<close> says that these hold the decided clusters, all and
  no others, and the union is shown of the decisions the server answered. The references of a set have distinct names (they are a map
  list of the API, keyed by name); the conditions two references of one name would share in
  memory are not modelled as shared.
\<close>

record placementResolution =
  reClusters :: "string list"
  reClusterPlacementRefs :: "(string, string list) fmap"
  reClusterGroupsByRef :: "(string, clusterGroups) fmap"
  rePlacementsByRef :: "(string, placement option) fmap"
  rePlacementStatuses :: "placementStatus list"
  reErr :: "go_error option"

text \<open>Reading a Go map whose values are slices: nothing when the key is absent.\<close>

definition fmget :: "('k, 'v list) fmap \<Rightarrow> 'k \<Rightarrow> 'v list" where
  "fmget m k = (case fmlookup m k of None \<Rightarrow> [] | Some vs \<Rightarrow> vs)"

definition primaryRef :: "placementResolution \<Rightarrow> string \<Rightarrow> string" where
  "primaryRef p clusterName = (case fmget (reClusterPlacementRefs p) clusterName of [] \<Rightarrow> [] | ref # _ \<Rightarrow> ref)"

definition resolveOCMPlacement ::
  "'e reconciler \<Rightarrow> string \<Rightarrow> string \<Rightarrow> ('e, placement option \<times> clusterGroups \<times> go_error option) prog" where
  "resolveOCMPlacement R namespace placementName = do {
     r \<leftarrow> getPlacement R (namespace, placementName);
     case r of
       Inl err \<Rightarrow> return (None, [], Some err)
     | Inr pl \<Rightarrow> do {
         decisions \<leftarrow> listDecisions R (fst (rTrackerQuery R pl)) (snd (rTrackerQuery R pl));
         case rTrackerGroups R pl decisions of
           Inl err \<Rightarrow> return (Some pl, [], Some err)
         | Inr groups \<Rightarrow> return (Some pl, groups, None)
       }
   }"

definition placementStatus_new :: "string \<Rightarrow> condition list \<Rightarrow> placementStatus" where
  "placementStatus_new name conditions = \<lparr>psName = name, psSelectedClusterCount = 0, psSummary = None,
     psRollout = None, psAvailableDecisionGroups = [], psConditions = conditions\<rparr>"

definition resolvePlacementRef ::
  "'e reconciler \<Rightarrow> replicaSet \<Rightarrow> placementRef \<Rightarrow> int \<Rightarrow> condition list
    \<Rightarrow> ('e, placement option \<times> clusterGroups \<times> placementStatus \<times> go_error option) prog" where
  "resolvePlacementRef R rs ref generation previousConditions = do {
     (pl, groups, err) \<leftarrow> resolveOCMPlacement R (setNamespace rs) (prName ref);
     let status = placementStatus_new (prName ref) previousConditions;
     let status' = (if err = None
           then status\<lparr>psConditions := setCondition (rLib R) (psConditions status) conditionPlacementResolved
                  ConditionTrue reasonResolved ''OCM Placement and PlacementDecision objects resolved'' generation\<rparr>
           else status);
     return (pl, groups, status', err)
   }"

text \<open>The conditions each placement had in the previous status, the last entry of a name winning.\<close>

definition previousByKey :: "replicaSet \<Rightarrow> (string, condition list) fmap" where
  "previousByKey rs = fold (\<lambda>p m. fmupd (psName p) (psConditions p) m) (stPlacements (setStatus rs)) fmempty"

text \<open>The inner loop: \<open>ref\<close> is appended to the references of each of its clusters.\<close>

fun claimClusters :: "string \<Rightarrow> string list \<Rightarrow> (string, string list) fmap \<Rightarrow> (string, string list) fmap" where
  "claimClusters ref [] m = m"
| "claimClusters ref (c # cs) m = claimClusters ref cs (fmupd c (fmget m c @ [ref]) m)"

text \<open>
  One iteration over the references, on the result so far and the union of the clusters so far:
  the call, and what is noted of its answer.
\<close>

definition noteResolved ::
  "lib \<Rightarrow> int \<Rightarrow> placementRef \<Rightarrow> placement option \<Rightarrow> clusterGroups \<Rightarrow> placementStatus \<Rightarrow> go_error option
    \<Rightarrow> placementResolution \<times> strset \<Rightarrow> placementResolution \<times> strset" where
  "noteResolved L generation ref pl groups status err acc =
     (let result = fst acc;
          clusters = sorted_list_of_fset (sdk_GetClusters L groups);
          status1 = (case err of None \<Rightarrow> status
            | Some e \<Rightarrow> status\<lparr>psConditions := setCondition L (psConditions status) conditionPlacementResolved
                 ConditionFalse reasonPlacementUnavailable (error_text e) generation\<rparr>);
          err' = (case err of None \<Rightarrow> reErr result | Some e \<Rightarrow> errors_Join [reErr result, Some e]);
          status2 = status1\<lparr>psSelectedClusterCount := int32 (int (length clusters)),
            psConditions := (if clusters = [] \<and> err = None
              then setCondition L (psConditions status1) conditionPlacementEmpty ConditionTrue
                     reasonNoDecisions ''placement ref resolved to zero clusters'' generation
              else meta_RemoveStatusCondition L (psConditions status1) conditionPlacementEmpty)\<rparr>
      in (result\<lparr>
            reClusterPlacementRefs := claimClusters (prName ref) clusters (reClusterPlacementRefs result),
            reClusterGroupsByRef := fmupd (prName ref) groups (reClusterGroupsByRef result),
            rePlacementsByRef := fmupd (prName ref) pl (rePlacementsByRef result),
            rePlacementStatuses := rePlacementStatuses result @ [status2],
            reErr := err'\<rparr>, snd acc |\<union>| fset_of_list clusters))"

definition resolveStep ::
  "'e reconciler \<Rightarrow> replicaSet \<Rightarrow> int \<Rightarrow> placementRef \<Rightarrow> placementResolution \<times> strset
    \<Rightarrow> ('e, placementResolution \<times> strset) prog" where
  "resolveStep R rs generation ref acc = do {
     (pl, groups, status, err) \<leftarrow>
        resolvePlacementRef R rs ref generation (fmget (previousByKey rs) (prName ref));
     return (noteResolved (rLib R) generation ref pl groups status err acc)
   }"

definition resolution_zero :: placementResolution where
  "resolution_zero = \<lparr>reClusters = [], reClusterPlacementRefs = fmempty, reClusterGroupsByRef = fmempty,
     rePlacementsByRef = fmempty, rePlacementStatuses = [], reErr = None\<rparr>"

definition resolvePlacementRefs :: "'e reconciler \<Rightarrow> replicaSet \<Rightarrow> int \<Rightarrow> ('e, placementResolution) prog" where
  "resolvePlacementRefs R rs generation = do {
     acc \<leftarrow> mfold (resolveStep R rs generation) (spPlacementRefs (setSpec rs)) (resolution_zero, {||});
     return ((fst acc)\<lparr>reClusters := sorted_list_of_fset (snd acc)\<rparr>)
   }"

section \<open>What is resolved\<close>

text \<open>A reference selects a cluster when its groups hold it.\<close>

definition selects :: "lib \<Rightarrow> placementResolution \<Rightarrow> placementRef \<Rightarrow> string \<Rightarrow> bool" where
  "selects L p ref c \<longleftrightarrow> c |\<in>| sdk_GetClusters L (fmget (reClusterGroupsByRef p) (prName ref))"

lemma claimClusters_get:
  "distinct cs \<Longrightarrow> fmget (claimClusters ref cs m) c = fmget m c @ (if c \<in> set cs then [ref] else [])"
  by (induction cs arbitrary: m) (auto simp: fmget_def)

text \<open>The loop invariant: the references \<open>xs\<close> done so far account for the clusters and their claims.\<close>

definition resolvedSoFar :: "lib \<Rightarrow> placementRef list \<Rightarrow> placementResolution \<times> strset \<Rightarrow> bool" where
  "resolvedSoFar L xs acc \<longleftrightarrow>
     map psName (rePlacementStatuses (fst acc)) = map prName xs \<and>
     (\<forall>c. c |\<in>| snd acc \<longleftrightarrow> (\<exists>ref \<in> set xs. selects L (fst acc) ref c)) \<and>
     (\<forall>c. fmget (reClusterPlacementRefs (fst acc)) c = map prName (filter (\<lambda>ref. selects L (fst acc) ref c) xs))"

lemma resolveOCMPlacement_emits: "emits (resolveOCMPlacement R ns name) (\<lambda>_ _. True)"
  unfolding resolveOCMPlacement_def getPlacement_def listDecisions_def
  by (auto intro!: emits_bind_call emits_return split: sum.split)

lemma resolvePlacementRef_emits:
  "emits (resolvePlacementRef R rs ref g prev) (\<lambda>(pl, groups, st, err) _. psName st = prName ref)"
  unfolding resolvePlacementRef_def
  by (rule emits_bind [OF resolveOCMPlacement_emits])
    (auto simp: placementStatus_new_def Let_def intro!: emits_return split: prod.split)

lemma noteResolved_selects:
  "selects L (fst (noteResolved L g ref pl groups st err acc)) r c \<longleftrightarrow>
     (if prName r = prName ref then c |\<in>| sdk_GetClusters L groups else selects L (fst acc) r c)"
  by (simp add: noteResolved_def Let_def selects_def fmget_def)

lemma noteResolved_so_far:
  assumes inv: "resolvedSoFar L xs acc" and new: "prName ref \<notin> set (map prName xs)" and st: "psName st = prName ref"
  shows "resolvedSoFar L (xs @ [ref]) (noteResolved L g ref pl groups st err acc)"
proof -
  let ?acc' = "noteResolved L g ref pl groups st err acc"
  have old: "selects L (fst ?acc') r c = selects L (fst acc) r c" if "r \<in> set xs" for r c
  proof -
    from new that have "prName r \<noteq> prName ref" by (metis image_eqI list.set_map)
    then show ?thesis by (simp add: noteResolved_selects)
  qed
  have this_ref: "selects L (fst ?acc') ref c \<longleftrightarrow> c |\<in>| sdk_GetClusters L groups" for c
    by (simp add: noteResolved_selects)
  have names: "map psName (rePlacementStatuses (fst ?acc')) = map prName (xs @ [ref])"
    using inv st by (simp add: noteResolved_def Let_def resolvedSoFar_def split: option.split)
  have union: "snd ?acc' = snd acc |\<union>| sdk_GetClusters L groups"
    by (auto simp: noteResolved_def Let_def sorted_list_of_fset.rep_eq)
  have claims: "fmget (reClusterPlacementRefs (fst ?acc')) c =
      fmget (reClusterPlacementRefs (fst acc)) c @ (if c |\<in>| sdk_GetClusters L groups then [prName ref] else [])" for c
    by (simp add: noteResolved_def Let_def claimClusters_get sorted_list_of_fset.rep_eq)
  have "filter (\<lambda>r. selects L (fst ?acc') r c) xs = filter (\<lambda>r. selects L (fst acc) r c) xs" for c
    by (rule filter_cong) (simp_all add: old)
  with inv show ?thesis
    by (simp add: resolvedSoFar_def names union claims this_ref old cong: bex_cong) blast
qed

lemma resolveStep_emits:
  assumes "resolvedSoFar (rLib R) xs acc" "prName ref \<notin> set (map prName xs)"
  shows "emits (resolveStep R rs g ref acc) (\<lambda>acc' _. resolvedSoFar (rLib R) (xs @ [ref]) acc')"
  unfolding resolveStep_def
  by (rule emits_bind [OF resolvePlacementRef_emits])
    (auto intro!: emits_return noteResolved_so_far assms split: prod.split)

text \<open>What a resolution promises: one status per reference, and the clusters with their claims.\<close>

definition resolutionOK :: "lib \<Rightarrow> placementRef list \<Rightarrow> placementResolution \<Rightarrow> bool" where
  "resolutionOK L refs p \<longleftrightarrow>
     sorted (reClusters p) \<and> distinct (reClusters p) \<and>
     map psName (rePlacementStatuses p) = map prName refs \<and>
     (\<forall>c. c \<in> set (reClusters p) \<longleftrightarrow> (\<exists>ref \<in> set refs. selects L p ref c)) \<and>
     (\<forall>c. fmget (reClusterPlacementRefs p) c = map prName (filter (\<lambda>ref. selects L p ref c) refs))"

lemma resolvePlacementRefs_emits:
  assumes "distinct (map prName (spPlacementRefs (setSpec rs)))"
  shows "emits (resolvePlacementRefs R rs g) (\<lambda>p _. resolutionOK (rLib R) (spPlacementRefs (setSpec rs)) p)"
proof -
  let ?refs = "spPlacementRefs (setSpec rs)"
  have loop: "emits (mfold (resolveStep R rs g) ?refs (resolution_zero, {||}))
      (\<lambda>acc _. resolvedSoFar (rLib R) ?refs acc)"
  proof (rule emits_mfold)
    show "resolvedSoFar (rLib R) [] (resolution_zero, {||})"
      by (simp add: resolvedSoFar_def resolution_zero_def fmget_def)
  next
    fix xs x ys acc
    assume "?refs = xs @ x # ys" "resolvedSoFar (rLib R) xs acc"
    with assms show "emits (resolveStep R rs g x acc) (\<lambda>acc' _. resolvedSoFar (rLib R) (xs @ [x]) acc')"
      by (intro resolveStep_emits) auto
  qed
  have sel: "selects L (p\<lparr>reClusters := cs\<rparr>) = selects L p" for L p cs
    by (intro ext) (simp add: selects_def)
  show ?thesis
    unfolding resolvePlacementRefs_def
    by (rule emits_bind [OF loop], rule emits_return)
      (simp add: resolutionOK_def resolvedSoFar_def sel sorted_list_of_fset.rep_eq)
qed

section \<open>What was read\<close>

text \<open>
  What the controller reads for one reference: the calls with their answers, the clusters of the decisions it
  was answered, and the error. Without a placement, or when the tracker fails, there are no clusters.
\<close>

record placementRead =
  rdEvents :: "api_event list"
  rdClusters :: "string list"
  rdError :: "go_error option"

inductive refReads :: "'e reconciler \<Rightarrow> replicaSet \<Rightarrow> placementRef \<Rightarrow> placementRead \<Rightarrow> bool"
  for R rs ref where
  unavailable: "refReads R rs ref \<lparr>rdEvents = [GetPlacement (setNamespace rs, prName ref) (Inl e)], rdClusters = [], rdError = Some e\<rparr>"
| undecided: "rTrackerQuery R pl = (sel, ns) \<Longrightarrow> rTrackerGroups R pl answer = Inl e \<Longrightarrow>
     refReads R rs ref \<lparr>rdEvents = [GetPlacement (setNamespace rs, prName ref) (Inr pl), ListDecisions sel ns answer],
       rdClusters = [], rdError = Some e\<rparr>"
| decided: "rTrackerQuery R pl = (sel, ns) \<Longrightarrow> rTrackerGroups R pl (Inr ds) = Inr groups \<Longrightarrow>
     refReads R rs ref \<lparr>rdEvents = [GetPlacement (setNamespace rs, prName ref) (Inr pl), ListDecisions sel ns (Inr ds)],
       rdClusters = concat (map pdDecisions ds), rdError = None\<rparr>"

text \<open>
  The tracker of OCM: it groups the clusters of the decisions it was answered, all of them and no others,
  and fails when the list failed.
\<close>

locale decision_tracker =
  fixes R :: "'e reconciler"
  assumes tracked: "rTrackerGroups R pl answer = Inr groups \<Longrightarrow>
      \<exists>ds. answer = Inr ds \<and> fset (sdk_GetClusters (rLib R) groups) = set (concat (map pdDecisions ds))"
    and no_groups: "sdk_GetClusters (rLib R) [] = {||}"
begin

lemma resolveOCMPlacement_answered:
  "emits (resolveOCMPlacement R (setNamespace rs) (prName ref)) (\<lambda>(pl, groups, err) es. \<exists>r. refReads R rs ref r \<and> es = rdEvents r \<and>
     err = rdError r \<and> fset (sdk_GetClusters (rLib R) groups) = set (rdClusters r))"
proof -
  have answered: "\<exists>r. refReads R rs ref r \<and> rdEvents r = [GetPlacement (setNamespace rs, prName ref) (Inr pl),
        ListDecisions (fst (rTrackerQuery R pl)) (snd (rTrackerQuery R pl)) a] \<and>
      (case rTrackerGroups R pl a of Inl e \<Rightarrow> rdError r = Some e \<and> rdClusters r = []
       | Inr groups \<Rightarrow> rdError r = None \<and> fset (sdk_GetClusters (rLib R) groups) = set (rdClusters r))" for pl a
  proof (cases "rTrackerGroups R pl a")
    case (Inl e)
    with refReads.undecided [of R pl _ _ a e rs ref, OF prod.collapse [symmetric]] show ?thesis by force
  next
    case (Inr groups)
    with tracked obtain ds where "a = Inr ds" "fset (sdk_GetClusters (rLib R) groups) = set (concat (map pdDecisions ds))" by blast
    with Inr refReads.decided [of R pl _ _ ds groups rs ref, OF prod.collapse [symmetric]] show ?thesis by force
  qed
  let ?Q = "\<lambda>(pl :: placement option, groups, err) es. \<exists>r. refReads R rs ref r \<and> es = rdEvents r \<and>
     err = rdError r \<and> fset (sdk_GetClusters (rLib R) groups) = set (rdClusters r)"
  have gone: "?Q (None, [], Some e) [GetPlacement (setNamespace rs, prName ref) (Inl e)]" for e
    using refReads.unavailable [of R rs ref e] by (force simp: no_groups)
  have there: "?Q (case rTrackerGroups R pl a of Inl e \<Rightarrow> (Some pl, [], Some e) | Inr groups \<Rightarrow> (Some pl, groups, None))
      [GetPlacement (setNamespace rs, prName ref) (Inr pl), ListDecisions (fst (rTrackerQuery R pl)) (snd (rTrackerQuery R pl)) a]" for pl a
    using answered [of pl a] by (fastforce simp: no_groups split: sum.splits)
  show ?thesis
    unfolding resolveOCMPlacement_def getPlacement_def listDecisions_def
  proof (rule emits_bind_call, goal_cases)
    case (1 r)
    show ?case
    proof (cases r)
      case (Inl e)
      with gone [of e] show ?thesis by (auto intro!: emits_return)
    next
      case (Inr pl)
      have "emits (case rTrackerGroups R pl a of Inl err \<Rightarrow> return (Some pl, [], Some err) | Inr groups \<Rightarrow> return (Some pl, groups, None))
          (\<lambda>b es. ?Q b (GetPlacement (setNamespace rs, prName ref) (Inr pl) #
             ListDecisions (fst (rTrackerQuery R pl)) (snd (rTrackerQuery R pl)) a # es))" for a
        using there [of pl a] by (cases "rTrackerGroups R pl a") (auto intro!: emits_return)
      with Inr show ?thesis by (auto intro!: emits_bind_call)
    qed
  qed
qed

end

text \<open>The errors of the references that could not be read, in order.\<close>

definition readErrors :: "placementRead list \<Rightarrow> go_error list" where
  "readErrors reads = concat (map (\<lambda>r. case rdError r of None \<Rightarrow> [] | Some e \<Rightarrow> [e]) reads)"

text \<open>
  What a resolution is, given what was read for each reference: one status per reference with the number of its
  clusters, the union of the clusters, the claims on a cluster in the order of the references, and the joined errors.
\<close>

definition resolvedFrom :: "(placementRef \<times> placementRead) list \<Rightarrow> placementResolution \<Rightarrow> string set \<Rightarrow> bool" where
  "resolvedFrom rrs p clusters \<longleftrightarrow>
     map psName (rePlacementStatuses p) = map (prName \<circ> fst) rrs \<and>
     map psSelectedClusterCount (rePlacementStatuses p) = map (\<lambda>x. int32 (int (card (set (rdClusters (snd x)))))) rrs \<and>
     clusters = (\<Union>(ref, r) \<in> set rrs. set (rdClusters r)) \<and>
     (\<forall>c. fmget (reClusterPlacementRefs p) c = map (prName \<circ> fst) (filter (\<lambda>(ref, r). c \<in> set (rdClusters r)) rrs)) \<and>
     reErr p = joinAll None (readErrors (map snd rrs))"

lemma noteResolved_from:
  assumes "resolvedFrom rrs (fst acc) (fset (snd acc))" "fset (sdk_GetClusters L groups) = set (rdClusters r)" "err = rdError r"
    and "psName st = prName ref"
  shows "resolvedFrom (rrs @ [(ref, r)]) (fst (noteResolved L g ref pl groups st err acc)) (fset (snd (noteResolved L g ref pl groups st err acc)))"
proof -
  let ?cs = "sorted_list_of_fset (sdk_GetClusters L groups)"
  have cs: "set ?cs = set (rdClusters r)" "distinct ?cs" "length ?cs = card (set (rdClusters r))"
    using assms(2) by (simp_all add: sorted_list_of_fset.rep_eq)
  have joined: "joinAll None (readErrors (map snd rrs @ [r])) = (case rdError r of None \<Rightarrow> joinAll None (readErrors (map snd rrs))
      | Some e \<Rightarrow> errors_Join [joinAll None (readErrors (map snd rrs)), Some e])"
    by (simp add: readErrors_def joinAll_def split: option.split)
  show ?thesis
    using assms(1,3,4) cs
    by (simp add: resolvedFrom_def noteResolved_def Let_def claimClusters_get joined fset_of_list.rep_eq split: option.split) auto
qed

context decision_tracker
begin

lemma resolveStep_answered:
  assumes "resolvedFrom rrs (fst acc) (fset (snd acc))"
  shows "emits (resolveStep R rs g ref acc) (\<lambda>acc' es. \<exists>r. refReads R rs ref r \<and> es = rdEvents r \<and>
    resolvedFrom (rrs @ [(ref, r)]) (fst acc') (fset (snd acc')))"
proof -
  have "emits (resolvePlacementRef R rs ref g prev) (\<lambda>(pl, groups, st, err) es. psName st = prName ref \<and> (\<exists>r. refReads R rs ref r \<and>
      es = rdEvents r \<and> err = rdError r \<and> fset (sdk_GetClusters (rLib R) groups) = set (rdClusters r)))" for prev
    unfolding resolvePlacementRef_def
    by (rule emits_bind [OF resolveOCMPlacement_answered [of rs ref]])
      (auto simp: placementStatus_new_def Let_def intro!: emits_return split: prod.splits)
  then show ?thesis
    unfolding resolveStep_def
    by (rule emits_bind) (auto intro!: emits_return noteResolved_from [OF assms] split: prod.splits)
qed

lemma resolvePlacementRefs_answered:
  "emits (resolvePlacementRefs R rs g) (\<lambda>p es. \<exists>reads. list_all2 (refReads R rs) (spPlacementRefs (setSpec rs)) reads \<and>
     es = concat (map rdEvents reads) \<and> resolvedFrom (zip (spPlacementRefs (setSpec rs)) reads) p (set (reClusters p)) \<and>
     sorted (reClusters p) \<and> distinct (reClusters p))"
proof -
  let ?refs = "spPlacementRefs (setSpec rs)"
  let ?I = "\<lambda>xs acc es. \<exists>reads. list_all2 (refReads R rs) xs reads \<and> es = concat (map rdEvents reads) \<and>
    resolvedFrom (zip xs reads) (fst acc) (fset (snd acc))"
  have loop: "emits (mfold (resolveStep R rs g) ?refs (resolution_zero, {||})) (\<lambda>acc es. ?I ?refs acc es)"
  proof (rule emits_mfold)
    show "?I [] (resolution_zero, {||}) []"
      by (simp add: resolvedFrom_def resolution_zero_def fmget_def joinAll_def readErrors_def)
  next
    fix xs x ys acc es
    assume "?I xs acc es"
    then obtain reads where reads: "list_all2 (refReads R rs) xs reads" "es = concat (map rdEvents reads)"
      "resolvedFrom (zip xs reads) (fst acc) (fset (snd acc))" by blast
    have zip: "zip (xs @ [x]) (reads @ [r]) = zip xs reads @ [(x, r)]" for r
      using list_all2_lengthD [OF reads(1)] by simp
    show "emits (resolveStep R rs g x acc) (\<lambda>acc' es'. ?I (xs @ [x]) acc' (es @ es'))"
    proof (rule emits_weaken [OF resolveStep_answered [OF reads(3)]])
      fix acc' es' assume "\<exists>r. refReads R rs x r \<and> es' = rdEvents r \<and> resolvedFrom (zip xs reads @ [(x, r)]) (fst acc') (fset (snd acc'))"
      then obtain r where "refReads R rs x r" "es' = rdEvents r" "resolvedFrom (zip xs reads @ [(x, r)]) (fst acc') (fset (snd acc'))" by blast
      with reads show "?I (xs @ [x]) acc' (es @ es')"
        by (intro exI [of _ "reads @ [r]"]) (simp add: zip list_all2_appendI)
    qed
  qed
  have "resolvedFrom rrs (p\<lparr>reClusters := cs\<rparr>) C = resolvedFrom rrs p C" for rrs p cs C by (simp add: resolvedFrom_def)
  then show ?thesis
    unfolding resolvePlacementRefs_def
    by (intro emits_bind [OF loop] emits_return) (auto simp: sorted_list_of_fset.rep_eq)
qed

end

text \<open>The first reference that claims a cluster is its primary one.\<close>

lemma primaryRef_first:
  assumes "resolvedFrom rrs p C" "c \<in> C"
  shows "\<exists>before ref r after. rrs = before @ (ref, r) # after \<and> c \<in> set (rdClusters r) \<and>
    (\<forall>(ref', r') \<in> set before. c \<notin> set (rdClusters r')) \<and> primaryRef p c = prName ref"
proof -
  let ?P = "\<lambda>(ref, r). c \<in> set (rdClusters r)"
  from assms have "filter ?P rrs \<noteq> []" by (auto simp: resolvedFrom_def filter_empty_conv)
  then obtain x xs where "filter ?P rrs = x # xs" by (cases "filter ?P rrs") auto
  moreover from this obtain before after where "rrs = before @ x # after" "\<forall>y \<in> set before. \<not> ?P y" "?P x"
    by (auto simp: filter_eq_Cons_iff)
  moreover have "primaryRef p c = prName (fst x)"
    using assms(1) calculation(1) by (simp add: resolvedFrom_def primaryRef_def)
  ultimately show ?thesis by (cases x) fastforce
qed

interpretation hubTracker: decision_tracker "hubReconciler ref_lib"
  by unfold_locales (auto simp: hubReconciler_def ref_lib_def ffUnion.rep_eq fset_of_list.rep_eq split: sum.splits)

section \<open>An example\<close>

lemma placedHub_resolution:
  "reClusters (fst (run_state (resolvePlacementRefs (hubReconciler ref_lib) sampleSet 1) (sampleWorld placedHub))) = [''c1'', ''c2'']"
  by (simp add: resolvePlacementRefs_def sampleSet_def sampleSpec_def resolveStep_def resolvePlacementRef_def
      resolveOCMPlacement_def getPlacement_def listDecisions_def call_def hubReconciler_def hubServer_def hubGet_def hubFind_def
      placedHub_def sampleWorld_def emptyHub_def objectMeta_zero_def noteResolved_def Let_def ref_lib_def ref_matches_def
      resolution_zero_def fset_of_list_simps)

section \<open>Properties\<close>

text \<open>
  C22: Placements resolve to the union of their decisions. For each reference, in order, the controller reads the
  placement of that name in the namespace of the set and the decisions the tracker asks for, and nothing else.
  The selected clusters are, sorted and without duplicates, those of the decisions the server answered; a reference that could not be
  read contributes none, and its error is joined to those of the others. The references that
  claim a cluster are those with a decision for it, in the order of the specification, and the primary one is
  the first of them. There is one placement status per reference, with the number of its clusters.
\<close>

theorem resolvePlacementRefs_union:
  assumes "decision_tracker R" "run_state (resolvePlacementRefs R rs g) w = (p, w')" "refs = spPlacementRefs (setSpec rs)"
  shows "\<exists>reads. list_all2 (refReads R rs) refs reads \<and> trace w' = trace w @ concat (map rdEvents reads) \<and>
    sorted (reClusters p) \<and> distinct (reClusters p) \<and> set (reClusters p) = (\<Union>r \<in> set reads. set (rdClusters r)) \<and>
    (\<forall>c. fmget (reClusterPlacementRefs p) c = map (prName \<circ> fst) (filter (\<lambda>(ref, r). c \<in> set (rdClusters r)) (zip refs reads))) \<and>
    (\<forall>c \<in> set (reClusters p). \<exists>before ref r after. zip refs reads = before @ (ref, r) # after \<and> c \<in> set (rdClusters r) \<and>
      (\<forall>(ref', r') \<in> set before. c \<notin> set (rdClusters r')) \<and> primaryRef p c = prName ref) \<and>
    map psName (rePlacementStatuses p) = map prName refs \<and>
    map psSelectedClusterCount (rePlacementStatuses p) = map (\<lambda>r. int32 (int (card (set (rdClusters r))))) reads \<and>
    reErr p = joinAll None (readErrors reads)"
proof -
  obtain es where es: "trace w' = trace w @ es" "\<exists>reads. list_all2 (refReads R rs) (spPlacementRefs (setSpec rs)) reads \<and>
     es = concat (map rdEvents reads) \<and> resolvedFrom (zip (spPlacementRefs (setSpec rs)) reads) p (set (reClusters p)) \<and>
     sorted (reClusters p) \<and> distinct (reClusters p)"
    using decision_tracker.resolvePlacementRefs_answered [OF assms(1)] assms(2) by (rule emitsD)
  then obtain reads where reads: "list_all2 (refReads R rs) refs reads" "trace w' = trace w @ concat (map rdEvents reads)"
    "resolvedFrom (zip refs reads) p (set (reClusters p))" "sorted (reClusters p)" "distinct (reClusters p)"
    unfolding assms(3) by blast
  note len = list_all2_lengthD [OF reads(1)]
  have fst: "map (\<lambda>x. f (fst x)) (zip refs reads) = map f refs" for f :: "placementRef \<Rightarrow> string"
    using arg_cong [OF map_fst_zip [OF len], of "map f"] by (simp add: comp_def)
  have snd: "map (\<lambda>x. h (snd x)) (zip refs reads) = map h reads" for h :: "placementRead \<Rightarrow> int"
    using arg_cong [OF map_snd_zip [OF len], of "map h"] by (simp add: comp_def)
  have union: "(\<Union>(ref, r) \<in> set (zip refs reads). set (rdClusters r)) = (\<Union>r \<in> set reads. set (rdClusters r))"
  proof -
    have "(\<Union>(ref, r) \<in> set (zip refs reads). set (rdClusters r)) = (\<Union>r \<in> set (map snd (zip refs reads)). set (rdClusters r))" by force
    then show ?thesis using len by simp
  qed
  show ?thesis
    using reads primaryRef_first [OF reads(3)] fst [of prName] snd [of "\<lambda>r. int32 (int (card (set (rdClusters r))))"] len
    unfolding resolvedFrom_def union by (intro exI [of _ reads]) (simp add: comp_def split_beta)
qed

theorem resolvePlacementRefs_union_witness:
  "let p = fst (run_state (resolvePlacementRefs (hubReconciler ref_lib) sampleSet 1) (sampleWorld placedHub))
   in (\<exists>reads. list_all2 (refReads (hubReconciler ref_lib) sampleSet) (spPlacementRefs (setSpec sampleSet)) reads \<and>
        set (reClusters p) = (\<Union>r \<in> set reads. set (rdClusters r))) \<and>
      reClusters p = [''c1'', ''c2''] \<and> primaryRef p ''c1'' = ''all''"
proof -
  let ?run = "run_state (resolvePlacementRefs (hubReconciler ref_lib) sampleSet 1) (sampleWorld placedHub)"
  have refs: "spPlacementRefs (setSpec sampleSet) =
      [\<lparr>prName = ''all'', prRolloutStrategy = \<lparr>rsType = [], rsSettings = []\<rparr>\<rparr>]"
    by (simp add: sampleSet_def sampleSpec_def)
  obtain p w' where run: "?run = (p, w')" by (cases ?run) auto
  obtain reads where reads: "list_all2 (refReads (hubReconciler ref_lib) sampleSet) (spPlacementRefs (setSpec sampleSet)) reads"
    "set (reClusters p) = (\<Union>r \<in> set reads. set (rdClusters r))"
    "\<forall>c \<in> set (reClusters p). \<exists>before ref r after. zip (spPlacementRefs (setSpec sampleSet)) reads = before @ (ref, r) # after \<and>
       c \<in> set (rdClusters r) \<and> (\<forall>(ref', r') \<in> set before. c \<notin> set (rdClusters r')) \<and> primaryRef p c = prName ref"
    using resolvePlacementRefs_union [OF hubTracker.decision_tracker_axioms run refl] by blast
  have clusters: "reClusters p = [''c1'', ''c2'']" using placedHub_resolution run by simp
  obtain r where "reads = [r]" using reads(1) by (auto simp: refs list_all2_Cons1)
  with reads(3) clusters have "primaryRef p ''c1'' = ''all''" by (auto simp: refs Cons_eq_append_conv)
  with reads(1,2) clusters run show ?thesis by auto
qed

end
