(* ===== verification/Rollout.thy ===== *)
theory Rollout
  imports Placement
begin

text \<open>
  Rollout planning (\<^verbatim>\<open>managedserviceaccountreplicaset_controller.go\<close>): the rollout status of a
  cluster, read from its existing children; the plan, made with the OCM rollout handler, one
  placement reference at a time; and the rollout summaries of the status. A Go map of cluster
  statuses is a finite map, ranged over in sorted order; the lemmas show the counts do not
  depend on the order.
\<close>

section \<open>Rollout status of existing children\<close>

definition newerTime :: "int option \<Rightarrow> int option \<Rightarrow> int option" where
  "newerTime a b = (case a of None \<Rightarrow> b | Some x \<Rightarrow> (case b of None \<Rightarrow> a
     | Some y \<Rightarrow> if x < y then b else a))"

definition conditionTime :: "condition option \<Rightarrow> int option" where
  "conditionTime c = (case c of None \<Rightarrow> None
     | Some x \<Rightarrow> if cLastTransitionTime x = 0 then None else Some (cLastTransitionTime x))"

definition conditionObserved :: "condition option \<Rightarrow> int \<Rightarrow> conditionStatus \<Rightarrow> bool" where
  "conditionObserved c generation status = (case c of None \<Rightarrow> False
     | Some x \<Rightarrow> cObservedGeneration x = generation \<and> cStatus x = status)"

definition manifestWorkNeedsApply ::
  "int \<Rightarrow> condition option \<Rightarrow> condition option \<Rightarrow> condition option \<Rightarrow> bool" where
  "manifestWorkNeedsApply generation applied progressing degraded =
     (if \<not> conditionObserved applied generation ConditionTrue then True
      else case progressing of None \<Rightarrow> True
        | Some p \<Rightarrow>
            if cObservedGeneration p \<noteq> generation then True
            else case degraded of None \<Rightarrow> False | Some d \<Rightarrow> cObservedGeneration d \<noteq> generation)"

text \<open>\<^const>\<open>None\<close> is the panic of a nil dereference of \<^verbatim>\<open>progressing\<close>.\<close>

definition manifestWorkRolloutStatus :: "lib \<Rightarrow> manifestWork \<Rightarrow> (rolloutStatus \<times> int option) option" where
  "manifestWorkRolloutStatus L work =
     (let progressing = meta_FindStatusCondition L (workConditions work) (c_WorkProgressing L);
          degraded = meta_FindStatusCondition L (workConditions work) (c_WorkDegraded L);
          applied = meta_FindStatusCondition L (workConditions work) (c_WorkApplied L)
      in if manifestWorkNeedsApply (omGeneration (workMeta work)) applied progressing degraded
         then Some (ToApply, None)
         else case progressing of None \<Rightarrow> None
           | Some p \<Rightarrow>
               if cStatus p = ConditionTrue \<and> (case degraded of None \<Rightarrow> False | Some d \<Rightarrow> cStatus d = ConditionTrue)
               then Some (Failed, conditionTime degraded)
               else if cStatus p = ConditionTrue then Some (Progressing, conditionTime progressing)
               else if cStatus p = ConditionFalse then Some (Succeeded, conditionTime progressing)
               else Some (Progressing, conditionTime progressing))"

definition managedServiceAccountRolloutStatus :: "lib \<Rightarrow> managedServiceAccount \<Rightarrow> rolloutStatus \<times> int option" where
  "managedServiceAccountRolloutStatus L msa =
     (let tokenReported = meta_FindStatusCondition L (msaConditions msa) (c_TokenReported L);
          secretCreated = meta_FindStatusCondition L (msaConditions msa) (c_SecretCreated L);
          t = newerTime (conditionTime tokenReported) (conditionTime secretCreated)
      in if managedServiceAccountReady L msa then (Succeeded, t) else (Progressing, t))"

definition existingManagedServiceAccountRolloutStatus ::
  "'e reconciler \<Rightarrow> replicaSet \<Rightarrow> managedServiceAccount \<Rightarrow> ('e, rolloutStatus \<times> int option \<times> go_error option) prog" where
  "existingManagedServiceAccountRolloutStatus R rs desired = do {
     r \<leftarrow> ccGet (msaClient R) (objectKey (msaMeta desired));
     case r of
       Inl err \<Rightarrow> if isNotFound err then return (ToApply, None, None) else return (ToApply, None, Some err)
     | Inr current \<Rightarrow>
         if \<not> ownedBySet (rLib R) rs (omLabels (msaMeta current))
         then return (Failed, None, Some (conflictError ''ManagedServiceAccount'' (objectKey (msaMeta current))))
         else if \<not> childMatches (msaClient R) current desired msaSpecOps then return (ToApply, None, None)
         else let (status, transitionTime) = managedServiceAccountRolloutStatus (rLib R) current
              in return (status, transitionTime, None)
   }"

definition nilDereference :: go_error where
  "nilDereference = ErrText ''runtime error: invalid memory address or nil pointer dereference''"

definition existingManifestWorkRolloutStatus ::
  "'e reconciler \<Rightarrow> replicaSet \<Rightarrow> manifestWork \<Rightarrow> ('e, rolloutStatus \<times> int option \<times> go_error option) prog" where
  "existingManifestWorkRolloutStatus R rs desired = do {
     r \<leftarrow> ccGet (workClient R) (objectKey (workMeta desired));
     case r of
       Inl err \<Rightarrow> if isNotFound err then return (ToApply, None, None) else return (ToApply, None, Some err)
     | Inr current \<Rightarrow>
         if \<not> ownedBySet (rLib R) rs (omLabels (workMeta current))
         then return (Failed, None, Some (conflictError ''ManifestWork'' (objectKey (workMeta current))))
         else if \<not> childMatches (workClient R) current desired (manifestWorkSpecOps (rLib R))
         then return (ToApply, None, None)
         else case manifestWorkRolloutStatus (rLib R) current of
           None \<Rightarrow> return (ToApply, None, Some nilDereference)
         | Some (status, transitionTime) \<Rightarrow> return (status, transitionTime, None)
   }"

section \<open>Rollout status of a cluster\<close>

text \<open>
  The loop over the RBAC slices: the newest success time, or the early return with the first
  slice that is not rolled out.
\<close>

fun slicesRolloutLoop ::
  "'e reconciler \<Rightarrow> replicaSet \<Rightarrow> string \<Rightarrow> string \<Rightarrow> rbacSlice list \<Rightarrow> int option
    \<Rightarrow> ('e, (rolloutStatus \<times> int option \<times> go_error option) + int option) prog" where
  "slicesRolloutLoop R rs clusterName ref [] successTime = return (Inr successTime)"
| "slicesRolloutLoop R rs clusterName ref (sl # sls) successTime = do {
     (workStatus, workTime, err) \<leftarrow>
        existingManifestWorkRolloutStatus R rs (buildManifestWork (rLib R) rs clusterName ref sl);
     if err \<noteq> None \<or> workStatus \<noteq> Succeeded then return (Inl (workStatus, workTime, err))
     else slicesRolloutLoop R rs clusterName ref sls (newerTime successTime workTime)
   }"

text \<open>The two checks of the controller's own access, when selectors are used.\<close>

definition accessRolloutStatus ::
  "'e reconciler \<Rightarrow> replicaSet \<Rightarrow> string \<Rightarrow> string \<Rightarrow> int option
    \<Rightarrow> ('e, (rolloutStatus \<times> int option \<times> go_error option) + int option) prog" where
  "accessRolloutStatus R rs clusterName ref successTime =
     (if selectorRBACEnabled rs then do {
        (msaStatus, msaTime, err) \<leftarrow> existingManagedServiceAccountRolloutStatus R rs
           (buildControllerAccessManagedServiceAccount (rLib R) rs clusterName ref);
        if err \<noteq> None \<or> msaStatus \<noteq> Succeeded then return (Inl (msaStatus, msaTime, err))
        else do {
          (workStatus, workTime, err) \<leftarrow> existingManifestWorkRolloutStatus R rs
             (buildControllerAccessManifestWork (rLib R) rs clusterName ref);
          if err \<noteq> None \<or> workStatus \<noteq> Succeeded then return (Inl (workStatus, workTime, err))
          else return (Inr (newerTime (newerTime successTime msaTime) workTime))
        }
      } else return (Inr successTime))"

definition rbacRolloutStatus ::
  "'e reconciler \<Rightarrow> replicaSet \<Rightarrow> string \<Rightarrow> string \<Rightarrow> int option
    \<Rightarrow> ('e, (rolloutStatus \<times> int option \<times> go_error option) + int option) prog" where
  "rbacRolloutStatus R rs clusterName ref successTime =
     (if rbacEnabled rs then do {
        (slices, err) \<leftarrow> desiredRBACSlices R rs clusterName;
        if err \<noteq> None then return (Inl (Progressing, successTime, err))
        else slicesRolloutLoop R rs clusterName ref slices successTime
      } else return (Inr successTime))"

definition clusterRolloutStatus ::
  "'e reconciler \<Rightarrow> replicaSet \<Rightarrow> string \<Rightarrow> string \<Rightarrow> ('e, sdkClusterRolloutStatus \<times> go_error option) prog" where
  "clusterRolloutStatus R rs clusterName ref = (
     let status = \<lparr>crClusterName = clusterName, crStatus = ToApply, crLastTransitionTime = None\<rparr>;
         finish = (\<lambda>(s, t, err). (status\<lparr>crStatus := s, crLastTransitionTime := t\<rparr>, err));
         desiredMSA = buildManagedServiceAccount (rLib R) rs clusterName ref
     in do {
       r \<leftarrow> ccGet (msaClient R) (objectKey (msaMeta desiredMSA));
       case r of
         Inl err \<Rightarrow> if isNotFound err then return (status, None) else return (status, Some err)
       | Inr msa \<Rightarrow>
           if \<not> ownedBySet (rLib R) rs (omLabels (msaMeta msa))
           then return (status\<lparr>crStatus := Failed\<rparr>,
                  Some (conflictError ''ManagedServiceAccount'' (objectKey (msaMeta msa))))
           else if \<not> childMatches (msaClient R) msa desiredMSA msaSpecOps then return (status, None)
           else let (msaStatus, transitionTime) = managedServiceAccountRolloutStatus (rLib R) msa in
             if msaStatus \<noteq> Succeeded then return (finish (msaStatus, transitionTime, None))
             else do {
               a \<leftarrow> accessRolloutStatus R rs clusterName ref transitionTime;
               case a of Inl res \<Rightarrow> return (finish res)
               | Inr successTime \<Rightarrow> do {
                   b \<leftarrow> rbacRolloutStatus R rs clusterName ref successTime;
                   case b of Inl res \<Rightarrow> return (finish res)
                   | Inr successTime' \<Rightarrow> return (finish (Succeeded, successTime', None))
                 }
             }
     })"

section \<open>Summaries\<close>

type_synonym statusMap = "(string, sdkClusterRolloutStatus) fmap"

definition rolloutConditions :: "rolloutSummary option \<Rightarrow> condition list" where
  "rolloutConditions s = (case s of None \<Rightarrow> [] | Some x \<Rightarrow> roConditions x)"

definition placementRolloutConditions :: "replicaSet \<Rightarrow> string \<Rightarrow> condition list" where
  "placementRolloutConditions rs refKey =
     (case find (\<lambda>p. psName p = refKey) (stPlacements (setStatus rs)) of
        None \<Rightarrow> [] | Some p \<Rightarrow> rolloutConditions (psRollout p))"

text \<open>One iteration of the counting loop.\<close>

definition countStatus :: "strset \<Rightarrow> strset \<Rightarrow> statusMap \<Rightarrow> string \<Rightarrow> rolloutSummary \<Rightarrow> rolloutSummary" where
  "countStatus updating timedOut statuses clusterName s =
     (if clusterName |\<in>| updating \<or> clusterName |\<in>| timedOut then s
      else case fmlookup statuses clusterName of None \<Rightarrow> s
        | Some status \<Rightarrow> (case crStatus status of
            Succeeded \<Rightarrow> s\<lparr>roSucceeded := add32 (roSucceeded s) 1\<rparr>
          | Failed \<Rightarrow> s\<lparr>roFailed := add32 (roFailed s) 1\<rparr>
          | TimeOut \<Rightarrow> s\<lparr>roTimedOut := add32 (roTimedOut s) 1\<rparr>
          | _ \<Rightarrow> s))"

text \<open>The summary before its condition is set.\<close>

definition countStatuses :: "int \<Rightarrow> strset \<Rightarrow> strset \<Rightarrow> statusMap \<Rightarrow> condition list \<Rightarrow> rolloutSummary" where
  "countStatuses totalClusters updating timedOut statuses previousConditions =
     fold (countStatus updating timedOut statuses) (sorted_list_of_fset (fmdom statuses))
       \<lparr>roTotal = totalClusters, roUpdating = int32 (int (fcard updating)), roSucceeded = 0, roFailed = 0,
        roTimedOut = int32 (int (fcard timedOut)), roConditions = previousConditions\<rparr>"

definition newRolloutSummary ::
  "lib \<Rightarrow> int \<Rightarrow> strset \<Rightarrow> strset \<Rightarrow> statusMap \<Rightarrow> condition list \<Rightarrow> int \<Rightarrow> rolloutSummary" where
  "newRolloutSummary L totalClusters updating timedOut statuses previousConditions generation =
     (let s = countStatuses totalClusters updating timedOut statuses previousConditions
      in if roTotal s = 0 \<or> roSucceeded s \<noteq> roTotal s then
           s\<lparr>roConditions := setCondition L (roConditions s) conditionProgressing ConditionTrue reasonProgressing
             (''selected clusters '' @ fmt_d (roTotal s) @ ''. managed service accounts '' @
              fmt_d (add32 (roUpdating s) (roSucceeded s)) @ ''/'' @ fmt_d (roTotal s) @ '' progressing..., '' @
              fmt_d (roFailed s) @ '' failed '' @ fmt_d (roTimedOut s) @ '' timeout.'') generation\<rparr>
         else
           s\<lparr>roConditions := setCondition L (roConditions s) conditionProgressing ConditionFalse reasonCompleted
             (''selected clusters '' @ fmt_d (roTotal s) @ ''. managed service accounts '' @
              fmt_d (roSucceeded s) @ ''/'' @ fmt_d (roTotal s) @ '' completed with no errors, '' @
              fmt_d (roFailed s) @ '' failed '' @ fmt_d (roTimedOut s) @ '' timeout.'') generation\<rparr>)"

definition availableDecisionGroupsMessage ::
  "lib \<Rightarrow> placement option \<Rightarrow> clusterGroups \<Rightarrow> statusMap \<Rightarrow> strset \<Rightarrow> string" where
  "availableDecisionGroupsMessage L pl groups statuses applying =
     (let selectedClusters = sdk_GetClusters L groups;
          totalGroups = (case pl of None \<Rightarrow> length groups
            | Some p \<Rightarrow> if plDecisionGroups p > 0 then plDecisionGroups p else length groups);
          totalClusters = (case pl of None \<Rightarrow> int (fcard selectedClusters)
            | Some p \<Rightarrow> if plNumberOfSelectedClusters p > 0 then plNumberOfSelectedClusters p
                        else int (fcard selectedClusters));
          appliedClusters = length (filter (\<lambda>clusterName. clusterName |\<in>| selectedClusters \<and>
              (clusterName |\<in>| applying \<or>
               (case fmlookup statuses clusterName of None \<Rightarrow> False | Some status \<Rightarrow> crStatus status \<noteq> ToApply)))
            (sorted_list_of_fset (fmdom statuses)))
      in fmt_d (int totalGroups) @ '' ('' @ fmt_d (int appliedClusters) @ '' / '' @ fmt_d totalClusters @
         '' clusters applied)'')"

definition noopClusterRolloutStatus :: "string \<Rightarrow> sdkClusterRolloutStatus" where
  "noopClusterRolloutStatus clusterName =
     \<lparr>crClusterName = clusterName, crStatus = ToApply, crLastTransitionTime = None\<rparr>"

section \<open>The plan\<close>

record rolloutPlan =
  plnClusters :: "string list"
  plnCleanupClusters :: strset
  plnStatuses :: statusMap
  plnPlacementRollouts :: "(string, rolloutSummary) fmap"
  plnAvailableDecisionGroups :: "(string, string) fmap"
  plnSummary :: "rolloutSummary option"
  plnRequeueAfter :: int

text \<open>The variables of the loop over the references.\<close>

record planAcc =
  paPlan :: rolloutPlan
  paRollout :: strset
  paTimeout :: strset

text \<open>The statuses of the clusters of one reference: all clusters so far, this reference, in order.\<close>

fun clusterStatusesLoop ::
  "'e reconciler \<Rightarrow> replicaSet \<Rightarrow> placementResolution \<Rightarrow> string list \<Rightarrow> statusMap \<Rightarrow> statusMap
    \<Rightarrow> sdkClusterRolloutStatus list \<Rightarrow> ('e, go_error + statusMap \<times> statusMap \<times> sdkClusterRolloutStatus list) prog" where
  "clusterStatusesLoop R rs resolution [] statuses refStatuses existing = return (Inr (statuses, refStatuses, existing))"
| "clusterStatusesLoop R rs resolution (clusterName # cs) statuses refStatuses existing = do {
     (status, err) \<leftarrow> clusterRolloutStatus R rs clusterName (primaryRef resolution clusterName);
     case err of
       Some e \<Rightarrow>
         if \<not> isChildConflict e then return (Inl e)
         else clusterStatusesLoop R rs resolution cs (fmupd clusterName status statuses)
                (fmupd clusterName status refStatuses) (existing @ [status])
     | None \<Rightarrow> clusterStatusesLoop R rs resolution cs (fmupd clusterName status statuses)
                (fmupd clusterName status refStatuses) (existing @ [status])
   }"

text \<open>The two loops over a rollout result: the statuses, and the names, of the named clusters.\<close>

definition putStatuses :: "sdkClusterRolloutStatus list \<Rightarrow> statusMap \<Rightarrow> statusMap" where
  "putStatuses cs m = fold (\<lambda>c m. if crClusterName c = [] then m else fmupd (crClusterName c) c m) cs m"

definition putNames :: "sdkClusterRolloutStatus list \<Rightarrow> strset \<Rightarrow> strset" where
  "putNames cs S = fold (\<lambda>c S. if crClusterName c = [] then S else finsert (crClusterName c) S) cs S"

definition planStep ::
  "'e reconciler \<Rightarrow> replicaSet \<Rightarrow> placementResolution \<Rightarrow> placementRef \<Rightarrow> planAcc \<Rightarrow> ('e, go_error + planAcc) prog" where
  "planStep R rs resolution ref acc = (
     let L = rLib R; refKey = prName ref; plan = paPlan acc;
         groups = fmget (reClusterGroupsByRef resolution) refKey;
         pl = (case fmlookup (rePlacementsByRef resolution) refKey of None \<Rightarrow> None | Some p \<Rightarrow> p)
     in if length groups = 0 then
          return (Inr (acc\<lparr>paPlan := plan\<lparr>
            plnPlacementRollouts := fmupd refKey
              (newRolloutSummary L 0 {||} {||} fmempty (placementRolloutConditions rs refKey) (setGeneration rs))
              (plnPlacementRollouts plan),
            plnAvailableDecisionGroups := fmupd refKey
              (availableDecisionGroupsMessage L pl groups (plnStatuses plan) {||})
              (plnAvailableDecisionGroups plan)\<rparr>\<rparr>))
        else do {
          r \<leftarrow> clusterStatusesLoop R rs resolution (sorted_list_of_fset (sdk_GetClusters L groups))
                 (plnStatuses plan) fmempty [];
          case r of
            Inl err \<Rightarrow> return (Inl err)
          | Inr (statuses, refStatuses, existing) \<Rightarrow>
              (case sdk_NewRolloutHandler L groups of
                 Some err \<Rightarrow> return (Inl err)
               | None \<Rightarrow>
                  (case sdk_GetRolloutCluster L groups noopClusterRolloutStatus
                          (defaultRolloutStrategy (prRolloutStrategy ref)) existing of
                     Inl err \<Rightarrow> return (Inl err)
                   | Inr res \<Rightarrow>
                       let toRollout = rrClustersToRollout res; timeOut = rrClustersTimeOut res;
                           refStatuses' = putStatuses timeOut (putStatuses toRollout refStatuses);
                           statuses' = putStatuses timeOut (putStatuses toRollout statuses);
                           refRollout = putNames toRollout {||};
                           refTimeout = putNames timeOut {||};
                           requeue = (case rrRecheckAfter res of
                               None \<Rightarrow> plnRequeueAfter plan
                             | Some d \<Rightarrow> if d > 0 \<and> (plnRequeueAfter plan = 0 \<or> d < plnRequeueAfter plan)
                                         then d else plnRequeueAfter plan)
                       in return (Inr (acc\<lparr>
                            paPlan := plan\<lparr>
                              plnStatuses := statuses',
                              plnCleanupClusters := putNames toRollout (plnCleanupClusters plan),
                              plnPlacementRollouts := fmupd refKey
                                (newRolloutSummary L (int32 (int (fcard (sdk_GetClusters L groups)))) refRollout refTimeout
                                   refStatuses' (placementRolloutConditions rs refKey) (setGeneration rs))
                                (plnPlacementRollouts plan),
                              plnAvailableDecisionGroups := fmupd refKey
                                (availableDecisionGroupsMessage L pl groups refStatuses' refRollout)
                                (plnAvailableDecisionGroups plan),
                              plnRequeueAfter := requeue\<rparr>,
                            paRollout := putNames toRollout (paRollout acc),
                            paTimeout := putNames timeOut (paTimeout acc)\<rparr>))))
        })"

fun planLoop ::
  "'e reconciler \<Rightarrow> replicaSet \<Rightarrow> placementResolution \<Rightarrow> placementRef list \<Rightarrow> planAcc \<Rightarrow> ('e, go_error + planAcc) prog" where
  "planLoop R rs resolution [] acc = return (Inr acc)"
| "planLoop R rs resolution (ref # refs) acc = do {
     r \<leftarrow> planStep R rs resolution ref acc;
     case r of Inl err \<Rightarrow> return (Inl err) | Inr acc' \<Rightarrow> planLoop R rs resolution refs acc'
   }"

definition plan_zero :: planAcc where
  "plan_zero = \<lparr>paPlan = \<lparr>plnClusters = [], plnCleanupClusters = {||}, plnStatuses = fmempty,
       plnPlacementRollouts = fmempty, plnAvailableDecisionGroups = fmempty, plnSummary = None,
       plnRequeueAfter = 0\<rparr>, paRollout = {||}, paTimeout = {||}\<rparr>"

text \<open>A caller reads the plan only when there is no error.\<close>

definition planRollout ::
  "'e reconciler \<Rightarrow> replicaSet \<Rightarrow> placementResolution \<Rightarrow> ('e, go_error + rolloutPlan) prog" where
  "planRollout R rs resolution = do {
     r \<leftarrow> planLoop R rs resolution (spPlacementRefs (setSpec rs)) plan_zero;
     case r of
       Inl err \<Rightarrow> return (Inl err)
     | Inr acc \<Rightarrow> return (Inr ((paPlan acc)\<lparr>
         plnClusters := sorted_list_of_fset (paRollout acc),
         plnSummary := Some (newRolloutSummary (rLib R) (int32 (int (length (reClusters resolution))))
           (paRollout acc) (paTimeout acc) (plnStatuses (paPlan acc))
           (rolloutConditions (stRollout (setStatus rs))) (setGeneration rs))\<rparr>))
   }"

section \<open>The rollout in the status\<close>

definition applyPlacementRolloutStatus :: "rolloutPlan \<Rightarrow> replicaSetStatus \<Rightarrow> replicaSetStatus" where
  "applyPlacementRolloutStatus rollout status =
     status\<lparr>stPlacements := map (\<lambda>p. p\<lparr>
        psRollout := fmlookup (plnPlacementRollouts rollout) (psName p),
        psAvailableDecisionGroups := (case fmlookup (plnAvailableDecisionGroups rollout) (psName p) of
           None \<Rightarrow> [] | Some m \<Rightarrow> m)\<rparr>) (stPlacements status)\<rparr>"

definition applyPlacementRolledOutCondition ::
  "lib \<Rightarrow> rolloutSummary option \<Rightarrow> int \<Rightarrow> replicaSetStatus \<Rightarrow> replicaSetStatus" where
  "applyPlacementRolledOutCondition L summ generation status =
     (case summ of None \<Rightarrow> status
      | Some s \<Rightarrow> (case meta_FindStatusCondition L (roConditions s) conditionProgressing of
          None \<Rightarrow> status
        | Some progressing \<Rightarrow>
            if cStatus progressing = ConditionFalse \<and> cReason progressing = reasonCompleted
            then setStatusCond L conditionPlacementRolledOut ConditionTrue reasonComplete (cMessage progressing) generation status
            else setStatusCond L conditionPlacementRolledOut ConditionFalse reasonProgressing (cMessage progressing) generation status))"

section \<open>No panic, and when a ManifestWork has rolled out\<close>

lemma needsApply_progressing:
  "\<not> manifestWorkNeedsApply g applied progressing degraded \<Longrightarrow> \<exists>p. progressing = Some p \<and> cObservedGeneration p = g"
  by (auto simp: manifestWorkNeedsApply_def split: if_splits option.splits)

lemma manifestWorkRolloutStatus_total: "manifestWorkRolloutStatus L work \<noteq> None"
  using needsApply_progressing
  by (fastforce simp: manifestWorkRolloutStatus_def Let_def split: option.splits)

definition rolledOut :: "lib \<Rightarrow> manifestWork \<Rightarrow> bool" where
  "rolledOut L work \<longleftrightarrow> (\<exists>t. manifestWorkRolloutStatus L work = Some (Succeeded, t))"

lemma rolledOut_iff:
  "rolledOut L work \<longleftrightarrow>
     (let g = omGeneration (workMeta work); find = meta_FindStatusCondition L (workConditions work) in
      (\<exists>a. find (c_WorkApplied L) = Some a \<and> cStatus a = ConditionTrue \<and> cObservedGeneration a = g) \<and>
      (\<exists>p. find (c_WorkProgressing L) = Some p \<and> cStatus p = ConditionFalse \<and> cObservedGeneration p = g) \<and>
      (case find (c_WorkDegraded L) of None \<Rightarrow> True | Some d \<Rightarrow> cObservedGeneration d = g))"
  by (cases "meta_FindStatusCondition L (workConditions work) (c_WorkApplied L)";
      cases "meta_FindStatusCondition L (workConditions work) (c_WorkProgressing L)";
      cases "meta_FindStatusCondition L (workConditions work) (c_WorkDegraded L)")
    (auto simp: rolledOut_def manifestWorkRolloutStatus_def manifestWorkNeedsApply_def conditionObserved_def Let_def)

section \<open>Counting\<close>

text \<open>The clusters outside both windows that have a given status.\<close>

definition counted :: "strset \<Rightarrow> strset \<Rightarrow> statusMap \<Rightarrow> rolloutStatus \<Rightarrow> string \<Rightarrow> bool" where
  "counted updating timedOut statuses s c \<longleftrightarrow> c |\<notin>| updating \<and> c |\<notin>| timedOut \<and>
     (case fmlookup statuses c of None \<Rightarrow> False | Some x \<Rightarrow> crStatus x = s)"

definition statusClusters :: "strset \<Rightarrow> strset \<Rightarrow> statusMap \<Rightarrow> rolloutStatus \<Rightarrow> strset" where
  "statusClusters updating timedOut statuses s = ffilter (counted updating timedOut statuses s) (fmdom statuses)"

lemma fold_countStatus_other:
  "roTotal (fold (countStatus u t m) cs s) = roTotal s" "roUpdating (fold (countStatus u t m) cs s) = roUpdating s"
  "roConditions (fold (countStatus u t m) cs s) = roConditions s"
proof (induction cs arbitrary: s)
  case (Cons c cs)
  {
    case 1
    show ?case using Cons.IH(1) by (simp add: countStatus_def split: option.split rolloutStatus.split)
  next
    case 2
    show ?case using Cons.IH(2) by (simp add: countStatus_def split: option.split rolloutStatus.split)
  next
    case 3
    show ?case using Cons.IH(3) by (simp add: countStatus_def split: option.split rolloutStatus.split)
  }
qed simp_all

lemma countStatus_fields:
  "roSucceeded s = int a \<Longrightarrow> a + 1 < 2 ^ 31 \<Longrightarrow>
     roSucceeded (countStatus u t m c s) = int (a + (if counted u t m Succeeded c then 1 else 0))"
  "roFailed s = int a \<Longrightarrow> a + 1 < 2 ^ 31 \<Longrightarrow>
     roFailed (countStatus u t m c s) = int (a + (if counted u t m Failed c then 1 else 0))"
  "roTimedOut s = int a \<Longrightarrow> a + 1 < 2 ^ 31 \<Longrightarrow>
     roTimedOut (countStatus u t m c s) = int (a + (if counted u t m TimeOut c then 1 else 0))"
  using add32_of_nat [of a 1]
  by (simp_all add: countStatus_def counted_def split: option.split rolloutStatus.split)

lemma fold_countStatus:
  "roSucceeded s = int a \<Longrightarrow> a + length cs < 2 ^ 31 \<Longrightarrow>
     roSucceeded (fold (countStatus u t m) cs s) = int (a + length (filter (counted u t m Succeeded) cs))"
  "roFailed s = int a \<Longrightarrow> a + length cs < 2 ^ 31 \<Longrightarrow>
     roFailed (fold (countStatus u t m) cs s) = int (a + length (filter (counted u t m Failed) cs))"
  "roTimedOut s = int a \<Longrightarrow> a + length cs < 2 ^ 31 \<Longrightarrow>
     roTimedOut (fold (countStatus u t m) cs s) = int (a + length (filter (counted u t m TimeOut) cs))"
proof (induction cs arbitrary: s a)
  case (Cons c cs)
  {
    case 1
    then show ?case
      using Cons.IH(1) [OF countStatus_fields(1) [of s a u t m c]] by (simp split: if_splits)
  next
    case 2
    then show ?case
      using Cons.IH(2) [OF countStatus_fields(2) [of s a u t m c]] by (simp split: if_splits)
  next
    case 3
    then show ?case
      using Cons.IH(3) [OF countStatus_fields(3) [of s a u t m c]] by (simp split: if_splits)
  }
qed simp_all

lemma length_filter_fset: "length (filter P (sorted_list_of_fset S)) = fcard (ffilter P S)"
proof -
  have "length (filter P (sorted_list_of_fset S)) = card (set (filter P (sorted_list_of_fset S)))"
    by (rule distinct_card [symmetric]) simp
  also have "set (filter P (sorted_list_of_fset S)) = fset (ffilter P S)"
    by (auto simp: sorted_list_of_fset.rep_eq)
  finally show ?thesis by (simp only: fcard.rep_eq)
qed

text \<open>The counters of a summary; the order in which the statuses are visited does not matter.\<close>

lemma newRolloutSummary_counts:
  "roTotal (newRolloutSummary L n u t m prev g) = roTotal (countStatuses n u t m prev)"
  "roUpdating (newRolloutSummary L n u t m prev g) = roUpdating (countStatuses n u t m prev)"
  "roSucceeded (newRolloutSummary L n u t m prev g) = roSucceeded (countStatuses n u t m prev)"
  "roFailed (newRolloutSummary L n u t m prev g) = roFailed (countStatuses n u t m prev)"
  "roTimedOut (newRolloutSummary L n u t m prev g) = roTimedOut (countStatuses n u t m prev)"
  by (simp_all add: newRolloutSummary_def Let_def)

lemma newRolloutSummary_fields:
  assumes "fcard t + fcard (fmdom m) < 2 ^ 31" "fcard u < 2 ^ 31"
  shows "roTotal (newRolloutSummary L n u t m prev g) = n"
    "roUpdating (newRolloutSummary L n u t m prev g) = int (fcard u)"
    "roSucceeded (newRolloutSummary L n u t m prev g) = int (fcard (statusClusters u t m Succeeded))"
    "roFailed (newRolloutSummary L n u t m prev g) = int (fcard (statusClusters u t m Failed))"
    "roTimedOut (newRolloutSummary L n u t m prev g) = int (fcard t + fcard (statusClusters u t m TimeOut))"
proof -
  have timed: "int32 (int (fcard t)) = int (fcard t)" and upd: "int32 (int (fcard u)) = int (fcard u)"
    using assms by (simp_all add: int32_of_nat)
  note counts = newRolloutSummary_counts countStatuses_def fold_countStatus_other
  show "roTotal (newRolloutSummary L n u t m prev g) = n"
    "roUpdating (newRolloutSummary L n u t m prev g) = int (fcard u)"
    using upd by (simp_all add: counts)
  show "roSucceeded (newRolloutSummary L n u t m prev g) = int (fcard (statusClusters u t m Succeeded))"
    "roFailed (newRolloutSummary L n u t m prev g) = int (fcard (statusClusters u t m Failed))"
    unfolding counts statusClusters_def
    by (subst fold_countStatus(1,2) [where a = 0], use assms in \<open>simp_all add: length_filter_fset\<close>)+
  show "roTimedOut (newRolloutSummary L n u t m prev g) = int (fcard t + fcard (statusClusters u t m TimeOut))"
    unfolding counts statusClusters_def
    by (subst fold_countStatus(3) [where a = "fcard t"], use assms timed in \<open>simp_all add: length_filter_fset\<close>)
qed

lemma newRolloutSummary_conditions:
  "roConditions (newRolloutSummary L n u t m prev g) =
     (let s = newRolloutSummary L n u t m prev g in
      if roTotal s = 0 \<or> roSucceeded s \<noteq> roTotal s then
        setCondition L prev conditionProgressing ConditionTrue reasonProgressing
          (''selected clusters '' @ fmt_d (roTotal s) @ ''. managed service accounts '' @
           fmt_d (add32 (roUpdating s) (roSucceeded s)) @ ''/'' @ fmt_d (roTotal s) @ '' progressing..., '' @
           fmt_d (roFailed s) @ '' failed '' @ fmt_d (roTimedOut s) @ '' timeout.'') g
      else setCondition L prev conditionProgressing ConditionFalse reasonCompleted
          (''selected clusters '' @ fmt_d (roTotal s) @ ''. managed service accounts '' @
           fmt_d (roSucceeded s) @ ''/'' @ fmt_d (roTotal s) @ '' completed with no errors, '' @
           fmt_d (roFailed s) @ '' failed '' @ fmt_d (roTimedOut s) @ '' timeout.'') g)"
  by (simp add: newRolloutSummary_def Let_def countStatuses_def fold_countStatus_other)

lemma statusClusters_sub: "statusClusters u t m s |\<subseteq>| fmdom m |-| (u |\<union>| t)"
  by (auto simp: statusClusters_def counted_def)

lemma statusClusters_disjoint: "s \<noteq> s' \<Longrightarrow> statusClusters u t m s |\<inter>| statusClusters u t m s' = {||}"
  by (auto simp: statusClusters_def counted_def split: option.splits)

lemma fcard_empty [simp]: "fcard {||} = 0"
  by (simp add: fcard.rep_eq)

lemma fcard_disjoint: "A |\<inter>| B = {||} \<Longrightarrow> fcard (A |\<union>| B) = fcard A + fcard B"
  using card_Un_disjoint [of "fset A" "fset B"] by (simp add: fcard.rep_eq) (metis bot_fset.rep_eq inf_fset.rep_eq)

section \<open>Example data\<close>

definition sampleStatuses :: statusMap where
  "sampleStatuses = fmap_of_list
     [(''c1'', \<lparr>crClusterName = ''c1'', crStatus = Succeeded, crLastTransitionTime = None\<rparr>),
      (''c2'', \<lparr>crClusterName = ''c2'', crStatus = ToApply, crLastTransitionTime = None\<rparr>)]"

lemma sampleStatuses_dom: "fmdom sampleStatuses = {|''c1'', ''c2''|}"
  by (simp add: sampleStatuses_def)

lemma sampleStatuses_counts:
  "statusClusters {|''c2''|} {||} sampleStatuses Succeeded = {|''c1''|}"
  "statusClusters {|''c2''|} {||} sampleStatuses Failed = {||}"
  "statusClusters {|''c2''|} {||} sampleStatuses TimeOut = {||}"
  by (auto simp: statusClusters_def counted_def sampleStatuses_def split: if_splits)

section \<open>Properties\<close>

text \<open>
  C24: Reading the rollout status of a ManifestWork never panics: the pointer to the Progressing
  condition is dereferenced only where it is not nil. And a ManifestWork counts as rolled out exactly
  when, at its current generation, Applied is True and Progressing is False, and Degraded is absent
  or observed at that generation.
\<close>

theorem manifestWorkRolloutStatus_safe:
  "manifestWorkRolloutStatus L work \<noteq> None \<and>
   ((\<exists>t. manifestWorkRolloutStatus L work = Some (Succeeded, t)) \<longleftrightarrow>
     (let g = omGeneration (workMeta work); find = meta_FindStatusCondition L (workConditions work) in
      (\<exists>a. find (c_WorkApplied L) = Some a \<and> cStatus a = ConditionTrue \<and> cObservedGeneration a = g) \<and>
      (\<exists>p. find (c_WorkProgressing L) = Some p \<and> cStatus p = ConditionFalse \<and> cObservedGeneration p = g) \<and>
      (case find (c_WorkDegraded L) of None \<Rightarrow> True | Some d \<Rightarrow> cObservedGeneration d = g)))"
  using manifestWorkRolloutStatus_total [of L work] rolledOut_iff [of L work] by (simp add: rolledOut_def)

text \<open>
  C23: A rollout summary counts every cluster once. When the clusters of the rollout window and those
  that timed out are disjoint and have statuses, the four counters are exact cardinalities (no
  \<^verbatim>\<open>int32\<close> wrap-around for fewer than \<open>2 ^ 31\<close> clusters, whatever order the Go map is ranged in),
  they add up to at most the number of clusters, and the Progressing condition says Completed exactly
  when there is a cluster and every cluster has succeeded.
\<close>

theorem newRolloutSummary_exact:
  assumes "condition_library L" "fcard timedOut + fcard (fmdom statuses) < 2 ^ 31"
    and "updating |\<inter>| timedOut = {||}" "updating |\<union>| timedOut |\<subseteq>| fmdom statuses"
    and "s = newRolloutSummary L (int (fcard (fmdom statuses))) updating timedOut statuses prev g"
  shows "roUpdating s = int (fcard updating) \<and>
    roSucceeded s = int (fcard (statusClusters updating timedOut statuses Succeeded)) \<and>
    roFailed s = int (fcard (statusClusters updating timedOut statuses Failed)) \<and>
    roTimedOut s = int (fcard timedOut + fcard (statusClusters updating timedOut statuses TimeOut)) \<and>
    roUpdating s + roSucceeded s + roFailed s + roTimedOut s \<le> int (fcard (fmdom statuses)) \<and>
    ((\<exists>msg. condView L (roConditions s) conditionProgressing = Some (ConditionFalse, reasonCompleted, msg, g)) \<longleftrightarrow>
      fmdom statuses \<noteq> {||} \<and> statusClusters updating timedOut statuses Succeeded = fmdom statuses)"
proof -
  let ?c = "statusClusters updating timedOut statuses"
  have le: "fcard updating \<le> fcard (fmdom statuses)"
    using assms(4) by (intro fcard_mono) auto
  then have small: "fcard updating < 2 ^ 31" using assms(2) by simp
  note fields = newRolloutSummary_fields [OF assms(2) small, of L "int (fcard (fmdom statuses))" prev g, folded assms(5)]
  have sum: "fcard updating + fcard timedOut + (fcard (?c Succeeded) + (fcard (?c Failed) + fcard (?c TimeOut))) \<le> fcard (fmdom statuses)"
  proof -
    have "fcard ((updating |\<union>| timedOut) |\<union>| (?c Succeeded |\<union>| (?c Failed |\<union>| ?c TimeOut))) =
        fcard (updating |\<union>| timedOut) + fcard (?c Succeeded |\<union>| (?c Failed |\<union>| ?c TimeOut))"
      using statusClusters_sub [of updating timedOut statuses] by (intro fcard_disjoint) auto
    also have "\<dots> = fcard updating + fcard timedOut + (fcard (?c Succeeded) + (fcard (?c Failed) + fcard (?c TimeOut)))"
      using assms(3) statusClusters_disjoint [of _ _ updating timedOut statuses]
      by (simp add: fcard_disjoint inf_sup_distrib1)
    finally show ?thesis
      using fcard_mono [of "(updating |\<union>| timedOut) |\<union>| (?c Succeeded |\<union>| (?c Failed |\<union>| ?c TimeOut))" "fmdom statuses"]
        assms(4) statusClusters_sub [of updating timedOut statuses] by fastforce
  qed
  have all: "fcard (?c Succeeded) = fcard (fmdom statuses) \<longleftrightarrow> ?c Succeeded = fmdom statuses"
  proof -
    have "?c Succeeded |\<subseteq>| fmdom statuses" using statusClusters_sub [of updating timedOut statuses Succeeded] by auto
    then show ?thesis using fcard_seteq [of "?c Succeeded" "fmdom statuses"] by (metis order_refl)
  qed
  have "(\<exists>msg. condView L (roConditions s) conditionProgressing = Some (ConditionFalse, reasonCompleted, msg, g)) \<longleftrightarrow>
      \<not> (roTotal s = 0 \<or> roSucceeded s \<noteq> roTotal s)"
    unfolding assms(5) newRolloutSummary_conditions
    by (simp add: Let_def condition_library.condView_setCondition [OF assms(1)])
  with fields all sum show ?thesis by simp
qed

theorem newRolloutSummary_exact_witness:
  "let s = newRolloutSummary ref_lib 2 {|''c2''|} {||} sampleStatuses [] 1
   in roUpdating s = 1 \<and> roSucceeded s = 1 \<and> roFailed s = 0 \<and>
      roUpdating s + roSucceeded s + roFailed s + roTimedOut s \<le> 2 \<and>
      \<not> (\<exists>msg. condView ref_lib (roConditions s) conditionProgressing = Some (ConditionFalse, reasonCompleted, msg, 1))"
proof -
  have "fcard {|''c1''|} = 1" "fcard {|''c2''|} = 1" "fcard ({||} :: strset) = 0" "fcard {|''c1'', ''c2''|} = 2"
    "{|''c1''|} \<noteq> {|''c1'', ''c2''|}"
    by (simp_all add: fcard.rep_eq)
  then show ?thesis
    using newRolloutSummary_exact [OF ref.condition_library_axioms, of "{||}" sampleStatuses "{|''c2''|}" _ "[]" 1, OF _ _ _ refl]
    unfolding Let_def by (simp add: sampleStatuses_dom sampleStatuses_counts)
qed

end
