(* ===== verification/Cleanup.thy ===== *)
theory Cleanup
  imports Status
begin

text \<open>
  Deleting generated children (\<^verbatim>\<open>managedserviceaccountreplicaset_controller.go\<close>):
  \<^verbatim>\<open>deleteStaleChildren\<close> for children a live set no longer wants, and \<^verbatim>\<open>reconcileDelete\<close> with
  \<^verbatim>\<open>waitForCleanup\<close> for a set being deleted. ManifestWorks go first: a ManagedServiceAccount is
  deleted, and the finalizer removed, only when no ManifestWork that has to go is left.
\<close>

record ctrlResult =
  resRequeueAfter :: int

definition ctrlResult_zero :: ctrlResult where
  "ctrlResult_zero = \<lparr>resRequeueAfter = 0\<rparr>"

text \<open>\<^verbatim>\<open>if err := r.Delete(...); client.IgnoreNotFound(err) != nil { joined = errors.Join(joined, err) }\<close>\<close>

definition joinDeleteErr :: "go_error option \<Rightarrow> go_error option \<Rightarrow> go_error option" where
  "joinDeleteErr joined err = (if ignoreNotFound err \<noteq> None then errors_Join [joined, err] else joined)"

definition deleteAll :: "('t \<Rightarrow> ('e, go_error option) prog) \<Rightarrow> 't list \<Rightarrow> go_error option \<Rightarrow> ('e, go_error option) prog" where
  "deleteAll del items joined =
     mfold (\<lambda>x joined. do { err \<leftarrow> del x; return (joinDeleteErr joined err) }) items joined"

section \<open>Stale children\<close>

text \<open>
  The condition under which a child in a cluster namespace is stale: the cluster is not selected,
  or it is in the current rollout window and does not want a child of this name.
\<close>

definition staleChild :: "strset \<Rightarrow> strset \<Rightarrow> strset \<Rightarrow> string \<Rightarrow> string \<Rightarrow> bool" where
  "staleChild desiredClusters cleanupClusters desiredNames namespace name \<longleftrightarrow>
     namespace |\<notin>| desiredClusters \<or> (namespace |\<in>| cleanupClusters \<and> name |\<notin>| desiredNames)"

definition desiredNamesAt :: "(string, strset) fmap \<Rightarrow> string \<Rightarrow> strset" where
  "desiredNamesAt m namespace = (case fmlookup m namespace of None \<Rightarrow> {||} | Some names \<Rightarrow> names)"

definition generatedChildListOptions :: "replicaSet \<Rightarrow> selector" where
  "generatedChildListOptions rs = ownedSelector rs"

definition deleteStaleChildren ::
  "'e reconciler \<Rightarrow> replicaSet \<Rightarrow> strset \<Rightarrow> strset \<Rightarrow> (string, strset) fmap \<Rightarrow> strset
    \<Rightarrow> ('e, bool \<times> go_error option) prog" where
  "deleteStaleChildren R rs desiredClusters cleanupClusters desiredWorkNames desiredMSANames = do {
     works \<leftarrow> listWorks R (generatedChildListOptions rs);
     case works of
       Inl err \<Rightarrow> return (False, Some err)
     | Inr items \<Rightarrow> do {
         let stale = filter (\<lambda>work. staleChild desiredClusters cleanupClusters
               (desiredNamesAt desiredWorkNames (omNamespace (workMeta work)))
               (omNamespace (workMeta work)) (omName (workMeta work))) items;
         joined \<leftarrow> deleteAll (deleteWork R) stale None;
         if joined \<noteq> None \<or> stale \<noteq> [] then return (True, joined)
         else do {
           msas \<leftarrow> listMSAs R (generatedChildListOptions rs);
           case msas of
             Inl err \<Rightarrow> return (False, Some err)
           | Inr msaItems \<Rightarrow> do {
               joined' \<leftarrow> deleteAll (deleteMSA R)
                 (filter (\<lambda>msa. staleChild desiredClusters cleanupClusters desiredMSANames
                    (omNamespace (msaMeta msa)) (omName (msaMeta msa))) msaItems) joined;
               return (False, joined')
             }
         }
       }
   }"

section \<open>Deletion of the set\<close>

definition waitForCleanup ::
  "'e reconciler \<Rightarrow> replicaSet \<Rightarrow> nat \<Rightarrow> nat \<Rightarrow> ('e, replicaSet \<times> ctrlResult \<times> go_error option) prog" where
  "waitForCleanup R rs remainingWorks remainingMSAs = (
     let msg = ''waiting for cleanup of '' @ fmt_d (int remainingWorks) @ '' ManifestWork and '' @
               fmt_d (int remainingMSAs) @ '' ManagedServiceAccount objects'';
         status = setStatusCond (rLib R) conditionReady ConditionFalse reasonCleanupBlocked msg (setGeneration rs)
           (setStatusCond (rLib R) conditionCleanupBlocked ConditionTrue reasonWaitingForOCMCleanup msg (setGeneration rs)
             ((newStatus rs)\<lparr>stObservedGeneration := setGeneration rs\<rparr>))
     in do {
       (rs', err) \<leftarrow> patchStatus R rs status;
       if err \<noteq> None then return (rs', ctrlResult_zero, err)
       else return (rs', \<lparr>resRequeueAfter = cleanupRequeueInterval\<rparr>, None)
     })"

text \<open>\<^verbatim>\<open>controllerutil.RemoveFinalizer\<close> and the patch with optimistic lock.\<close>

definition removeFinalizerStep ::
  "'e reconciler \<Rightarrow> replicaSet \<Rightarrow> ('e, replicaSet \<times> ctrlResult \<times> go_error option) prog" where
  "removeFinalizerStep R rs = (
     let (finalizers, changed) = util_RemoveFinalizer (rLib R) (omFinalizers (setMeta rs)) finalizerName;
         rs1 = rs\<lparr>setMeta := (setMeta rs)\<lparr>omFinalizers := finalizers\<rparr>\<rparr>
     in if \<not> changed then return (rs1, ctrlResult_zero, None)
        else do {
          r \<leftarrow> patchSet R rs rs1;
          case r of
            Inl err \<Rightarrow> return (rs1, ctrlResult_zero, Some err)
          | Inr rs2 \<Rightarrow> return (rs2, ctrlResult_zero, None)
        })"

text \<open>The second half, reached with no error and no ManifestWork left: \<^verbatim>\<open>joined\<close> is still nil.\<close>

definition deleteRemainingMSAs ::
  "'e reconciler \<Rightarrow> replicaSet \<Rightarrow> ('e, replicaSet \<times> ctrlResult \<times> go_error option) prog" where
  "deleteRemainingMSAs R rs = do {
     msas \<leftarrow> listMSAs R (generatedChildListOptions rs);
     case msas of
       Inl err \<Rightarrow> return (rs, ctrlResult_zero, Some err)
     | Inr items \<Rightarrow> do {
         joined \<leftarrow> deleteAll (deleteMSA R) (filter (\<lambda>m. deletionTimestamp_IsZero (msaMeta m)) items) None;
         case joined of
           Some err \<Rightarrow> return (rs, ctrlResult_zero, Some err)
         | None \<Rightarrow>
             if length items > 0 then waitForCleanup R rs 0 (length items)
             else removeFinalizerStep R rs
       }
   }"

definition reconcileDelete ::
  "'e reconciler \<Rightarrow> replicaSet \<Rightarrow> ('e, replicaSet \<times> ctrlResult \<times> go_error option) prog" where
  "reconcileDelete R rs = do {
     works \<leftarrow> listWorks R (generatedChildListOptions rs);
     case works of
       Inl err \<Rightarrow> return (rs, ctrlResult_zero, Some err)
     | Inr items \<Rightarrow> do {
         joined \<leftarrow> deleteAll (deleteWork R) (filter (\<lambda>w. deletionTimestamp_IsZero (workMeta w)) items) None;
         case joined of
           Some err \<Rightarrow> return (rs, ctrlResult_zero, Some err)
         | None \<Rightarrow>
             if length items > 0 then waitForCleanup R rs (length items) 0
             else deleteRemainingMSAs R rs
       }
   }"

section \<open>The interface of deletion\<close>

definition childDeletes :: "('t \<Rightarrow> child) \<Rightarrow> 't list \<Rightarrow> go_error option list \<Rightarrow> api_event list" where
  "childDeletes mk items answers = map2 (\<lambda>x r. DeleteChild (mk x) r) items answers"

lemma childDeletes_Nil [simp]: "childDeletes mk [] answers = []"
  by (simp add: childDeletes_def)

lemma set_childDeletes:
  "e \<in> set (childDeletes mk items answers) \<Longrightarrow> \<exists>x r. x \<in> set items \<and> e = DeleteChild (mk x) r"
  unfolding childDeletes_def by (force dest: set_zip_leftD)

text \<open>Listing and deleting one child type: each call is one event.\<close>

locale child_deleter =
  fixes del :: "'t \<Rightarrow> ('e, go_error option) prog"
    and lst :: "selector \<Rightarrow> ('e, go_error + 't list) prog"
    and mk :: "'t \<Rightarrow> child" and kind :: childKind
  assumes del_emits: "emits (del x) (\<lambda>r es. es = [DeleteChild (mk x) r])"
    and list_emits: "emits (lst sel) (\<lambda>r es. es = [ListChildren kind sel (map_sum id (map mk) r)])"
    and mk_kind: "kindOf (mk x) = kind"
begin

text \<open>Every item is deleted, in order; there is an error when some deletion failed other than by NotFound.\<close>

lemma deleteAll_emits:
  "emits (deleteAll del items joined) (\<lambda>r es. \<exists>answers. length answers = length items \<and>
     es = childDeletes mk items answers \<and>
     (r = None \<longleftrightarrow> joined = None \<and> (\<forall>a \<in> set answers. ignoreNotFound a = None)))"
  unfolding deleteAll_def
proof (rule emits_mfold)
  show "\<exists>answers. length answers = length [] \<and> [] = childDeletes mk [] answers \<and>
      (joined = None \<longleftrightarrow> joined = None \<and> (\<forall>a \<in> set answers. ignoreNotFound a = None))"
    by (simp add: childDeletes_def)
next
  fix xs x ys es and acc :: "go_error option"
  assume "\<exists>answers. length answers = length xs \<and> es = childDeletes mk xs answers \<and>
      (acc = None \<longleftrightarrow> joined = None \<and> (\<forall>a \<in> set answers. ignoreNotFound a = None))"
  then obtain answers where answers: "length answers = length xs" "es = childDeletes mk xs answers"
    "acc = None \<longleftrightarrow> joined = None \<and> (\<forall>a \<in> set answers. ignoreNotFound a = None)" by blast
  have "joinDeleteErr acc r = None \<longleftrightarrow> acc = None \<and> ignoreNotFound r = None" for r
    by (cases r) (auto simp: joinDeleteErr_def errors_Join_pair ignoreNotFound_def)
  with answers show "emits (State_Monad.bind (del x) (\<lambda>err. return (joinDeleteErr acc err)))
      (\<lambda>r es'. \<exists>answers. length answers = length (xs @ [x]) \<and> es @ es' = childDeletes mk (xs @ [x]) answers \<and>
         (r = None \<longleftrightarrow> joined = None \<and> (\<forall>a \<in> set answers. ignoreNotFound a = None)))"
    by (intro emits_bind [OF del_emits] emits_return)
      (rule_tac x = "answers @ [a]" in exI, auto simp: childDeletes_def)
qed

end

interpretation works: child_deleter "deleteWork R" "listWorks R" Work WorkKind for R :: "'e reconciler"
  by unfold_locales (auto simp: deleteWork_def listWorks_def intro: emits_call)

interpretation msas: child_deleter "deleteMSA R" "listMSAs R" MSA MSAKind for R :: "'e reconciler"
  by unfold_locales (auto simp: deleteMSA_def listMSAs_def intro: emits_call)

section \<open>What cleanup of stale children does\<close>

definition staleWorks :: "strset \<Rightarrow> strset \<Rightarrow> (string, strset) fmap \<Rightarrow> manifestWork list \<Rightarrow> manifestWork list" where
  "staleWorks desiredClusters cleanupClusters names items = filter (\<lambda>work. staleChild desiredClusters cleanupClusters
     (desiredNamesAt names (omNamespace (workMeta work))) (omNamespace (workMeta work)) (omName (workMeta work))) items"

definition staleMSAs :: "strset \<Rightarrow> strset \<Rightarrow> strset \<Rightarrow> managedServiceAccount list \<Rightarrow> managedServiceAccount list" where
  "staleMSAs desiredClusters cleanupClusters names items = filter (\<lambda>msa. staleChild desiredClusters cleanupClusters
     names (omNamespace (msaMeta msa)) (omName (msaMeta msa))) items"

definition deleteFailure :: "go_error option list \<Rightarrow> go_error option \<Rightarrow> bool" where
  "deleteFailure answers err \<longleftrightarrow> (err = None \<longleftrightarrow> (\<forall>a \<in> set answers. ignoreNotFound a = None))"

inductive staleOutcome ::
  "replicaSet \<Rightarrow> strset \<Rightarrow> strset \<Rightarrow> (string, strset) fmap \<Rightarrow> strset \<Rightarrow> bool \<times> go_error option \<Rightarrow> api_event list \<Rightarrow> bool"
  for rs D C N M where
  works_unlisted: "staleOutcome rs D C N M (False, Some e) [ListChildren WorkKind (ownedSelector rs) (Inl e)]"
| works_deleted: "staleWorks D C N items \<noteq> [] \<Longrightarrow> length answers = length (staleWorks D C N items) \<Longrightarrow>
     deleteFailure answers err \<Longrightarrow>
     staleOutcome rs D C N M (True, err) (ListChildren WorkKind (ownedSelector rs) (Inr (map Work items)) #
       childDeletes Work (staleWorks D C N items) answers)"
| msas_unlisted: "staleWorks D C N items = [] \<Longrightarrow>
     staleOutcome rs D C N M (False, Some e) [ListChildren WorkKind (ownedSelector rs) (Inr (map Work items)),
       ListChildren MSAKind (ownedSelector rs) (Inl e)]"
| msas_deleted: "staleWorks D C N items = [] \<Longrightarrow> length answers = length (staleMSAs D C M msaItems) \<Longrightarrow>
     deleteFailure answers err \<Longrightarrow>
     staleOutcome rs D C N M (False, err) (ListChildren WorkKind (ownedSelector rs) (Inr (map Work items)) #
       ListChildren MSAKind (ownedSelector rs) (Inr (map MSA msaItems)) #
       childDeletes MSA (staleMSAs D C M msaItems) answers)"

inductive_cases staleOutcomeE: "staleOutcome rs D C N M r es"

lemma deleteStaleChildren_emits:
  "emits (deleteStaleChildren R rs D C N M) (\<lambda>r es. staleOutcome rs D C N M r es)"
  unfolding deleteStaleChildren_def generatedChildListOptions_def
    staleWorks_def [symmetric] staleMSAs_def [symmetric] Let_def
proof (rule emits_bind [OF works.list_emits], clarsimp split: sum.split, intro conjI allI impI)
  fix e
  show "emits (return (False, Some e))
      (\<lambda>r es'. staleOutcome rs D C N M r (ListChildren WorkKind (ownedSelector rs) (Inl e) # es'))"
    by (rule emits_return) (simp add: works_unlisted)
next
  fix items
  show "emits (State_Monad.bind (deleteAll (deleteWork R) (staleWorks D C N items) None)
      (\<lambda>joined. if (\<exists>y. joined = Some y) \<or> staleWorks D C N items \<noteq> [] then return (True, joined)
         else State_Monad.bind (listMSAs R (ownedSelector rs)) (case_sum (\<lambda>err. return (False, Some err))
           (\<lambda>msaItems. State_Monad.bind (deleteAll (deleteMSA R) (staleMSAs D C M msaItems) joined)
             (\<lambda>joined'. return (False, joined'))))))
      (\<lambda>r es'. staleOutcome rs D C N M r (ListChildren WorkKind (ownedSelector rs) (Inr (map Work items)) # es'))"
  proof (cases "staleWorks D C N items = []")
    case False
    then show ?thesis
      by (auto intro!: emits_bind [OF works.deleteAll_emits] emits_return works_deleted
          simp: deleteFailure_def) blast
  next
    case True
    show ?thesis
      by (auto simp: True deleteFailure_def intro!: emits_bind [OF works.deleteAll_emits]
          emits_bind [OF msas.list_emits] emits_bind [OF msas.deleteAll_emits] emits_return
          msas_unlisted msas_deleted split: sum.split) blast
  qed
qed

text \<open>Under the ownership policy: only children listed under the set's selector are deleted.\<close>

lemma own_deletes:
  assumes "ListChildren kind (ownedSelector rs) (Inr (map mk items)) \<in> A" "set xs \<subseteq> set items"
    and "\<And>x. kindOf (mk x) = kind"
  shows "justified (writeOK L rs) A (childDeletes mk xs answers)"
proof (rule own.justified_all)
  fix e
  assume "e \<in> set (childDeletes mk xs answers)"
  then obtain x r where "x \<in> set xs" "e = DeleteChild (mk x) r" by (blast dest: set_childDeletes)
  with assms show "writeOK L rs A e" by (auto intro!: exI [of _ "map mk items"])
qed

lemmas own_deletes_works = own_deletes [where mk = Work and kind = WorkKind, simplified]
lemmas own_deletes_msas = own_deletes [where mk = MSA and kind = MSAKind, simplified]

lemma own_deleteStaleChildren: "own.complies L rs (deleteStaleChildren R rs D C N M)"
  unfolding own.complies_emits
proof (rule emits_weaken [OF deleteStaleChildren_emits])
  fix r es
  assume "staleOutcome rs D C N M r es"
  then show "justified (writeOK L rs) {} es"
    by cases (auto simp: staleWorks_def staleMSAs_def intro!: own_deletes_works own_deletes_msas)
qed

section \<open>What deletion of the set does\<close>

lemma own_patchStatus: "own.complies L rs0 (patchStatus R rs status)"
  unfolding patchStatus_def patchSetStatus_def
  by (auto intro!: policy_intros own.complies_call)

lemma own_waitForCleanup: "own.complies L rs0 (waitForCleanup R rs a b)"
  unfolding waitForCleanup_def by (auto intro!: policy_intros own_patchStatus)

text \<open>The deletion of a set complies with any policy that allows its four kinds of calls.\<close>

context trace_policy
begin

lemma justified_childDeletes:
  "(\<And>x r. x \<in> set xs \<Longrightarrow> J A (DeleteChild (mk x) r)) \<Longrightarrow> justified J A (childDeletes mk xs answers)"
  by (rule justified_all) (auto dest: set_childDeletes)

lemma deleteRemainingMSAs_complies:
  assumes works: "ListChildren WorkKind (ownedSelector rs) (Inr []) \<in> A"
    and lists: "\<And>A kind r. J A (ListChildren kind (ownedSelector rs) r)"
    and deleteMSAs: "\<And>A items c r. ListChildren WorkKind (ownedSelector rs) (Inr []) \<in> A \<Longrightarrow>
        ListChildren MSAKind (ownedSelector rs) (Inr items) \<in> A \<Longrightarrow>
        c \<in> set items \<Longrightarrow> kindOf c = MSAKind \<Longrightarrow> J A (DeleteChild c r)"
    and wait: "\<And>a b. complies (waitForCleanup R rs a b)"
    and fin: "\<And>A. ListChildren WorkKind (ownedSelector rs) (Inr []) \<in> A \<Longrightarrow>
        ListChildren MSAKind (ownedSelector rs) (Inr []) \<in> A \<Longrightarrow> compliesFrom A (removeFinalizerStep R rs)"
  shows "compliesFrom A (deleteRemainingMSAs R rs)"
  unfolding deleteRemainingMSAs_def generatedChildListOptions_def
proof (rule compliesFrom_bind [OF msas.list_emits], simp add: lists, split sum.split, intro conjI allI impI)
  fix a es items
  assume es: "es = [ListChildren MSAKind (ownedSelector rs) (map_sum id (map MSA) a)]" and a: "a = Inr items"
  let ?A = "A \<union> set es"
  have listed: "ListChildren MSAKind (ownedSelector rs) (Inr (map MSA items)) \<in> ?A" by (simp add: es a)
  show "compliesFrom ?A (State_Monad.bind
      (deleteAll (deleteMSA R) (filter (\<lambda>m. deletionTimestamp_IsZero (msaMeta m)) items) None)
      (case_option (if length items > 0 then waitForCleanup R rs 0 (length items) else removeFinalizerStep R rs)
         (\<lambda>err. return (rs, ctrlResult_zero, Some err))))"
    using works listed
    by (intro compliesFrom_bind [OF msas.deleteAll_emits])
      (auto intro!: justified_childDeletes deleteMSAs [OF _ listed] compliesFrom_return
        compliesFrom_complies [OF wait] fin split: option.split)
qed (rule compliesFrom_return)

lemma reconcileDelete_complies:
  assumes lists: "\<And>A kind r. J A (ListChildren kind (ownedSelector rs) r)"
    and deleteWorks: "\<And>A items c r. ListChildren WorkKind (ownedSelector rs) (Inr items) \<in> A \<Longrightarrow>
        c \<in> set items \<Longrightarrow> kindOf c = WorkKind \<Longrightarrow> J A (DeleteChild c r)"
    and deleteMSAs: "\<And>A items c r. ListChildren WorkKind (ownedSelector rs) (Inr []) \<in> A \<Longrightarrow>
        ListChildren MSAKind (ownedSelector rs) (Inr items) \<in> A \<Longrightarrow>
        c \<in> set items \<Longrightarrow> kindOf c = MSAKind \<Longrightarrow> J A (DeleteChild c r)"
    and wait: "\<And>a b. complies (waitForCleanup R rs a b)"
    and fin: "\<And>A. ListChildren WorkKind (ownedSelector rs) (Inr []) \<in> A \<Longrightarrow>
        ListChildren MSAKind (ownedSelector rs) (Inr []) \<in> A \<Longrightarrow> compliesFrom A (removeFinalizerStep R rs)"
  shows "complies (reconcileDelete R rs)"
proof -
  note msaPhase = deleteRemainingMSAs_complies [OF _ lists deleteMSAs wait fin]
  show ?thesis
    unfolding complies_from_empty reconcileDelete_def generatedChildListOptions_def
  proof (rule compliesFrom_bind [OF works.list_emits], simp add: lists, split sum.split, intro conjI allI impI)
    fix a es items
    assume es: "es = [ListChildren WorkKind (ownedSelector rs) (map_sum id (map Work) a)]" and a: "a = Inr items"
    have listed: "ListChildren WorkKind (ownedSelector rs) (Inr (map Work items)) \<in> set es" by (simp add: es a)
    show "compliesFrom ({} \<union> set es) (State_Monad.bind
        (deleteAll (deleteWork R) (filter (\<lambda>w. deletionTimestamp_IsZero (workMeta w)) items) None)
        (case_option (if length items > 0 then waitForCleanup R rs (length items) 0 else deleteRemainingMSAs R rs)
           (\<lambda>err. return (rs, ctrlResult_zero, Some err))))"
      using listed
      by (intro compliesFrom_bind [OF works.deleteAll_emits])
        (auto intro!: justified_childDeletes deleteWorks [OF listed] compliesFrom_return
          compliesFrom_complies [OF wait] msaPhase split: option.split)
  qed (rule compliesFrom_return)
qed

end

lemma own_removeFinalizerStep:
  assumes "finalizer_library (rLib R)" "\<not> deletionTimestamp_IsZero (setMeta rs)"
    and "ListChildren WorkKind (ownedSelector rs) (Inr []) \<in> A"
    and "ListChildren MSAKind (ownedSelector rs) (Inr []) \<in> A"
  shows "own.compliesFrom L rs A (removeFinalizerStep R rs)"
proof -
  let ?new = "withFinalizers rs (filter (\<lambda>f. f \<noteq> finalizerName) (omFinalizers (setMeta rs)))"
  have patch: "own.compliesFrom L rs A (patchSet R rs ?new \<bind> f)"
    if "finalizerName \<in> set (omFinalizers (setMeta rs))" "\<And>A r. own.compliesFrom L rs A (f r)" for f
    unfolding patchSet_def
    by (rule own.compliesFrom_bind [OF emits_call [where Q = "\<lambda>r es. es = [PatchSet rs ?new r]"]])
      (use assms that in simp_all)
  show ?thesis
    unfolding removeFinalizerStep_def finalizer_library.RemoveFinalizer [OF assms(1)] Let_def prod.case
    by (auto intro!: patch [unfolded withFinalizers_def] own.compliesFrom_return split: sum.split)
qed

lemma own_reconcileDelete:
  assumes "finalizer_library (rLib R)" "\<not> deletionTimestamp_IsZero (setMeta rs)"
  shows "own.complies L rs (reconcileDelete R rs)"
  by (rule own.reconcileDelete_complies) (auto simp: own_waitForCleanup own_removeFinalizerStep assms)

text \<open>
  The order of a teardown: a ManagedServiceAccount goes, and the set is patched, only after a
  list of its ManifestWorks came back empty; the patch also needs an empty list of
  ManagedServiceAccounts.
\<close>

fun teardownOK :: "replicaSet \<Rightarrow> api_event set \<Rightarrow> api_event \<Rightarrow> bool" where
  "teardownOK rs before (DeleteChild (MSA m) r) =
     (ListChildren WorkKind (ownedSelector rs) (Inr []) \<in> before \<and>
      (\<exists>items. ListChildren MSAKind (ownedSelector rs) (Inr items) \<in> before \<and> MSA m \<in> set items))"
| "teardownOK rs before (PatchSet base new r) =
     (ListChildren WorkKind (ownedSelector rs) (Inr []) \<in> before \<and>
      ListChildren MSAKind (ownedSelector rs) (Inr []) \<in> before)"
| "teardownOK rs before (CreateChild c r) = False"
| "teardownOK rs before (PatchChild base new r) = False"
| "teardownOK rs before _ = True"

interpretation down: trace_policy "teardownOK rs" for rs
proof unfold_locales
  fix A B e
  assume "A \<subseteq> B" and "teardownOK rs A e"
  then show "teardownOK rs B e" by (cases "(rs, A, e)" rule: teardownOK.cases) auto
qed

lemma teardownOK_works: "kindOf c = WorkKind \<Longrightarrow> teardownOK rs A (DeleteChild c r)"
  by (cases c) simp_all

lemma teardownOK_msas:
  "ListChildren WorkKind (ownedSelector rs) (Inr []) \<in> A \<Longrightarrow>
   ListChildren MSAKind (ownedSelector rs) (Inr items) \<in> A \<Longrightarrow> c \<in> set items \<Longrightarrow> kindOf c = MSAKind \<Longrightarrow>
   teardownOK rs A (DeleteChild c r)"
  by (cases c) auto

lemma down_waitForCleanup: "down.complies rs0 (waitForCleanup R rs a b)"
  unfolding waitForCleanup_def patchStatus_def patchSetStatus_def
  by (intro policy_intros down.complies_call) simp

lemma down_removeFinalizerStep:
  assumes "ListChildren WorkKind (ownedSelector rs) (Inr []) \<in> A"
    and "ListChildren MSAKind (ownedSelector rs) (Inr []) \<in> A"
  shows "down.compliesFrom rs A (removeFinalizerStep R rs)"
proof -
  have patch: "down.compliesFrom rs A (patchSet R rs new \<bind> f)"
    if "\<And>A r. down.compliesFrom rs A (f r)" for f new
    unfolding patchSet_def
    by (rule down.compliesFrom_bind [OF emits_call [where Q = "\<lambda>r es. es = [PatchSet rs new r]"]])
      (use assms that in simp_all)
  show ?thesis
    unfolding removeFinalizerStep_def Let_def
    by (auto intro!: patch down.compliesFrom_return split: sum.split prod.split)
qed

lemma down_reconcileDelete: "down.complies rs (reconcileDelete R rs)"
  by (rule down.reconcileDelete_complies)
    (simp_all add: down_waitForCleanup down_removeFinalizerStep teardownOK_works teardownOK_msas)

section \<open>Properties\<close>

text \<open>
  C13: Cleanup of stale children, on every branch and against any server. The ManifestWorks of the set
  are listed; exactly the stale ones are deleted, and then nothing else happens in this pass. Only
  when no ManifestWork is stale are the ManagedServiceAccounts listed and exactly the stale ones
  deleted. A deletion that finds its object gone is no error.
\<close>

theorem deleteStaleChildren_outcome:
  "\<exists>es. trace (snd (run_state (deleteStaleChildren R rs D C N M) w)) = trace w @ es \<and>
     staleOutcome rs D C N M (fst (run_state (deleteStaleChildren R rs D C N M) w)) es"
  using deleteStaleChildren_emits [of R rs D C N M] by (simp add: emits_def)

text \<open>
  C12: Teardown order, against any server. While a set is being deleted no child is created or
  patched; a ManagedServiceAccount is deleted only after a list of the set's ManifestWorks came
  back empty, so that remote permissions are withdrawn before the account; and the finalizer goes
  only after both lists came back empty.
\<close>

theorem reconcileDelete_order:
  "\<exists>es. trace (snd (run_state (reconcileDelete R rs) w)) = trace w @ es \<and> justified (teardownOK rs) {} es"
  using down_reconcileDelete [of rs R] by (simp add: down.complies_emits emits_def)

end
