(* ===== verification/Reconcile.thy ===== *)
theory Reconcile
  imports Rollout Cleanup
begin

text \<open>
  \<^verbatim>\<open>Reconcile\<close> and \<^verbatim>\<open>reconcileChildren\<close> (\<^verbatim>\<open>managedserviceaccountreplicaset_controller.go\<close>): the
  whole reconciliation of one set, from the request to the status patch and the requeue.
  Variables Go mutates in place (the result, the status, the wanted names, the set itself) are
  threaded explicitly; the map of pointers into \<^verbatim>\<open>status.Placements\<close> is a map of indices.
\<close>

section \<open>Summaries in the status\<close>

definition ensureSummary :: "summary option \<Rightarrow> summary" where
  "ensureSummary slot = (case slot of None \<Rightarrow> summary_zero | Some s \<Rightarrow> s)"

definition indexPlacementsByKey :: "placementStatus list \<Rightarrow> (string, nat) fmap" where
  "indexPlacementsByKey placements =
     fold (\<lambda>i idx. fmupd (psName (placements ! i)) i idx) [0..<length placements] fmempty"

text \<open>One update applied to the summary of the set, and to that of each of the given references.\<close>

definition bumpPlacement :: "(summary \<Rightarrow> summary) \<Rightarrow> (string, nat) fmap \<Rightarrow> string \<Rightarrow> replicaSetStatus \<Rightarrow> replicaSetStatus" where
  "bumpPlacement f placementByKey refKey status =
     (case fmlookup placementByKey refKey of None \<Rightarrow> status
      | Some i \<Rightarrow> status\<lparr>stPlacements := (stPlacements status)[i :=
          (stPlacements status ! i)\<lparr>psSummary := Some (f (ensureSummary (psSummary (stPlacements status ! i))))\<rparr>]\<rparr>)"

definition bumpSummaries ::
  "(summary \<Rightarrow> summary) \<Rightarrow> string list \<Rightarrow> (string, nat) fmap \<Rightarrow> replicaSetStatus \<Rightarrow> replicaSetStatus" where
  "bumpSummaries f refKeys placementByKey status =
     fold (bumpPlacement f placementByKey) refKeys
       (status\<lparr>stSummary := Some (f (ensureSummary (stSummary status)))\<rparr>)"

definition addDesired :: "int \<Rightarrow> summary \<Rightarrow> summary" where
  "addDesired n s = s\<lparr>suDesiredTotal := add32 (suDesiredTotal s) n\<rparr>"

text \<open>\<^verbatim>\<open>status.ControllerAccess.ReadyClusterCount++\<close>\<close>

definition bumpAccessReady :: "replicaSetStatus \<Rightarrow> replicaSetStatus" where
  "bumpAccessReady status = status\<lparr>stControllerAccess :=
     map_option (\<lambda>a. a\<lparr>caReadyClusterCount := add32 (caReadyClusterCount a) 1\<rparr>) (stControllerAccess status)\<rparr>"

section \<open>A cluster outside the rollout window\<close>

definition aggregateExistingSlice ::
  "'e reconciler \<Rightarrow> replicaSet \<Rightarrow> string \<Rightarrow> string \<Rightarrow> string list \<Rightarrow> (string, nat) fmap
    \<Rightarrow> rbacSlice \<Rightarrow> replicaSetStatus \<Rightarrow> ('e, replicaSetStatus) prog" where
  "aggregateExistingSlice R rs clusterName ref refKeys placementByKey sl status = (
     let desiredWork = buildManifestWork (rLib R) rs clusterName ref sl
     in do {
       r \<leftarrow> ccGet (workClient R) (objectKey (workMeta desiredWork));
       case r of
         Inl err \<Rightarrow> return status
       | Inr work \<Rightarrow>
           if \<not> ownedBySet (rLib R) rs (omLabels (workMeta work)) \<or>
              \<not> childMatches (workClient R) work desiredWork (manifestWorkSpecOps (rLib R))
           then return status
           else return (bumpSummaries (\<lambda>s. addSummary s (summarizeManifestWork (rLib R) work (slManifestsHash sl)))
                  refKeys placementByKey status)
     })"

definition aggregateExistingRBACSummary ::
  "'e reconciler \<Rightarrow> replicaSet \<Rightarrow> string \<Rightarrow> string \<Rightarrow> string list \<Rightarrow> (string, nat) fmap
    \<Rightarrow> replicaSetStatus \<Rightarrow> ('e, replicaSetStatus) prog" where
  "aggregateExistingRBACSummary R rs clusterName ref refKeys placementByKey status =
     (if \<not> rbacEnabled rs then return status
      else do {
        (slices, err) \<leftarrow> desiredRBACSlices R rs clusterName;
        mfold (aggregateExistingSlice R rs clusterName ref refKeys placementByKey) slices
          (bumpSummaries (addDesired (int32 (int (length slices)))) refKeys placementByKey status)
      })"

section \<open>A cluster in the rollout window\<close>

record childAcc =
  kaResult :: childReconcileResult
  kaStatus :: replicaSetStatus
  kaWorkNames :: "(string, strset) fmap"

text \<open>
  What follows an ensure call: the error is recorded, otherwise the object's readiness is
  asked. The flag is what remains of \<^verbatim>\<open>clusterReady\<close>.
\<close>

definition noteEnsured :: "('t \<Rightarrow> bool) \<Rightarrow> go_error + 't \<Rightarrow> bool \<times> childAcc \<Rightarrow> bool \<times> childAcc" where
  "noteEnsured ready r acc = (case r of
     Inl err \<Rightarrow> (False, (snd acc)\<lparr>kaResult := recordErr err (kaResult (snd acc))\<rparr>)
   | Inr x \<Rightarrow> (fst acc \<and> ready x, snd acc))"

definition insertWorkName :: "string \<Rightarrow> string \<Rightarrow> childAcc \<Rightarrow> childAcc" where
  "insertWorkName clusterName name acc =
     acc\<lparr>kaWorkNames := fmupd clusterName (finsert name (desiredNamesAt (kaWorkNames acc) clusterName)) (kaWorkNames acc)\<rparr>"

definition ensureAccess :: "'e reconciler \<Rightarrow> replicaSet \<Rightarrow> string \<Rightarrow> string \<Rightarrow> childAcc \<Rightarrow> ('e, bool \<times> childAcc) prog" where
  "ensureAccess R rs clusterName ref acc =
     (if selectorRBACEnabled rs then do {
        r \<leftarrow> ensureControllerAccessManagedServiceAccount R rs clusterName ref;
        let acc1 = noteEnsured (managedServiceAccountReady (rLib R)) r (True, acc);
        let acc2 = (fst acc1, insertWorkName clusterName (controllerAccessManifestWorkName rs) (snd acc1));
        r' \<leftarrow> ensureControllerAccessManifestWork R rs clusterName ref;
        let acc3 = noteEnsured (manifestWorkAvailable (rLib R)) r' acc2;
        return (if fst acc3 then (True, (snd acc3)\<lparr>kaStatus := bumpAccessReady (kaStatus (snd acc3))\<rparr>) else acc3)
      } else return (True, acc))"

definition ensureSlice ::
  "'e reconciler \<Rightarrow> replicaSet \<Rightarrow> string \<Rightarrow> string \<Rightarrow> string list \<Rightarrow> (string, nat) fmap
    \<Rightarrow> rbacSlice \<Rightarrow> bool \<times> childAcc \<Rightarrow> ('e, bool \<times> childAcc) prog" where
  "ensureSlice R rs clusterName ref refKeys placementByKey sl acc = (
     let acc1 = (fst acc, insertWorkName clusterName (slName sl) (snd acc)) in do {
       r \<leftarrow> ensureManifestWork R rs clusterName ref sl;
       let acc2 = noteEnsured (manifestWorkAvailable (rLib R)) r acc1;
       return (case r of Inl err \<Rightarrow> acc2
         | Inr work \<Rightarrow> (fst acc2, (snd acc2)\<lparr>kaStatus :=
             bumpSummaries (\<lambda>s. addSummary s (summarizeManifestWork (rLib R) work (slManifestsHash sl)))
               refKeys placementByKey (kaStatus (snd acc2))\<rparr>))
     })"

definition ensureRBAC ::
  "'e reconciler \<Rightarrow> replicaSet \<Rightarrow> string \<Rightarrow> string \<Rightarrow> string list \<Rightarrow> (string, nat) fmap
    \<Rightarrow> bool \<times> childAcc \<Rightarrow> ('e, bool \<times> childAcc) prog" where
  "ensureRBAC R rs clusterName ref refKeys placementByKey acc =
     (if rbacEnabled rs then do {
        (slices, err) \<leftarrow> desiredRBACSlices R rs clusterName;
        let acc1 = (case err of None \<Rightarrow> acc
          | Some e \<Rightarrow> (False, (snd acc)\<lparr>kaResult := recordErr e (kaResult (snd acc))\<rparr>));
        let acc2 = (fst acc1, (snd acc1)\<lparr>kaStatus :=
          bumpSummaries (addDesired (int32 (int (length slices)))) refKeys placementByKey (kaStatus (snd acc1))\<rparr>);
        mfold (ensureSlice R rs clusterName ref refKeys placementByKey) slices acc2
      } else return acc)"

definition bumpReady :: "childAcc \<Rightarrow> childAcc" where
  "bumpReady acc = acc\<lparr>kaResult := (kaResult acc)\<lparr>crrReady := add32 (crrReady (kaResult acc)) 1\<rparr>\<rparr>"

definition rolloutCluster ::
  "'e reconciler \<Rightarrow> replicaSet \<Rightarrow> string \<Rightarrow> string \<Rightarrow> string list \<Rightarrow> (string, nat) fmap
    \<Rightarrow> childAcc \<Rightarrow> ('e, childAcc) prog" where
  "rolloutCluster R rs clusterName ref refKeys placementByKey acc = do {
     nsErr \<leftarrow> getNamespace R clusterName;
     case nsErr of
       Some err \<Rightarrow> return (acc\<lparr>kaResult := recordErr err (kaResult acc)\<rparr>)
     | None \<Rightarrow> do {
         acc1 \<leftarrow> ensureAccess R rs clusterName ref acc;
         r \<leftarrow> ensureManagedServiceAccount R rs clusterName ref;
         acc2 \<leftarrow> ensureRBAC R rs clusterName ref refKeys placementByKey
                   (noteEnsured (managedServiceAccountReady (rLib R)) r acc1);
         return (if fst acc2 then bumpReady (snd acc2) else snd acc2)
       }
   }"

section \<open>All clusters\<close>

definition clusterStep ::
  "'e reconciler \<Rightarrow> replicaSet \<Rightarrow> placementResolution \<Rightarrow> strset \<Rightarrow> statusMap \<Rightarrow> (string, nat) fmap
    \<Rightarrow> string \<Rightarrow> childAcc \<Rightarrow> ('e, childAcc) prog" where
  "clusterStep R rs resolution rolloutClusters rolloutStatuses placementByKey clusterName acc0 = (
     let acc = acc0\<lparr>kaWorkNames := fmupd clusterName {||} (kaWorkNames acc0)\<rparr>;
         ref = primaryRef resolution clusterName;
         refKeys = fmget (reClusterPlacementRefs resolution) clusterName
     in if clusterName |\<notin>| rolloutClusters then
          (if map_option crStatus (fmlookup rolloutStatuses clusterName) = Some Succeeded then do {
             let acc1 = bumpReady acc;
             let acc2 = (if selectorRBACEnabled rs then acc1\<lparr>kaStatus := bumpAccessReady (kaStatus acc1)\<rparr> else acc1);
             status \<leftarrow> aggregateExistingRBACSummary R rs clusterName ref refKeys placementByKey (kaStatus acc2);
             return (acc2\<lparr>kaStatus := status\<rparr>)
           } else return acc)
        else rolloutCluster R rs clusterName ref refKeys placementByKey acc)"

definition initControllerAccess :: "replicaSet \<Rightarrow> nat \<Rightarrow> replicaSetStatus \<Rightarrow> replicaSetStatus" where
  "initControllerAccess rs clusterCount status =
     (if selectorRBACEnabled rs then status\<lparr>stControllerAccess := Some \<lparr>
        caDesiredClusterCount = int32 (int clusterCount), caReadyClusterCount = 0,
        caConditions = (case stControllerAccess (setStatus rs) of None \<Rightarrow> [] | Some a \<Rightarrow> caConditions a)\<rparr>\<rparr>
      else status)"

definition concludeControllerAccess :: "lib \<Rightarrow> replicaSet \<Rightarrow> replicaSetStatus \<Rightarrow> replicaSetStatus" where
  "concludeControllerAccess L rs status =
     (if selectorRBACEnabled rs then status\<lparr>stControllerAccess := map_option (\<lambda>a.
        if caReadyClusterCount a = caDesiredClusterCount a
        then a\<lparr>caConditions := setCondition L (caConditions a) conditionReady ConditionTrue reasonReady
                ''controller namespace access is ready'' (setGeneration rs)\<rparr>
        else a\<lparr>caConditions := setCondition L (caConditions a) conditionReady ConditionFalse
                reasonWaitingForCredentials ''waiting for controller namespace access'' (setGeneration rs)\<rparr>)
        (stControllerAccess status)\<rparr>
      else status)"

definition reconcileChildren ::
  "'e reconciler \<Rightarrow> replicaSet \<Rightarrow> placementResolution \<Rightarrow> string list \<Rightarrow> strset \<Rightarrow> statusMap
    \<Rightarrow> replicaSetStatus \<Rightarrow> ('e, childReconcileResult \<times> replicaSetStatus) prog" where
  "reconcileChildren R rs resolution rolloutClusterNames cleanupClusters rolloutStatuses status = do {
     let clusterNames = reClusters resolution;
     acc \<leftarrow> mfold (clusterStep R rs resolution (fset_of_list rolloutClusterNames) rolloutStatuses
                    (indexPlacementsByKey (stPlacements status))) clusterNames
              \<lparr>kaResult = childReconcileResult_zero,
               kaStatus = initControllerAccess rs (length clusterNames) status, kaWorkNames = fmempty\<rparr>;
     let status' = concludeControllerAccess (rLib R) rs (kaStatus acc);
     if crrErr (kaResult acc) \<noteq> None then return (kaResult acc, status')
     else do {
       (pending, err) \<leftarrow> deleteStaleChildren R rs (fset_of_list clusterNames) cleanupClusters (kaWorkNames acc)
          (desiredManagedServiceAccountNames rs);
       return ((kaResult acc)\<lparr>crrCleanupPending := pending,
         crrErr := (case err of None \<Rightarrow> crrErr (kaResult acc) | Some e \<Rightarrow> errors_Join [crrErr (kaResult acc), Some e])\<rparr>, status')
     }
   }"

section \<open>Reconcile\<close>

text \<open>The early return with a warning event: invalid spec, or no placement resolved.\<close>

definition earlyReturn ::
  "'e reconciler \<Rightarrow> replicaSet \<Rightarrow> replicaSetStatus \<Rightarrow> string \<Rightarrow> string \<Rightarrow> go_error
    \<Rightarrow> ('e, replicaSet \<times> ctrlResult \<times> go_error option) prog" where
  "earlyReturn R rs status reason action err = do {
     recordWarningEvent R rs reason action (error_text err);
     (rs', patchErr) \<leftarrow> patchStatus R rs
        (setEarlyReturnConditions (rLib R) reason (error_text err) (setGeneration rs) status);
     return (rs', ctrlResult_zero, patchErr)
   }"

text \<open>The status after the children were reconciled.\<close>

definition finalStatus :: "lib \<Rightarrow> replicaSet \<Rightarrow> nat \<Rightarrow> childReconcileResult \<Rightarrow> replicaSetStatus \<Rightarrow> replicaSetStatus" where
  "finalStatus L rs clusterCount result status =
     (let status1 = applyChildResultConditions L result clusterCount (setGeneration rs) (rbacEnabled rs)
            (status\<lparr>stReadyClusterCount := crrReady result\<rparr>)
      in if crrCleanupPending result then
           setStatusCond L conditionReady ConditionFalse reasonCleanupBlocked msgStaleCleanupInProgress (setGeneration rs)
             (setStatusCond L conditionCleanupBlocked ConditionTrue reasonWaitingForOCMCleanup msgStaleCleanupBlocked
               (setGeneration rs) status1)
         else setNotDeletingCondition L (setGeneration rs) status1)"

text \<open>The last part: what is reported after the status patch, and when to come back.\<close>

definition concludeReconcile ::
  "'e reconciler \<Rightarrow> replicaSet \<Rightarrow> go_error option \<Rightarrow> childReconcileResult \<Rightarrow> int
    \<Rightarrow> ('e, ctrlResult \<times> go_error option) prog" where
  "concludeReconcile R rs patchErr result requeueAfter =
     (case crrErr result of
        Some err \<Rightarrow> do {
          recordWarningEvent R rs reasonApplyFailed ''ApplyChildren'' (error_text err);
          return (ctrlResult_zero, errors_Join [patchErr, Some err])
        }
      | None \<Rightarrow> do {
          (if crrConflicts result > 0
           then recordWarningEvent R rs reasonChildConflict ''ApplyChildren'' msgChildConflict else return ());
          return (if patchErr \<noteq> None then (ctrlResult_zero, patchErr)
            else if crrCleanupPending result then (\<lparr>resRequeueAfter = cleanupRequeueInterval\<rparr>, None)
            else if requeueAfter > 0 then (\<lparr>resRequeueAfter = requeueAfter\<rparr>, None)
            else if selectorRBACEnabled rs then (\<lparr>resRequeueAfter = selectorRequeueInterval\<rparr>, None)
            else (ctrlResult_zero, None))
        })"

text \<open>From the plan to the end, with the plan's error path.\<close>

definition rolloutAndApply ::
  "'e reconciler \<Rightarrow> replicaSet \<Rightarrow> placementResolution \<Rightarrow> replicaSetStatus
    \<Rightarrow> ('e, replicaSet \<times> ctrlResult \<times> go_error option) prog" where
  "rolloutAndApply R rs resolution status = do {
     plan \<leftarrow> planRollout R rs resolution;
     case plan of
       Inl err \<Rightarrow> do {
         recordWarningEvent R rs reasonApplyFailed ''PlanRollout'' (error_text err);
         (rs', patchErr) \<leftarrow> patchStatus R rs
            (applyChildResultConditions (rLib R) (childReconcileResult_zero\<lparr>crrErr := Some err\<rparr>)
               (length (reClusters resolution)) (setGeneration rs) (rbacEnabled rs) status);
         return (rs', ctrlResult_zero, errors_Join [patchErr, Some err])
       }
     | Inr rollout \<Rightarrow> do {
         let status1 = applyPlacementRolledOutCondition (rLib R) (plnSummary rollout) (setGeneration rs)
               (applyPlacementRolloutStatus rollout (status\<lparr>stRollout := plnSummary rollout\<rparr>));
         (result, status2) \<leftarrow> reconcileChildren R rs resolution (plnClusters rollout)
            (plnCleanupClusters rollout) (plnStatuses rollout) status1;
         (rs', patchErr) \<leftarrow> patchStatus R rs
            (finalStatus (rLib R) rs (length (reClusters resolution)) result status2);
         (res, err) \<leftarrow> concludeReconcile R rs' patchErr result (plnRequeueAfter rollout);
         return (rs', res, err)
       }
   }"

text \<open>A live set that has its finalizer; the second component is \<^verbatim>\<open>keepClusters\<close>.\<close>

definition reconcileLive ::
  "'e reconciler \<Rightarrow> replicaSet \<Rightarrow> ('e, replicaSet \<times> strset \<times> ctrlResult \<times> go_error option) prog" where
  "reconcileLive R rs =
     (case validateRuntimeSpec rs of
        Some err \<Rightarrow> do {
          (rs', res) \<leftarrow> earlyReturn R rs (newStatus rs) reasonInvalidSpec ''ValidateSpec'' err;
          return (rs', {||}, res)
        }
      | None \<Rightarrow> do {
          resolution \<leftarrow> resolvePlacementRefs R rs (setGeneration rs);
          let status = (newStatus rs)\<lparr>stPlacements := rePlacementStatuses resolution,
                 stSelectedClusterCount := int32 (int (length (reClusters resolution)))\<rparr>;
          (case (reErr resolution, reClusters resolution) of
             (Some err, []) \<Rightarrow> do {
               (rs', res) \<leftarrow> earlyReturn R rs status reasonPlacementUnavailable ''ResolvePlacement'' err;
               return (rs', {||}, res)
             }
           | _ \<Rightarrow> do {
               let status1 = (setStatusCond (rLib R) conditionPlacementResolved ConditionTrue reasonResolved
                     ''placement refs resolved'' (setGeneration rs) status)\<lparr>stObservedGeneration := setGeneration rs\<rparr>;
               (rs', res) \<leftarrow> rolloutAndApply R rs resolution status1;
               return (rs', if selectorRBACEnabled rs then fset_of_list (reClusters resolution) else {||}, res)
             })
        })"

definition reconcileBody ::
  "'e reconciler \<Rightarrow> replicaSet \<Rightarrow> ('e, replicaSet \<times> strset \<times> ctrlResult \<times> go_error option) prog" where
  "reconcileBody R rs =
     (if \<not> deletionTimestamp_IsZero (setMeta rs) then do {
        (rs', res) \<leftarrow> reconcileDelete R rs;
        return (rs', {||}, res)
      }
      else let (finalizers, changed) = util_AddFinalizer (rLib R) (omFinalizers (setMeta rs)) finalizerName;
               rs1 = rs\<lparr>setMeta := (setMeta rs)\<lparr>omFinalizers := finalizers\<rparr>\<rparr>
           in if changed then do {
                r \<leftarrow> patchSet R rs rs1;
                case r of
                  Inl err \<Rightarrow> return (rs1, {||}, ctrlResult_zero, Some err)
                | Inr rs2 \<Rightarrow> return (rs2, {||}, ctrlResult_zero, None)
              }
              else reconcileLive R rs1)"

text \<open>The deferred call stops the caches of clusters that are not kept, on every path.\<close>

definition Reconcile :: "'e reconciler \<Rightarrow> key \<Rightarrow> ('e, ctrlResult \<times> go_error option) prog" where
  "Reconcile R req = do {
     r \<leftarrow> getSet R req;
     case r of
       Inl err \<Rightarrow> return (ctrlResult_zero, ignoreNotFound (Some err))
     | Inr rs \<Rightarrow> do {
         (rs', keepClusters, res) \<leftarrow> reconcileBody R rs;
         stopNamespaceCaches R rs' keepClusters;
         return res
       }
   }"

end
