(* ===== verification/Program_Walk.thy ===== *)
theory Program_Walk
  imports Reconcile
begin

text \<open>
  The programs of the controller, walked once. Each locale says which calls move along a preorder on
  worlds, and concludes that every program composed of such calls does: \<open>reading\<close> for the programs that
  read, \<open>applying\<close> for the children, \<open>reconciling\<close> for a live set. Where every single call moves, as for
  an invariant of the environment, the whole \<^const>\<open>Reconcile\<close> does: \<open>calling\<close>. The rules of \<open>yields\<close> are for
  what a program returns.
\<close>

section \<open>Programs that read\<close>

locale reading = world_preorder T for T :: "'e world \<Rightarrow> 'e world \<Rightarrow> bool" +
  fixes R :: "'e reconciler"
  assumes reads: "moves (getPlacement R k)" "moves (listDecisions R sel ns)" "moves (getNamespace R ns)"
    "moves (ccGet (msaClient R) k)" "moves (ccGet (workClient R) k)"
    and warns: "moves (recordWarningEvent R rs reason action msg)"
    and resolves: "moves (resolveGrantNamespaces R rs c g)"
begin

lemmas read_intros = policy_intros reads warns resolves

lemma moves_grantsLoop: "moves (grantsLoop R rs c gs acc)"
proof (induction gs arbitrary: acc)
  case Nil
  show ?case by (simp add: moves_return)
next
  case (Cons g gs)
  then show ?case by (simp, intro impI conjI read_intros)
qed

lemma moves_desiredRBACSlices: "moves (desiredRBACSlices R rs c)"
  unfolding desiredRBACSlices_def by (intro read_intros moves_grantsLoop)

lemma moves_resolvePlacementRefs: "moves (resolvePlacementRefs R rs g)"
  unfolding resolvePlacementRefs_def resolveStep_def resolvePlacementRef_def resolveOCMPlacement_def
  by (intro read_intros)

lemma moves_existingRollout:
  "moves (existingManagedServiceAccountRolloutStatus R rs m)"
  "moves (existingManifestWorkRolloutStatus R rs w)"
  unfolding existingManagedServiceAccountRolloutStatus_def existingManifestWorkRolloutStatus_def
  by (intro read_intros)+

lemma moves_slicesRolloutLoop: "moves (slicesRolloutLoop R rs c ref sls t)"
proof (induction sls arbitrary: t)
  case (Cons sl sls)
  then show ?case by (simp only: slicesRolloutLoop.simps, intro read_intros moves_existingRollout)
qed (simp add: moves_return)

lemma moves_clusterRolloutStatus: "moves (clusterRolloutStatus R rs c ref)"
  unfolding clusterRolloutStatus_def accessRolloutStatus_def rbacRolloutStatus_def
  by (intro read_intros moves_existingRollout moves_slicesRolloutLoop moves_desiredRBACSlices)

lemma moves_clusterStatusesLoop: "moves (clusterStatusesLoop R rs res cs st rst ex)"
proof (induction cs arbitrary: st rst ex)
  case (Cons c cs)
  then show ?case by (simp only: clusterStatusesLoop.simps, intro read_intros moves_clusterRolloutStatus)
qed (simp add: moves_return)

lemma moves_planLoop: "moves (planLoop R rs res refs acc)"
proof (induction refs arbitrary: acc)
  case (Cons ref refs)
  then show ?case by (simp only: planLoop.simps planStep_def, intro read_intros moves_clusterStatusesLoop)
qed (simp add: moves_return)

lemma moves_planRollout: "moves (planRollout R rs res)"
  unfolding planRollout_def by (intro read_intros moves_planLoop)

lemma moves_aggregateExisting: "moves (aggregateExistingRBACSummary R rs c ref keys idx status)"
  unfolding aggregateExistingRBACSummary_def aggregateExistingSlice_def
  by (intro read_intros moves_desiredRBACSlices)

end

section \<open>Programs that write children\<close>

locale applying = reading +
  fixes rs :: replicaSet
  assumes ensures:
    "moves (ensureManagedServiceAccount R rs c ref)"
    "moves (ensureControllerAccessManagedServiceAccount R rs c ref)"
    "moves (ensureControllerAccessManifestWork R rs c ref)"
    "moves (ensureManifestWork R rs c ref sl)"
    and stale: "moves (deleteStaleChildren R rs D C N M)"
begin

lemma moves_clusterStep: "moves (clusterStep R rs res rollout statuses idx c acc)"
  unfolding clusterStep_def rolloutCluster_def ensureAccess_def ensureRBAC_def ensureSlice_def
  by (intro read_intros ensures moves_desiredRBACSlices moves_aggregateExisting)

lemma moves_reconcileChildren: "moves (reconcileChildren R rs res rollout cleanup statuses st)"
  unfolding reconcileChildren_def by (intro read_intros moves_clusterStep stale)

end

section \<open>A live set\<close>

locale reconciling = applying +
  assumes status_patch: "moves (patchStatus R rs status)"
begin

lemma moves_reconcileLive: "moves (reconcileLive R rs)"
  unfolding reconcileLive_def rolloutAndApply_def earlyReturn_def concludeReconcile_def
  by (intro read_intros status_patch moves_planRollout moves_resolvePlacementRefs moves_reconcileChildren)

end

section \<open>Every call\<close>

locale calling = world_preorder T for T :: "'e world \<Rightarrow> 'e world \<Rightarrow> bool" +
  fixes R :: "'e reconciler"
  assumes calls: "moves (getSet R k)" "moves (patchSet R a b)" "moves (patchSetStatus R a b)"
    "moves (getPlacement R k)" "moves (listDecisions R sel ns)" "moves (getNamespace R ns)"
    "moves (ccGet (msaClient R) k)" "moves (ccCreate (msaClient R) m)" "moves (ccPatch (msaClient R) m m')"
    "moves (ccGet (workClient R) k)" "moves (ccCreate (workClient R) v)" "moves (ccPatch (workClient R) v v')"
    "moves (deleteMSA R m)" "moves (deleteWork R v)" "moves (listMSAs R sel)" "moves (listWorks R sel)"
    "moves (recordWarningEvent R rs reason action msg)" "moves (stopNamespaceCaches R rs keep)"
    and resolver_call: "rResolver R = Some f \<Longrightarrow> moves (call (f rs c g sel) ev)"
begin

lemma moves_ensureChild:
  "moves (ensureChild L (msaClient R) rs d ops)" "moves (ensureChild L (workClient R) rs d' ops')"
  unfolding ensureChild_def by (intro policy_intros calls)+

lemma moves_ensure:
  "moves (ensureManagedServiceAccount R rs c ref)" "moves (ensureControllerAccessManagedServiceAccount R rs c ref)"
  "moves (ensureControllerAccessManifestWork R rs c ref)" "moves (ensureManifestWork R rs c ref sl)"
  unfolding ensureManagedServiceAccount_def ensureControllerAccessManagedServiceAccount_def
    ensureControllerAccessManifestWork_def ensureManifestWork_def
  by (rule moves_ensureChild)+

lemma moves_resolveGrantNamespaces: "moves (resolveGrantNamespaces R rs c g)"
proof (cases "rResolver R")
  case None
  show ?thesis unfolding resolveGrantNamespaces_def None option.case by (intro policy_intros)
next
  case (Some f)
  show ?thesis
    unfolding resolveGrantNamespaces_def Some option.case by (intro policy_intros resolver_call [OF Some])
qed

lemma moves_patchStatus: "moves (patchStatus R rs status)"
  unfolding patchStatus_def by (intro policy_intros calls)

lemma moves_deleteStaleChildren: "moves (deleteStaleChildren R rs D C N M)"
  unfolding deleteStaleChildren_def deleteAll_def by (intro policy_intros calls)

lemma moves_reconcileDelete: "moves (reconcileDelete R rs)"
  unfolding reconcileDelete_def deleteRemainingMSAs_def removeFinalizerStep_def waitForCleanup_def deleteAll_def
  by (intro policy_intros calls moves_patchStatus)

end

sublocale calling \<subseteq> live: reconciling T R rs for rs
  by unfold_locales
    (rule calls moves_resolveGrantNamespaces moves_ensure moves_deleteStaleChildren moves_patchStatus)+

context calling
begin

lemma moves_reconcileBody: "moves (reconcileBody R rs)"
  unfolding reconcileBody_def by (intro policy_intros calls moves_reconcileDelete live.moves_reconcileLive)

lemma moves_Reconcile: "moves (Reconcile R req)"
  unfolding Reconcile_def by (intro policy_intros calls moves_reconcileBody)

end

section \<open>What a program returns\<close>

definition yields :: "('s, 'a) state \<Rightarrow> ('a \<Rightarrow> bool) \<Rightarrow> bool" where
  "yields m Q \<longleftrightarrow> (\<forall>w. Q (fst (run_state m w)))"

lemma yieldsD: "yields m Q \<Longrightarrow> run_state m w = (r, w') \<Longrightarrow> Q r"
  unfolding yields_def by (metis fst_conv)

lemma yields_return: "Q x \<Longrightarrow> yields (return x) Q"
  by (simp add: yields_def)

lemma yields_bind: "yields m P \<Longrightarrow> (\<And>a. P a \<Longrightarrow> yields (f a) Q) \<Longrightarrow> yields (State_Monad.bind m f) Q"
  by (simp add: yields_def split_beta)

lemma yields_after: "(\<And>a. yields (f a) Q) \<Longrightarrow> yields (State_Monad.bind m f) Q"
  by (simp add: yields_def split_beta)

lemma yields_call: "(\<And>e. Q (fst (f e))) \<Longrightarrow> yields (call f ev) Q"
  by (simp add: yields_def call_def split_beta)

lemma yields_weaken: "yields m P \<Longrightarrow> (\<And>a. P a \<Longrightarrow> Q a) \<Longrightarrow> yields m Q"
  by (simp add: yields_def)

lemma yields_mfold:
  assumes "I [] acc" and step: "\<And>xs x ys acc. zs = xs @ x # ys \<Longrightarrow> I xs acc \<Longrightarrow> yields (f x acc) (I (xs @ [x]))"
  shows "yields (mfold f zs acc) (I zs)"
proof -
  have "yields (mfold f ys acc) (I zs)" if "zs = xs @ ys" "I xs acc" for xs ys acc
    using that
  proof (induction ys arbitrary: xs acc)
    case Nil
    then show ?case by (simp add: yields_return)
  next
    case (Cons y ys)
    show ?case using Cons.IH [of "xs @ [y]"] Cons.prems(1) by (auto intro: yields_bind [OF step [OF Cons.prems]])
  qed
  from this [of "[]" zs acc] assms(1) show ?thesis by simp
qed

context world_preorder
begin

lemma moves_bind_yields:
  assumes "moves m" "yields m P" "\<And>a. P a \<Longrightarrow> moves (f a)"
  shows "moves (State_Monad.bind m f)"
  unfolding moves_def
proof
  fix w
  obtain a w1 where run: "run_state m w = (a, w1)" by (cases "run_state m w") auto
  have "T w1 (snd (run_state (f a) w1))"
    using assms(3) [OF yieldsD [OF assms(2) run]] by (simp add: moves_def)
  with T_trans [OF movesD [OF assms(1) run]] run show "T w (snd (run_state (State_Monad.bind m f) w))" by simp
qed

end

end
