(* ===== verification/Write_Discipline.thy ===== *)
theory Write_Discipline
  imports Program_Walk
begin

text \<open>
  Trace policies for whole reconciliations. The locale \<open>read_policy\<close> is what a policy needs to
  allow reading; the growth of a trace under it is then one of the preorders along which programs are
  walked. Interpreted for the write policy \<^const>\<open>writeOK\<close> and for the absence of status patches;
  for the former the result is carried up to \<^const>\<open>Reconcile\<close>, against any API server.
\<close>

section \<open>Policies that allow reading\<close>

locale read_policy = trace_policy +
  assumes reads: "J A (GetPlacement k rp)" "J A (ListDecisions sel ns rd)" "J A (GetNamespace ns rn)"
    "J A (GetChild kind k rc)" "J A (ListChildren kind sel rl)" "J A (ResolveNamespaces c gid sel rr)"
    "J A (WarningEvent reason action msg)" "J A (StopCaches k keep)"
begin

lemma complies_reads [policy_intros]:
  "complies (getPlacement R k)" "complies (listDecisions R sel ns)" "complies (getNamespace R ns)"
  "complies (ccGet (msaClient R) k)" "complies (ccGet (workClient R) k)"
  "complies (recordWarningEvent R rs reason action msg)" "complies (stopNamespaceCaches R rs keep)"
  by (auto simp: getPlacement_def listDecisions_def getNamespace_def msaClient_def workClient_def
      recordWarningEvent_def stopNamespaceCaches_def reads intro!: complies_call walk.moves_return
      split: option.split)

lemma complies_resolveGrantNamespaces [policy_intros]: "complies (resolveGrantNamespaces R rs c g)"
  unfolding resolveGrantNamespaces_def by (intro policy_intros complies_call) (rule reads)

end

sublocale read_policy \<subseteq> walk: reading extends R for R :: "'e reconciler"
  by unfold_locales (rule complies_reads complies_resolveGrantNamespaces)+

section \<open>The write policy\<close>

interpretation own: read_policy "writeOK L rs" for L rs
  by unfold_locales simp_all

lemma childMeta_built [simp]:
  "omLabels (msaMeta (buildManagedServiceAccount L rs c ref)) =
     childLabels L rs ref (tmLabels (setTemplateMetadata rs))"
  "omLabels (msaMeta (buildControllerAccessManagedServiceAccount L rs c ref)) = childLabels L rs ref fmempty"
  by (simp_all add: buildManagedServiceAccount_def buildControllerAccessManagedServiceAccount_def Let_def)

lemma own_reconciling:
  assumes "label_library (rLib R)"
  shows "reconciling (own.extends (rLib R) rs) R rs"
proof unfold_locales
  fix c ref sl
  show "own.complies (rLib R) rs (ensureManagedServiceAccount R rs c ref)"
    "own.complies (rLib R) rs (ensureControllerAccessManagedServiceAccount R rs c ref)"
    "own.complies (rLib R) rs (ensureControllerAccessManifestWork R rs c ref)"
    "own.complies (rLib R) rs (ensureManifestWork R rs c ref sl)"
    unfolding ensureManagedServiceAccount_def ensureControllerAccessManagedServiceAccount_def
      ensureControllerAccessManifestWork_def ensureManifestWork_def buildControllerAccessManifestWork_def Let_def
    by (rule msa.ensureChild_complies work.ensureChild_complies;
        simp add: label_library.childLabels_owned [OF assms] label_library.buildManifestWork_owned [OF assms]
          del: sameChild.simps)+
qed (rule own_deleteStaleChildren own_patchStatus)+

interpretation refOwn: reconciling "own.extends ref_lib rs" "hubReconciler ref_lib" rs for rs
  using own_reconciling [of "hubReconciler ref_lib" rs] by (simp add: ref.label_library_axioms)

lemma own_reconcileLive:
  assumes "label_library (rLib R)"
  shows "own.complies (rLib R) rs (reconcileLive R rs)"
  by (rule reconciling.moves_reconcileLive [OF own_reconciling [OF assms]])

section \<open>The whole reconciliation\<close>

lemma writeOK_withFinalizers [simp]: "writeOK L (withFinalizers rs fs) = writeOK L rs"
proof (intro ext)
  fix A e
  have "ownedSelector (withFinalizers rs fs) = ownedSelector rs"
    by (simp add: ownedSelector_def sourceLabels_def withFinalizers_def)
  then show "writeOK L (withFinalizers rs fs) A e = writeOK L rs A e"
    by (cases e) (simp_all add: ownedBySet_def)
qed

lemma own_addFinalizer:
  assumes "deletionTimestamp_IsZero (setMeta rs)" "finalizerName \<notin> set (omFinalizers (setMeta rs))"
    and "\<And>r. own.complies L rs (f r)"
  shows "own.complies L rs (patchSet R rs (withFinalizers rs (omFinalizers (setMeta rs) @ [finalizerName])) \<bind> f)"
  unfolding patchSet_def
  by (rule own.walk.moves_bind, rule own.complies_call) (use assms in simp_all)

lemma own_reconcileBody:
  assumes L: "label_library L" "finalizer_library L" and R: "rLib R = L"
  shows "own.complies L rs (reconcileBody R rs)"
proof (cases "deletionTimestamp_IsZero (setMeta rs)")
  case False
  then show ?thesis
    using own_reconcileDelete [of R rs L] L R
    by (simp add: reconcileBody_def own.walk.moves_return own.walk.moves_bind own.walk.moves_prod)
next
  case True
  let ?fs = "omFinalizers (setMeta rs)"
  have live: "own.complies L rs (reconcileLive R (withFinalizers rs fs))" for fs
    using own_reconcileLive [of R "withFinalizers rs fs"] L(1) R by (simp add: own.complies_emits)
  have add: "util_AddFinalizer L ?fs finalizerName =
      (if finalizerName \<in> set ?fs then (?fs, False) else (?fs @ [finalizerName], True))"
    by (rule finalizer_library.AddFinalizer [OF L(2)])
  show ?thesis
    using True live
    by (auto simp: reconcileBody_def R add withFinalizers_def [symmetric] Let_def
        intro!: own_addFinalizer [OF True] own.walk.moves_return own.walk.moves_sum)
qed

text \<open>
  The trace of a reconciliation: one read of the set; nothing more when that failed, otherwise
  calls whose writes are justified for the set as read.
\<close>

fun disciplined :: "lib \<Rightarrow> key \<Rightarrow> ctrlResult \<times> go_error option \<Rightarrow> api_event list \<Rightarrow> bool" where
  "disciplined L req res (GetSet k (Inl err) # rest) =
     (k = req \<and> rest = [] \<and> res = (ctrlResult_zero, ignoreNotFound (Some err)))"
| "disciplined L req res (GetSet k (Inr rs) # rest) = (k = req \<and> justified (writeOK L rs) {} rest)"
| "disciplined L req res _ = False"

lemma Reconcile_emits:
  assumes "label_library (rLib R)" "finalizer_library (rLib R)"
  shows "emits (Reconcile R req) (\<lambda>res es. disciplined (rLib R) req res es)"
proof -
  have "own.complies (rLib R) rs (State_Monad.bind (reconcileBody R rs)
      (\<lambda>(rs', keepClusters, res). State_Monad.bind (stopNamespaceCaches R rs' keepClusters) (\<lambda>_. return res)))" for rs
    by (intro policy_intros own_reconcileBody assms refl)
  then show ?thesis
    unfolding Reconcile_def getSet_def own.complies_emits
    by (auto intro!: emits_bind_call emits_return split: sum.split)
qed

section \<open>Programs that do not touch the status\<close>

fun noStatusPatch :: "api_event set \<Rightarrow> api_event \<Rightarrow> bool" where
  "noStatusPatch before (PatchSetStatus base new r) = False"
| "noStatusPatch before _ = True"

interpretation quiet: read_policy noStatusPatch
proof unfold_locales
  fix A B e
  assume "A \<subseteq> B" "noStatusPatch A e"
  then show "noStatusPatch B e" by (cases e) simp_all
qed simp_all

lemma ensureOutcome_quiet: "ensureOutcome L cc mk kind rs d ops r es \<Longrightarrow> justified noStatusPatch {} es"
  by (erule ensureOutcomeE) simp_all

lemma quiet_deletes: "justified noStatusPatch A (childDeletes mk xs answers)"
  by (rule quiet.justified_childDeletes) simp

interpretation quiet: applying quiet.extends R rs for R :: "'e reconciler" and rs
proof unfold_locales
  fix c ref sl
  show "quiet.complies (ensureManagedServiceAccount R rs c ref)"
    "quiet.complies (ensureControllerAccessManagedServiceAccount R rs c ref)"
    "quiet.complies (ensureControllerAccessManifestWork R rs c ref)"
    "quiet.complies (ensureManifestWork R rs c ref sl)"
    unfolding quiet.complies_emits ensureManagedServiceAccount_def ensureControllerAccessManagedServiceAccount_def
      ensureControllerAccessManifestWork_def ensureManifestWork_def
    by (rule emits_weaken [OF msa.ensureChild_emits] emits_weaken [OF work.ensureChild_emits],
        erule ensureOutcome_quiet)+
next
  fix D C N M
  show "quiet.complies (deleteStaleChildren R rs D C N M)"
    unfolding quiet.complies_emits
  proof (rule emits_weaken [OF deleteStaleChildren_emits])
    fix r es
    assume "staleOutcome rs D C N M r es"
    then show "justified noStatusPatch {} es" by cases (simp_all add: quiet_deletes)
  qed
qed

lemma justified_quiet: "justified noStatusPatch A es \<longleftrightarrow> (\<forall>base new r. PatchSetStatus base new r \<notin> set es)"
proof (induction es arbitrary: A)
  case (Cons e es)
  then show ?case by (cases e) auto
qed simp

end
