(* ===== verification/Readiness.thy ===== *)
theory Readiness
  imports Write_Discipline
begin

text \<open>
  What it takes to be counted ready. A cluster adds to the ready count only when the calls of this
  reconciliation were answered with each of its children in the state that readiness asks for:
  the ManagedServiceAccount with its token, with selectors the controller's own account and its
  permissions, and with RBAC a ManifestWork for every slice. The lemmas follow the two ways a
  cluster is looked at: ensuring its children inside the rollout window, and reading them outside.
\<close>

declare slicesPost.simps [simp del]

section \<open>Observations\<close>

text \<open>The server answered a read or a write of the child \<open>k\<close> with \<open>ch\<close>.\<close>

definition answered :: "api_event set \<Rightarrow> childKind \<Rightarrow> key \<Rightarrow> child \<Rightarrow> bool" where
  "answered E kind k ch \<longleftrightarrow>
     GetChild kind k (Inr ch) \<in> E \<or>
     (\<exists>d. CreateChild d (Inr ch) \<in> E \<and> kindOf d = kind \<and> objectKey (childMeta d) = k) \<or>
     (\<exists>b n. GetChild kind k (Inr b) \<in> E \<and> PatchChild b n (Inr ch) \<in> E)"

definition msaObserved :: "lib \<Rightarrow> string \<Rightarrow> string \<Rightarrow> api_event set \<Rightarrow> bool" where
  "msaObserved L c name E \<longleftrightarrow> (\<exists>m. answered E MSAKind (c, name) (MSA m) \<and> managedServiceAccountReady L m)"

definition workObserved :: "(manifestWork \<Rightarrow> bool) \<Rightarrow> string \<Rightarrow> string \<Rightarrow> api_event set \<Rightarrow> bool" where
  "workObserved good c name E \<longleftrightarrow> (\<exists>w. answered E WorkKind (c, name) (Work w) \<and> good w)"

definition accessObserved :: "lib \<Rightarrow> (manifestWork \<Rightarrow> bool) \<Rightarrow> replicaSet \<Rightarrow> string \<Rightarrow> api_event set \<Rightarrow> bool" where
  "accessObserved L good rs c E \<longleftrightarrow> (selectorRBACEnabled rs \<longrightarrow>
     msaObserved L c (controllerAccessManagedServiceAccountName rs) E \<and>
     workObserved good c (controllerAccessManifestWorkName rs) E)"

definition rbacObserved :: "lib \<Rightarrow> (manifestWork \<Rightarrow> bool) \<Rightarrow> replicaSet \<Rightarrow> string \<Rightarrow> api_event set \<Rightarrow> bool" where
  "rbacObserved L good rs c E \<longleftrightarrow> (rbacEnabled rs \<longrightarrow>
     (\<exists>slices es. set es \<subseteq> E \<and> slicesPost L True rs c (slices, None) es \<and>
        (\<forall>sl \<in> set slices. workObserved good c (slName sl) E)))"

definition childrenObserved :: "lib \<Rightarrow> (manifestWork \<Rightarrow> bool) \<Rightarrow> replicaSet \<Rightarrow> string \<Rightarrow> api_event set \<Rightarrow> bool" where
  "childrenObserved L good rs c E \<longleftrightarrow>
     msaObserved L c (tmName (setTemplateMetadata rs)) E \<and> accessObserved L good rs c E \<and> rbacObserved L good rs c E"

lemma answered_mono: "answered E kind k ch \<Longrightarrow> E \<subseteq> F \<Longrightarrow> answered F kind k ch"
  unfolding answered_def by blast

lemma msaObserved_mono: "msaObserved L c name E \<Longrightarrow> E \<subseteq> F \<Longrightarrow> msaObserved L c name F"
  unfolding msaObserved_def using answered_mono by blast

lemma workObserved_mono: "workObserved good c name E \<Longrightarrow> E \<subseteq> F \<Longrightarrow> workObserved good c name F"
  unfolding workObserved_def using answered_mono by blast

lemma msaObservedI:
  "answered E MSAKind (c, name) (MSA m) \<Longrightarrow> managedServiceAccountReady L m \<Longrightarrow> E \<subseteq> F \<Longrightarrow> msaObserved L c name F"
  unfolding msaObserved_def using answered_mono by blast

lemma workObservedI: "answered E WorkKind (c, name) (Work w) \<Longrightarrow> good w \<Longrightarrow> E \<subseteq> F \<Longrightarrow> workObserved good c name F"
  unfolding workObserved_def using answered_mono by blast

lemma workObserved_weaken: "workObserved p c name E \<Longrightarrow> (\<And>w. p w \<Longrightarrow> q w) \<Longrightarrow> workObserved q c name E"
  unfolding workObserved_def by blast

lemma accessObserved_mono: "accessObserved L good rs c E \<Longrightarrow> E \<subseteq> F \<Longrightarrow> accessObserved L good rs c F"
  unfolding accessObserved_def using msaObserved_mono workObserved_mono by blast

lemma rbacObserved_mono:
  assumes "rbacObserved L good rs c E" "E \<subseteq> F"
  shows "rbacObserved L good rs c F"
  unfolding rbacObserved_def
proof
  assume "rbacEnabled rs"
  with assms(1) obtain slices es where "set es \<subseteq> E" "slicesPost L True rs c (slices, None) es"
      "\<forall>sl \<in> set slices. workObserved good c (slName sl) E"
    unfolding rbacObserved_def by auto
  moreover from this(1) assms(2) have "set es \<subseteq> F" by simp
  ultimately show "\<exists>slices es. set es \<subseteq> F \<and> slicesPost L True rs c (slices, None) es \<and>
      (\<forall>sl \<in> set slices. workObserved good c (slName sl) F)"
    by (intro exI [of _ slices] exI [of _ es]) (blast intro: workObserved_mono [OF _ assms(2)])
qed

lemma childrenObserved_mono: "childrenObserved L good rs c E \<Longrightarrow> E \<subseteq> F \<Longrightarrow> childrenObserved L good rs c F"
  unfolding childrenObserved_def by (auto elim: msaObserved_mono accessObserved_mono rbacObserved_mono)

lemma childrenObserved_weaken:
  assumes "childrenObserved L p rs c E" and "\<And>w. p w \<Longrightarrow> q w"
  shows "childrenObserved L q rs c E"
proof -
  have "workObserved q c name E" if "workObserved p c name E" for name
    using that assms(2) by (rule workObserved_weaken)
  with assms(1) show ?thesis
    unfolding childrenObserved_def accessObserved_def rbacObserved_def by blast
qed

section \<open>Inside the rollout window\<close>

context child_client
begin

lemma ensureOutcome_answered:
  "ensureOutcome L cc mk kind rs d ops (Inr x) es \<Longrightarrow> answered (set es) kind (objectKey (ccMeta cc d)) (mk x)"
  by (erule ensureOutcomeE) (auto simp: answered_def mk_meta mk_kind)

lemma ensureChild_answers:
  "emits (ensureChild L cc rs d ops) (\<lambda>r es. \<forall>x. r = Inr x \<longrightarrow> answered (set es) kind (objectKey (ccMeta cc d)) (mk x))"
  by (rule emits_weaken [OF ensureChild_emits]) (auto dest: ensureOutcome_answered)

end

lemma built_keys [simp]:
  "objectKey (msaMeta (buildManagedServiceAccount L rs c ref)) = (c, tmName (setTemplateMetadata rs))"
  "objectKey (msaMeta (buildControllerAccessManagedServiceAccount L rs c ref)) =
     (c, controllerAccessManagedServiceAccountName rs)"
  "objectKey (workMeta (buildControllerAccessManifestWork L rs c ref)) = (c, controllerAccessManifestWorkName rs)"
  by (simp_all add: buildManagedServiceAccount_def buildControllerAccessManagedServiceAccount_def
      buildControllerAccessManifestWork_def Let_def objectMeta_zero_def)

lemma ensure_answers:
  "emits (ensureManagedServiceAccount R rs c ref) (\<lambda>r es. \<forall>x. r = Inr x \<longrightarrow>
     answered (set es) MSAKind (c, tmName (setTemplateMetadata rs)) (MSA x))"
  "emits (ensureControllerAccessManagedServiceAccount R rs c ref) (\<lambda>r es. \<forall>x. r = Inr x \<longrightarrow>
     answered (set es) MSAKind (c, controllerAccessManagedServiceAccountName rs) (MSA x))"
  "emits (ensureControllerAccessManifestWork R rs c ref) (\<lambda>r es. \<forall>x. r = Inr x \<longrightarrow>
     answered (set es) WorkKind (c, controllerAccessManifestWorkName rs) (Work x))"
  "emits (ensureManifestWork R rs c ref sl) (\<lambda>r es. \<forall>x. r = Inr x \<longrightarrow>
     answered (set es) WorkKind (c, slName sl) (Work x))"
  using msa.ensureChild_answers [of "rLib R" R rs "buildManagedServiceAccount (rLib R) rs c ref"]
    msa.ensureChild_answers [of "rLib R" R rs "buildControllerAccessManagedServiceAccount (rLib R) rs c ref"]
    work.ensureChild_answers [of "rLib R" R rs "buildControllerAccessManifestWork (rLib R) rs c ref"]
    work.ensureChild_answers [of "rLib R" R rs "buildManifestWork (rLib R) rs c ref sl"]
  by (simp_all add: ensureManagedServiceAccount_def ensureControllerAccessManagedServiceAccount_def
      ensureControllerAccessManifestWork_def ensureManifestWork_def)

abbreviation readyCount :: "childAcc \<Rightarrow> int" where
  "readyCount acc \<equiv> crrReady (kaResult acc)"

lemma noteEnsured_simps [simp]:
  "readyCount (snd (noteEnsured p r acc)) = readyCount (snd acc)"
  "fst (noteEnsured p r acc) \<longleftrightarrow> fst acc \<and> (\<exists>x. r = Inr x \<and> p x)"
  by (simp_all add: noteEnsured_def split: sum.split)

lemma insertWorkName_ready [simp]: "readyCount (insertWorkName c n acc) = readyCount acc"
  by (simp add: insertWorkName_def)

lemma ensureAccess_observes:
  "emits (ensureAccess R rs c ref acc) (\<lambda>r es. readyCount (snd r) = readyCount acc \<and>
     (fst r \<longrightarrow> accessObserved (rLib R) (manifestWorkAvailable (rLib R)) rs c (set es)))"
proof (cases "selectorRBACEnabled rs")
  case False
  then show ?thesis by (simp add: ensureAccess_def emits_return accessObserved_def)
next
  case True
  then show ?thesis
    unfolding ensureAccess_def
    by (auto simp: Let_def accessObserved_def intro: msaObservedI workObservedI split: if_splits
        intro!: emits_bind [OF ensure_answers(2)] emits_bind [OF ensure_answers(3)] emits_return)
qed

lemma ensureSlice_observes:
  "emits (ensureSlice R rs c ref keys idx sl acc) (\<lambda>r es. readyCount (snd r) = readyCount (snd acc) \<and>
     (fst r \<longrightarrow> fst acc \<and> workObserved (manifestWorkAvailable (rLib R)) c (slName sl) (set es)))"
  unfolding ensureSlice_def Let_def
  by (rule emits_bind [OF ensure_answers(4)], rule emits_return)
    (auto intro: workObservedI split: sum.split)

lemma ensureSlices_observe:
  "emits (mfold (ensureSlice R rs c ref keys idx) sls acc) (\<lambda>r es. readyCount (snd r) = readyCount (snd acc) \<and>
     (fst r \<longrightarrow> fst acc \<and> (\<forall>sl \<in> set sls. workObserved (manifestWorkAvailable (rLib R)) c (slName sl) (set es))))"
proof (rule emits_mfold)
  fix xs ys :: "rbacSlice list" and x es and a :: "bool \<times> childAcc"
  assume "readyCount (snd a) = readyCount (snd acc) \<and>
     (fst a \<longrightarrow> fst acc \<and> (\<forall>sl \<in> set xs. workObserved (manifestWorkAvailable (rLib R)) c (slName sl) (set es)))"
  then show "emits (ensureSlice R rs c ref keys idx x a) (\<lambda>r es'. readyCount (snd r) = readyCount (snd acc) \<and>
     (fst r \<longrightarrow> fst acc \<and> (\<forall>sl \<in> set (xs @ [x]). workObserved (manifestWorkAvailable (rLib R)) c (slName sl) (set (es @ es')))))"
    by (auto intro!: emits_weaken [OF ensureSlice_observes] intro: workObserved_mono)
qed simp

lemma ensureRBAC_observes:
  "emits (ensureRBAC R rs c ref keys idx acc) (\<lambda>r es. readyCount (snd r) = readyCount (snd acc) \<and>
     (fst r \<longrightarrow> fst acc \<and> rbacObserved (rLib R) (manifestWorkAvailable (rLib R)) rs c (set es)))"
proof (cases "rbacEnabled rs")
  case False
  then show ?thesis by (simp add: ensureRBAC_def emits_return rbacObserved_def)
next
  case True
  have "emits (mfold (ensureSlice R rs c ref keys idx) slices a) (\<lambda>r es'. readyCount (snd r) = readyCount (snd acc) \<and>
     (fst r \<longrightarrow> fst acc \<and> rbacObserved (rLib R) (manifestWorkAvailable (rLib R)) rs c (set (es @ es'))))"
    if post: "slicesPost (rLib R) k rs c (slices, err) es" and a: "readyCount (snd a) = readyCount (snd acc)"
      "fst a \<longrightarrow> fst acc \<and> err = None" for slices err es a k
    using ensureSlices_observe
  proof (rule emits_weaken)
    fix r es'
    assume r: "readyCount (snd r) = readyCount (snd a) \<and>
      (fst r \<longrightarrow> fst a \<and> (\<forall>sl \<in> set slices. workObserved (manifestWorkAvailable (rLib R)) c (slName sl) (set es')))"
    have "rbacObserved (rLib R) (manifestWorkAvailable (rLib R)) rs c (set (es @ es'))" if "fst r"
      unfolding rbacObserved_def
    proof (intro impI exI conjI)
      show "slicesPost (rLib R) True rs c (slices, None) es" using slicesPost_known post a(2) r that by blast
      show "\<forall>sl \<in> set slices. workObserved (manifestWorkAvailable (rLib R)) c (slName sl) (set (es @ es'))"
        using r that by (auto intro: workObserved_mono)
    qed simp
    with r a show "readyCount (snd r) = readyCount (snd acc) \<and>
      (fst r \<longrightarrow> fst acc \<and> rbacObserved (rLib R) (manifestWorkAvailable (rLib R)) rs c (set (es @ es')))" by auto
  qed
  then show ?thesis
    unfolding ensureRBAC_def
    by (auto simp: True Let_def intro!: emits_bind [OF desiredRBACSlices_emits] split: option.split)
qed


lemma bumpReady_ready [simp]: "readyCount (bumpReady acc) = add32 (readyCount acc) 1"
  by (simp add: bumpReady_def)

text \<open>A cluster is seen ready: every child observed in the state that the way of looking asks for.\<close>

lemma rolloutCluster_observes:
  "emits (rolloutCluster R rs c ref keys idx acc) (\<lambda>acc' es.
     readyCount acc' = readyCount acc \<or>
     readyCount acc' = add32 (readyCount acc) 1 \<and>
       childrenObserved (rLib R) (manifestWorkAvailable (rLib R)) rs c (set es))"
proof -
  have "emits (ensureRBAC R rs c ref keys idx (noteEnsured (managedServiceAccountReady (rLib R)) r acc1) \<bind>
      (\<lambda>acc2. return (if fst acc2 then bumpReady (snd acc2) else snd acc2)))
     (\<lambda>acc' es''. readyCount acc' = readyCount acc \<or>
       readyCount acc' = add32 (readyCount acc) 1 \<and>
       childrenObserved (rLib R) (manifestWorkAvailable (rLib R)) rs c (set (ev # es @ es' @ es'')))"
    if access: "readyCount (snd acc1) = readyCount acc \<and>
        (fst acc1 \<longrightarrow> accessObserved (rLib R) (manifestWorkAvailable (rLib R)) rs c (set es))"
      and msa: "\<forall>x. r = Inr x \<longrightarrow> answered (set es') MSAKind (c, tmName (setTemplateMetadata rs)) (MSA x)"
    for r acc1 ev es es'
  proof -
    have "msaObserved (rLib R) c (tmName (setTemplateMetadata rs)) (set es')"
      if "r = Inr x" "managedServiceAccountReady (rLib R) x" for x
      using msa that by (auto intro: msaObservedI)
    with access show ?thesis
      by (auto intro!: emits_bind [OF ensureRBAC_observes] emits_return simp: childrenObserved_def
          elim!: msaObserved_mono accessObserved_mono rbacObserved_mono)
  qed
  then show ?thesis
    unfolding rolloutCluster_def getNamespace_def
    by (auto intro!: emits_bind_call emits_return emits_bind [OF ensureAccess_observes]
        emits_bind [OF ensure_answers(1)] split: option.split)
qed


section \<open>Outside the rollout window\<close>

text \<open>What a read of the rollout status shows when it is Succeeded; with an error it never is.\<close>

definition statusShows :: "(api_event set \<Rightarrow> bool) \<Rightarrow> rolloutStatus \<times> int option \<times> go_error option \<Rightarrow> api_event list \<Rightarrow> bool" where
  "statusShows P r es \<longleftrightarrow> (fst r = Succeeded \<longrightarrow> snd (snd r) = None \<and> P (set es))"

lemma managedServiceAccountRolloutStatus_ready:
  "managedServiceAccountRolloutStatus L m = (Succeeded, t) \<Longrightarrow> managedServiceAccountReady L m"
  by (simp add: managedServiceAccountRolloutStatus_def Let_def split: if_splits)

lemma existingMSA_shows:
  assumes "objectKey (msaMeta d) = (c, name)"
  shows "emits (existingManagedServiceAccountRolloutStatus R rs d) (statusShows (msaObserved (rLib R) c name))"
  unfolding existingManagedServiceAccountRolloutStatus_def
  by (auto simp: assms msaClient_def Let_def statusShows_def msaObserved_def answered_def
      dest!: managedServiceAccountRolloutStatus_ready
      intro!: emits_bind_call emits_return split: sum.split prod.split)

lemma existingWork_shows:
  assumes "objectKey (workMeta d) = (c, name)"
  shows "emits (existingManifestWorkRolloutStatus R rs d) (statusShows (workObserved (rolledOut (rLib R)) c name))"
  unfolding existingManifestWorkRolloutStatus_def
  by (auto simp: assms workClient_def statusShows_def workObserved_def answered_def rolledOut_def
      intro!: emits_bind_call emits_return split: sum.split prod.split option.split)

text \<open>The same for the parts of a cluster: going on means the part was observed.\<close>

definition partShows ::
  "(api_event set \<Rightarrow> bool) \<Rightarrow> (rolloutStatus \<times> int option \<times> go_error option) + int option \<Rightarrow> api_event list \<Rightarrow> bool" where
  "partShows P r es \<longleftrightarrow> (case r of Inl res \<Rightarrow> fst res \<noteq> Succeeded | Inr t \<Rightarrow> P (set es))"

lemma partShows_simps [simp]:
  "partShows P (Inl res) es \<longleftrightarrow> fst res \<noteq> Succeeded" "partShows P (Inr t) es \<longleftrightarrow> P (set es)"
  by (simp_all add: partShows_def)

lemma accessRolloutStatus_shows:
  "emits (accessRolloutStatus R rs c ref t) (partShows (accessObserved (rLib R) (rolledOut (rLib R)) rs c))"
proof (cases "selectorRBACEnabled rs")
  case False
  then show ?thesis by (simp add: accessRolloutStatus_def emits_return partShows_def accessObserved_def)
next
  case True
  then show ?thesis
    unfolding accessRolloutStatus_def
    by (auto simp: partShows_def statusShows_def accessObserved_def split: if_splits
        intro!: emits_bind [OF existingMSA_shows [OF built_keys(2)]]
          emits_bind [OF existingWork_shows [OF built_keys(3)]] emits_return
        elim!: msaObserved_mono workObserved_mono)
qed

lemma slicesRolloutLoop_shows:
  "emits (slicesRolloutLoop R rs c ref sls t)
     (partShows (\<lambda>E. \<forall>sl \<in> set sls. workObserved (rolledOut (rLib R)) c (slName sl) E))"
proof (induction sls arbitrary: t)
  case Nil
  then show ?case by (simp add: emits_return partShows_def)
next
  case (Cons sl sls)
  have key: "objectKey (workMeta (buildManifestWork (rLib R) rs c ref sl)) = (c, slName sl)" by simp
  have rest: "emits (slicesRolloutLoop R rs c ref sls t') (\<lambda>r es'.
      partShows (\<lambda>E. workObserved (rolledOut (rLib R)) c (slName sl) E \<and>
        (\<forall>sl \<in> set sls. workObserved (rolledOut (rLib R)) c (slName sl) E)) r (es @ es'))"
    if "workObserved (rolledOut (rLib R)) c (slName sl) (set es)" for t' es
    using Cons.IH [of t'] that
    by (auto simp: partShows_def split: sum.splits elim!: emits_weaken workObserved_mono)
  show ?case
    unfolding slicesRolloutLoop.simps
    by (rule emits_bind [OF existingWork_shows [OF key]])
      (auto simp: statusShows_def intro!: emits_return rest)
qed

lemma rbacRolloutStatus_shows:
  "emits (rbacRolloutStatus R rs c ref t) (partShows (rbacObserved (rLib R) (rolledOut (rLib R)) rs c))"
proof (cases "rbacEnabled rs")
  case False
  then show ?thesis by (simp add: rbacRolloutStatus_def emits_return partShows_def rbacObserved_def)
next
  case True
  have "emits (slicesRolloutLoop R rs c ref slices t) (\<lambda>r es'.
      partShows (rbacObserved (rLib R) (rolledOut (rLib R)) rs c) r (es @ es'))"
    if "slicesPost (rLib R) k rs c (slices, None) es" for slices es k
    using slicesRolloutLoop_shows
  proof (rule emits_weaken)
    fix r es'
    assume r: "partShows (\<lambda>E. \<forall>sl \<in> set slices. workObserved (rolledOut (rLib R)) c (slName sl) E) r es'"
    have "rbacObserved (rLib R) (rolledOut (rLib R)) rs c (set (es @ es'))"
      if "\<forall>sl \<in> set slices. workObserved (rolledOut (rLib R)) c (slName sl) (set es')"
      unfolding rbacObserved_def
      by (intro impI exI [of _ slices] exI [of _ es])
        (use that slicesPost_known [OF \<open>slicesPost (rLib R) k rs c (slices, None) es\<close>] in \<open>auto elim!: workObserved_mono\<close>)
    with r show "partShows (rbacObserved (rLib R) (rolledOut (rLib R)) rs c) r (es @ es')"
      by (auto simp: partShows_def split: sum.splits)
  qed
  with True show ?thesis
    unfolding rbacRolloutStatus_def
    by (auto intro!: emits_bind [OF desiredRBACSlices_emits] emits_return simp: partShows_def)
qed


lemma clusterRolloutStatus_shows:
  "emits (clusterRolloutStatus R rs c ref) (\<lambda>r es. crStatus (fst r) = Succeeded \<longrightarrow>
     childrenObserved (rLib R) (rolledOut (rLib R)) rs c (set es))"
proof -
  let ?obs = "\<lambda>r es. crStatus (fst r) = Succeeded \<longrightarrow> childrenObserved (rLib R) (rolledOut (rLib R)) rs c (set es)"
  let ?finish = "\<lambda>(s, t, err). (\<lparr>crClusterName = c, crStatus = s, crLastTransitionTime = t\<rparr>, err :: go_error option)"
  have rest: "emits (accessRolloutStatus R rs c ref t \<bind> (\<lambda>a. case a of Inl res \<Rightarrow> return (?finish res)
      | Inr t' \<Rightarrow> rbacRolloutStatus R rs c ref t' \<bind> (\<lambda>b. case b of Inl res \<Rightarrow> return (?finish res)
      | Inr t'' \<Rightarrow> return (?finish (Succeeded, t'', None))))) (\<lambda>r es. ?obs r (ev # es))"
    if m: "msaObserved (rLib R) c (tmName (setTemplateMetadata rs)) {ev}" for t ev
  proof -
    have "childrenObserved (rLib R) (rolledOut (rLib R)) rs c (set (ev # es @ es'))"
      if "accessObserved (rLib R) (rolledOut (rLib R)) rs c (set es)"
        "rbacObserved (rLib R) (rolledOut (rLib R)) rs c (set es')" for es es'
      using m that unfolding childrenObserved_def
      by (auto elim!: msaObserved_mono accessObserved_mono rbacObserved_mono)
    then show ?thesis
      by (auto intro!: emits_bind [OF accessRolloutStatus_shows] emits_bind [OF rbacRolloutStatus_shows] emits_return
          split: sum.split)
  qed
  have "msaObserved (rLib R) c (tmName (setTemplateMetadata rs))
      {GetChild MSAKind (c, tmName (setTemplateMetadata rs)) (Inr (MSA m))}"
    if "managedServiceAccountRolloutStatus (rLib R) m = (Succeeded, t)" for m t
    using managedServiceAccountRolloutStatus_ready [OF that] unfolding msaObserved_def answered_def by blast
  with rest show ?thesis
    unfolding clusterRolloutStatus_def Let_def
    by (auto simp: msaClient_def intro!: emits_bind_call emits_return split: sum.split prod.split)
qed

text \<open>The statuses of a plan: whoever has succeeded is in the rollout window, or was observed.\<close>

definition soundStatuses :: "lib \<Rightarrow> replicaSet \<Rightarrow> strset \<Rightarrow> api_event set \<Rightarrow> statusMap \<Rightarrow> bool" where
  "soundStatuses L rs W E m \<longleftrightarrow> (\<forall>c s. fmlookup m c = Some s \<longrightarrow> crStatus s = Succeeded \<longrightarrow>
     c |\<in>| W \<or> childrenObserved L (rolledOut L) rs c E)"

lemma soundStatuses_mono:
  "soundStatuses L rs W E m \<Longrightarrow> E \<subseteq> F \<Longrightarrow> W |\<subseteq>| V \<Longrightarrow> soundStatuses L rs V F m"
  unfolding soundStatuses_def using childrenObserved_mono [of L "rolledOut L" rs _ E F] by blast

lemma soundStatuses_upd:
  assumes "soundStatuses L rs W E m" "crStatus s = Succeeded \<Longrightarrow> c |\<in>| W \<or> childrenObserved L (rolledOut L) rs c E"
  shows "soundStatuses L rs W E (fmupd c s m)"
  using assms by (simp add: soundStatuses_def)

lemma soundStatuses_put:
  assumes "soundStatuses L rs W E m"
    and "\<And>s. s \<in> set cs \<Longrightarrow> crStatus s = Succeeded \<Longrightarrow> crClusterName s \<noteq> [] \<Longrightarrow> crClusterName s |\<in>| W"
  shows "soundStatuses L rs W E (putStatuses cs m)"
  using assms unfolding putStatuses_def
  by (induction cs arbitrary: m) (auto intro: soundStatuses_upd)

lemma putNames_fset: "fset (putNames cs S) = fset S \<union> {crClusterName c | c. c \<in> set cs \<and> crClusterName c \<noteq> []}"
  unfolding putNames_def by (induction cs arbitrary: S) auto


lemma clusterStatusesLoop_sound:
  assumes "soundStatuses (rLib R) rs W (set pre) st"
  shows "emits (clusterStatusesLoop R rs resolution cs st rst ex) (\<lambda>r es. \<forall>st' rst' ex'.
    r = Inr (st', rst', ex') \<longrightarrow> soundStatuses (rLib R) rs W (set (pre @ es)) st')"
  using assms
proof (induction cs arbitrary: pre st rst ex)
  case Nil
  then show ?case by (simp add: emits_return)
next
  case (Cons c cs)
  have rest: "emits (clusterStatusesLoop R rs resolution cs (fmupd c s st) (fmupd c s rst) (ex @ [s])) (\<lambda>r es'.
      \<forall>st' rst' ex'. r = Inr (st', rst', ex') \<longrightarrow> soundStatuses (rLib R) rs W (set (pre @ es @ es')) st')"
    if "crStatus s = Succeeded \<longrightarrow> childrenObserved (rLib R) (rolledOut (rLib R)) rs c (set es)" for s es
  proof -
    have "soundStatuses (rLib R) rs W (set (pre @ es)) (fmupd c s st)"
      using that childrenObserved_mono [of "rLib R" _ rs c "set es" "set (pre @ es)"]
      by (intro soundStatuses_upd soundStatuses_mono [OF Cons.prems]) auto
    from Cons.IH [OF this] show ?thesis by simp
  qed
  show ?case
    unfolding clusterStatusesLoop.simps
    by (rule emits_bind [OF clusterRolloutStatus_shows])
      (auto intro!: emits_return rest [simplified] split: option.split)
qed

text \<open>The invariant of the loop over the references.\<close>

definition soundPlan :: "lib \<Rightarrow> replicaSet \<Rightarrow> api_event set \<Rightarrow> planAcc \<Rightarrow> bool" where
  "soundPlan L rs E acc \<longleftrightarrow> soundStatuses L rs (paRollout acc) E (plnStatuses (paPlan acc))"

lemma planStep_sound:
  assumes "sdk_library (rLib R)" "soundPlan (rLib R) rs (set pre) acc"
  shows "emits (planStep R rs resolution ref acc) (\<lambda>r es. \<forall>acc'. r = Inr acc' \<longrightarrow> soundPlan (rLib R) rs (set (pre @ es)) acc')"
proof -
  have sound: "soundStatuses (rLib R) rs (paRollout acc) (set pre) (plnStatuses (paPlan acc))"
    using assms(2) by (simp add: soundPlan_def)
  have put: "soundStatuses (rLib R) rs (putNames (rrClustersToRollout res) (paRollout acc)) E
      (putStatuses (rrClustersTimeOut res) (putStatuses (rrClustersToRollout res) st))"
    if "sdk_GetRolloutCluster (rLib R) g f strategy existing = Inr res"
      "soundStatuses (rLib R) rs (paRollout acc) E st" for g f strategy existing res E st
  proof (intro soundStatuses_put)
    show "soundStatuses (rLib R) rs (putNames (rrClustersToRollout res) (paRollout acc)) E st"
      using that(2) by (rule soundStatuses_mono) (auto simp: less_eq_fset.rep_eq putNames_fset)
  qed (use sdk_library.rollout_timeout [OF assms(1) that(1)] in \<open>auto simp: putNames_fset\<close>)
  show ?thesis
    unfolding planStep_def Let_def
    by (auto simp: soundPlan_def sound intro!: emits_return emits_bind [OF clusterStatusesLoop_sound [OF sound]]
        elim!: put split: sum.split option.split)
qed

lemma planLoop_sound:
  assumes "sdk_library (rLib R)" "soundPlan (rLib R) rs (set pre) acc"
  shows "emits (planLoop R rs resolution refs acc) (\<lambda>r es. \<forall>acc'. r = Inr acc' \<longrightarrow> soundPlan (rLib R) rs (set (pre @ es)) acc')"
  using assms(2)
proof (induction refs arbitrary: pre acc)
  case Nil
  then show ?case by (simp add: emits_return)
next
  case (Cons ref refs)
  have "emits (planLoop R rs resolution refs acc')
      (\<lambda>r es'. \<forall>acc''. r = Inr acc'' \<longrightarrow> soundPlan (rLib R) rs (set (pre @ es @ es')) acc'')"
    if "soundPlan (rLib R) rs (set (pre @ es)) acc'" for acc' es
    using Cons.IH [OF that] by simp
  then show ?case
    unfolding planLoop.simps
    by (intro emits_bind [OF planStep_sound [OF assms(1) Cons.prems]]) (auto intro!: emits_return split: sum.split)
qed

lemma planRollout_sound:
  assumes "sdk_library (rLib R)"
  shows "emits (planRollout R rs resolution) (\<lambda>r es. \<forall>plan. r = Inr plan \<longrightarrow>
    soundStatuses (rLib R) rs (fset_of_list (plnClusters plan)) (set es) (plnStatuses plan))"
proof -
  have "soundPlan (rLib R) rs (set []) plan_zero" by (simp add: soundPlan_def plan_zero_def soundStatuses_def)
  from planLoop_sound [OF assms this] show ?thesis
    unfolding planRollout_def
    by (rule emits_bind) (auto intro!: emits_return simp: soundPlan_def split: sum.split)
qed


section \<open>Counting the ready clusters\<close>

text \<open>Inside the window a ManifestWork must be available, outside it must have rolled out.\<close>

definition workDone :: "lib \<Rightarrow> manifestWork \<Rightarrow> bool" where
  "workDone L w \<longleftrightarrow> manifestWorkAvailable L w \<or> rolledOut L w"

text \<open>The ready count of the clusters \<open>xs\<close>: the size of a set of clusters that were observed.\<close>

definition readyCounted :: "lib \<Rightarrow> replicaSet \<Rightarrow> string list \<Rightarrow> int \<Rightarrow> api_event set \<Rightarrow> bool" where
  "readyCounted L rs xs n E \<longleftrightarrow>
     (\<exists>A \<subseteq> set xs. n = int (card A) \<and> (\<forall>c \<in> A. childrenObserved L (workDone L) rs c E))"

lemma readyCounted_mono:
  assumes "readyCounted L rs xs n E" "E \<subseteq> F" "set xs \<subseteq> set ys"
  shows "readyCounted L rs ys n F"
proof -
  from assms(1) obtain A where "A \<subseteq> set xs" "n = int (card A)" "\<forall>c \<in> A. childrenObserved L (workDone L) rs c E"
    unfolding readyCounted_def by auto
  then show ?thesis
    unfolding readyCounted_def using assms(3) childrenObserved_mono [OF _ assms(2)]
    by (intro exI [of _ A]) blast
qed

lemma readyCounted_add:
  assumes "readyCounted L rs xs n E" "x \<notin> set xs" "Suc (length xs) < 2 ^ 31" "childrenObserved L (workDone L) rs x E"
  shows "readyCounted L rs (xs @ [x]) (add32 n 1) E"
proof -
  from assms(1) obtain A where A: "A \<subseteq> set xs" "n = int (card A)" "\<forall>c \<in> A. childrenObserved L (workDone L) rs c E"
    unfolding readyCounted_def by auto
  then have fin: "finite A" and "card A \<le> length xs"
    using finite_subset [OF A(1)] card_mono [OF _ A(1)] card_length [of xs] by auto
  then have "add32 n 1 = int (card (insert x A))"
    using add32_of_nat [of "card A" 1] A assms(2,3) by (subst card_insert_disjoint) auto
  with A assms(4) show ?thesis
    unfolding readyCounted_def by (intro exI [of _ "insert x A"]) auto
qed

lemma readyCounted_all:
  assumes "readyCounted L rs xs n E" "distinct xs" "int (length xs) \<le> n"
  shows "\<forall>c \<in> set xs. childrenObserved L (workDone L) rs c E"
proof -
  from assms(1) obtain A where A: "A \<subseteq> set xs" "n = int (card A)" "\<forall>c \<in> A. childrenObserved L (workDone L) rs c E"
    unfolding readyCounted_def by auto
  with assms(2,3) have "card (set xs) \<le> card A" by (simp add: distinct_card)
  with A(1) have "A = set xs" by (simp add: card_seteq)
  with A(3) show ?thesis by simp
qed

lemma clusterStep_counts:
  assumes statuses: "soundStatuses (rLib R) rs W (set pre) statuses"
    and inv: "readyCounted (rLib R) rs xs (readyCount acc) (set (pre @ es))"
    and x: "x \<notin> set xs" "Suc (length xs) < 2 ^ 31"
  shows "emits (clusterStep R rs resolution W statuses idx x acc) (\<lambda>acc' es'.
    readyCounted (rLib R) rs (xs @ [x]) (readyCount acc') (set (pre @ es @ es')))"
proof -
  have keep: "readyCounted (rLib R) rs (xs @ [x]) (readyCount acc) (set (pre @ es @ es'))" for es'
    by (rule readyCounted_mono [OF inv]) auto
  have add: "readyCounted (rLib R) rs (xs @ [x]) (add32 (readyCount acc) 1) (set (pre @ es @ es'))"
    if "childrenObserved (rLib R) p rs x E" "E \<subseteq> set (pre @ es')" "\<And>w. p w \<Longrightarrow> workDone (rLib R) w" for p E es'
  proof (rule readyCounted_add [OF _ x])
    show "readyCounted (rLib R) rs xs (readyCount acc) (set (pre @ es @ es'))"
      by (rule readyCounted_mono [OF inv]) auto
    show "childrenObserved (rLib R) (workDone (rLib R)) rs x (set (pre @ es @ es'))"
      by (rule childrenObserved_mono [OF childrenObserved_weaken [OF that(1,3)]]) (use that(2) in auto)
  qed
  have inside: "emits (rolloutCluster R rs x ref keys idx acc') (\<lambda>acc' es'.
      readyCounted (rLib R) rs (xs @ [x]) (readyCount acc') (set (pre @ es @ es')))"
    if "readyCount acc' = readyCount acc" for ref keys acc'
    by (rule emits_weaken [OF rolloutCluster_observes])
      (use that keep add [of "manifestWorkAvailable (rLib R)"] in \<open>auto simp: workDone_def\<close>)
  have outside: "childrenObserved (rLib R) (rolledOut (rLib R)) rs x (set pre)"
    if "x |\<notin>| W" "map_option crStatus (fmlookup statuses x) = Some Succeeded"
    using statuses that unfolding soundStatuses_def by auto
  show ?thesis
    unfolding clusterStep_def Let_def
    using keep keep [of "[]"] add [OF outside] inside
    by (auto intro!: emits_return emits_bind [OF quiet.walk.moves_aggregateExisting [unfolded quiet.complies_emits]]
        simp: workDone_def)
qed


lemma reconcileChildren_counts:
  assumes statuses: "soundStatuses (rLib R) rs (fset_of_list rollout) (set pre) statuses"
    and clusters: "distinct (reClusters resolution)" "length (reClusters resolution) < 2 ^ 31"
  shows "emits (reconcileChildren R rs resolution rollout cleanup statuses st) (\<lambda>r es.
    readyCounted (rLib R) rs (reClusters resolution) (crrReady (fst r)) (set (pre @ es)))"
proof -
  let ?cs = "reClusters resolution"
  let ?zero = "\<lparr>kaResult = childReconcileResult_zero, kaStatus = initControllerAccess rs (length ?cs) st, kaWorkNames = fmempty\<rparr>"
  let ?counted = "\<lambda>xs acc es. readyCounted (rLib R) rs xs (readyCount acc) (set (pre @ es))"
  have loop: "emits (mfold (clusterStep R rs resolution (fset_of_list rollout) statuses
      (indexPlacementsByKey (stPlacements st))) ?cs ?zero) (?counted ?cs)"
  proof (rule emits_mfold)
    show "?counted [] ?zero []" by (simp add: readyCounted_def childReconcileResult_zero_def)
  next
    fix xs x ys acc es
    assume "?cs = xs @ x # ys" "?counted xs acc es"
    with clusters show "emits (clusterStep R rs resolution (fset_of_list rollout) statuses
        (indexPlacementsByKey (stPlacements st)) x acc) (\<lambda>acc' es'. ?counted (xs @ [x]) acc' (es @ es'))"
      by (intro clusterStep_counts [OF statuses]) auto
  qed
  have "emits (deleteStaleChildren R rs D C N M \<bind> (\<lambda>(pending, err).
      return ((kaResult acc)\<lparr>crrCleanupPending := pending,
        crrErr := (case err of None \<Rightarrow> e | Some e' \<Rightarrow> errors_Join [e, Some e'])\<rparr>, st')))
      (\<lambda>r es'. readyCounted (rLib R) rs ?cs (crrReady (fst r)) (set (pre @ es @ es')))"
    if "?counted ?cs acc es" for acc es D C N M e st'
    by (rule emits_bind [OF deleteStaleChildren_emits])
      (auto intro!: emits_return readyCounted_mono [OF that] split: prod.split)
  then show ?thesis
    unfolding reconcileChildren_def Let_def
    by (intro emits_bind [OF loop]) (auto intro!: emits_return)
qed


section \<open>Ready\<close>

definition saysReady :: "lib \<Rightarrow> replicaSetStatus \<Rightarrow> bool" where
  "saysReady L st \<longleftrightarrow> (case statusView L st conditionReady of None \<Rightarrow> False | Some (s, _) \<Rightarrow> s = ConditionTrue)"

text \<open>A status patch that says Ready comes after every given cluster was observed ready.\<close>

fun readyOK :: "lib \<Rightarrow> replicaSet \<Rightarrow> string list \<Rightarrow> api_event set \<Rightarrow> api_event \<Rightarrow> bool" where
  "readyOK L rs clusters before (PatchSetStatus base new r) =
     (saysReady L (setStatus new) \<longrightarrow> (\<forall>c \<in> set clusters. childrenObserved L (workDone L) rs c before))"
| "readyOK L rs clusters before _ = True"

interpretation ready: read_policy "readyOK L rs clusters" for L rs clusters
proof unfold_locales
  fix A B e
  assume "A \<subseteq> B" "readyOK L rs clusters A e"
  then show "readyOK L rs clusters B e" using childrenObserved_mono [of L "workDone L" rs _ A B] by (cases e) auto
qed simp_all

lemma justified_readyOK: "justified noStatusPatch A es \<Longrightarrow> justified (readyOK L rs clusters) B es"
proof (induction es arbitrary: A B)
  case (Cons e es)
  then show ?case by (cases e) auto
qed simp

lemma ready_patchStatus:
  "(saysReady L st \<Longrightarrow> \<forall>c \<in> set clusters. childrenObserved L (workDone L) rs0 c A) \<Longrightarrow>
   ready.compliesFrom L rs0 clusters A (patchStatus R rs st)"
  unfolding ready.compliesFrom_def patchStatus_def patchSetStatus_def
  by (auto intro!: emits_bind_call emits_return split: sum.split)

text \<open>A status patch followed by programs that do not touch the status.\<close>

lemma ready_patch_then:
  assumes "saysReady L st \<Longrightarrow> \<forall>c \<in> set clusters. childrenObserved L (workDone L) rs0 c A"
    and "\<And>x. ready.complies L rs0 clusters (f x)"
  shows "ready.compliesFrom L rs0 clusters A (patchStatus R rs st \<bind> f)"
  unfolding ready.compliesFrom_def
  using ready_patchStatus [of L st clusters rs0 A R rs, OF assms(1)] unfolding ready.compliesFrom_def
proof (rule emits_bind)
  fix x es
  assume "justified (readyOK L rs0 clusters) A es"
  with ready.compliesFrom_complies [OF assms(2), of "A \<union> set es" x]
  show "emits (f x) (\<lambda>_ es'. justified (readyOK L rs0 clusters) A (es @ es'))"
    unfolding ready.compliesFrom_def ready.justified_append by (blast intro: emits_weaken)
qed

context condition_library
begin

lemma saysReady_setStatusCond:
  "saysReady L (setStatusCond L t s r m g st) \<longleftrightarrow> (if t = conditionReady then s = ConditionTrue else saysReady L st)"
  by (auto simp: saysReady_def statusView_setStatusCond)

lemma saysReady_applyChildResult:
  assumes "saysReady L (applyChildResultConditions L result n g remote st)"
  shows "crrErr result = None \<and> int32 (int n) \<le> crrReady result"
  using assms applyChildResultConditions_ready [of conditionReady result n g remote st]
  by (auto simp: saysReady_def childResultVerdict_def split: if_splits)

lemma saysReady_finalStatus:
  "saysReady L (finalStatus L rs n result st) \<Longrightarrow> int32 (int n) \<le> crrReady result"
  using saysReady_applyChildResult
  by (auto simp: finalStatus_def setNotDeletingCondition_def saysReady_setStatusCond Let_def condition_types
      split: if_splits)

end

lemma ready_conclude: "ready.complies L rs0 clusters (concludeReconcile R rs err result after)"
  unfolding concludeReconcile_def by (intro policy_intros)


lemma rolloutAndApply_ready:
  assumes L: "condition_library (rLib R)" "sdk_library (rLib R)"
    and clusters: "distinct (reClusters resolution)" "length (reClusters resolution) < 2 ^ 31"
  shows "ready.complies (rLib R) rs (reClusters resolution) (rolloutAndApply R rs resolution st)"
proof -
  let ?cs = "reClusters resolution"
  have plan: "emits (planRollout R rs resolution) (\<lambda>r es. justified noStatusPatch {} es \<and>
      (\<forall>plan. r = Inr plan \<longrightarrow> soundStatuses (rLib R) rs (fset_of_list (plnClusters plan)) (set es) (plnStatuses plan)))"
    using emits_conj [OF quiet.walk.moves_planRollout [unfolded quiet.complies_emits] planRollout_sound [OF L(2)]] .
  have final: "\<forall>c \<in> set ?cs. childrenObserved (rLib R) (workDone (rLib R)) rs c E"
    if "readyCounted (rLib R) rs ?cs (crrReady result) E" "saysReady (rLib R) (finalStatus (rLib R) rs (length ?cs) result st')"
    for result st' E
    using readyCounted_all [OF that(1) clusters(1)] condition_library.saysReady_finalStatus [OF L(1) that(2)]
    unfolding int32_of_nat [OF clusters(2)] by blast
  have failed: "\<not> saysReady (rLib R) (applyChildResultConditions (rLib R) (childReconcileResult_zero\<lparr>crrErr := Some e\<rparr>) n g b st')"
    for e n g b st'
    using condition_library.saysReady_applyChildResult [OF L(1)] by force
  have children: "ready.compliesFrom (rLib R) rs ?cs (set es) (reconcileChildren R rs resolution (plnClusters p) C (plnStatuses p) st1 \<bind>
      (\<lambda>(result, st2). patchStatus R rs (finalStatus (rLib R) rs (length ?cs) result st2) \<bind>
      (\<lambda>(rs', patchErr). concludeReconcile R rs' patchErr result after \<bind> (\<lambda>(res, err). return (rs', res, err)))))"
    if "soundStatuses (rLib R) rs (fset_of_list (plnClusters p)) (set es) (plnStatuses p)" for es p C st1 after
  proof (rule ready.compliesFrom_bind)
    show "emits (reconcileChildren R rs resolution (plnClusters p) C (plnStatuses p) st1) (\<lambda>r es'.
        justified noStatusPatch {} es' \<and> readyCounted (rLib R) rs ?cs (crrReady (fst r)) (set (es @ es')))"
      using emits_conj [OF quiet.moves_reconcileChildren [unfolded quiet.complies_emits]
          reconcileChildren_counts [OF that clusters]] .
  qed (auto intro!: ready_patch_then policy_intros ready_conclude intro: justified_readyOK dest: final split: prod.split)
  show ?thesis
    unfolding rolloutAndApply_def ready.complies_from_empty
    by (rule ready.compliesFrom_bind [OF plan])
      (auto intro!: children ready_patch_then policy_intros
          ready.compliesFrom_bind [OF ready.compliesFrom_complies [OF ready.complies_reads(6), unfolded ready.compliesFrom_def]]
        intro: justified_readyOK simp: failed Let_def split: sum.split prod.split)
qed


section \<open>From a given world\<close>

lemma emits_bind_at:
  assumes "run_state m w = (a, w1)" "emits m P" "\<And>es. P a es \<Longrightarrow> emits (f a) (\<lambda>b es'. Q b (es @ es'))"
  shows "\<exists>es. trace (snd (run_state (State_Monad.bind m f) w)) = trace w @ es \<and> Q (fst (run_state (State_Monad.bind m f) w)) es"
proof -
  obtain es where es: "trace w1 = trace w @ es" "P a es" by (rule emitsD [OF assms(2,1)])
  from assms(3) [OF es(2)] obtain es' where "trace (snd (run_state (f a) w1)) = trace w1 @ es'"
    "Q (fst (run_state (f a) w1)) (es @ es')" unfolding emits_def by blast
  with es(1) assms(1) show ?thesis by simp
qed

lemma resolvePlacementRefs_distinct:
  "emits (resolvePlacementRefs R rs g) (\<lambda>p es. distinct (reClusters p) \<and> justified noStatusPatch {} es)"
proof -
  have "quiet.complies (mfold (resolveStep R rs g) (spPlacementRefs (setSpec rs)) (resolution_zero, {||}))"
    unfolding resolveStep_def resolvePlacementRef_def resolveOCMPlacement_def by (intro policy_intros)
  then show ?thesis
    unfolding resolvePlacementRefs_def quiet.complies_emits
    by (rule emits_bind) (auto intro!: emits_return)
qed

lemma ready_unready_patch: "\<not> saysReady L st \<Longrightarrow> ready.complies L rs0 clusters (patchStatus R rs st)"
  unfolding ready.complies_from_empty by (rule ready_patchStatus) simp

lemma ready_earlyReturn:
  assumes "condition_library (rLib R)"
  shows "ready.complies (rLib R) rs0 clusters (earlyReturn R rs st reason action err)"
proof -
  have "\<not> saysReady (rLib R) (setEarlyReturnConditions (rLib R) reason msg g st)" for msg g
    using condition_library.setEarlyReturnConditions_view [OF assms, of reason msg g st conditionReady]
    by (simp add: saysReady_def condition_types)
  then show ?thesis
    unfolding earlyReturn_def by (intro policy_intros ready_unready_patch)
qed

lemma reconcileLive_continues_ready:
  assumes L: "condition_library (rLib R)" "sdk_library (rLib R)"
    and p: "distinct (reClusters p)" "length (reClusters p) < 2 ^ 31" and pre: "justified noStatusPatch {} es"
  shows "emits (case (reErr p, reClusters p) of
        (Some err, []) \<Rightarrow> earlyReturn R rs st reasonPlacementUnavailable ''ResolvePlacement'' err \<bind> (\<lambda>(rs', res). return (f rs' res))
      | _ \<Rightarrow> rolloutAndApply R rs p st' \<bind> (\<lambda>(rs', res). return (g rs' res)))
    (\<lambda>_ es'. justified (readyOK (rLib R) rs (reClusters p)) {} (es @ es'))"
proof -
  have "ready.complies (rLib R) rs (reClusters p) (case (reErr p, reClusters p) of
        (Some err, []) \<Rightarrow> earlyReturn R rs st reasonPlacementUnavailable ''ResolvePlacement'' err \<bind> (\<lambda>(rs', res). return (f rs' res))
      | _ \<Rightarrow> rolloutAndApply R rs p st' \<bind> (\<lambda>(rs', res). return (g rs' res)))"
    by (intro policy_intros ready_earlyReturn rolloutAndApply_ready L p)
  then show ?thesis
    unfolding ready.complies_emits
    by (rule emits_weaken) (intro ready.justified_append_empty justified_readyOK [OF pre])
qed

lemma reconcileLive_ready:
  assumes L: "condition_library (rLib R)" "sdk_library (rLib R)"
    and run: "run_state (resolvePlacementRefs R rs (setGeneration rs)) w = (p, w1)"
    and len: "length (reClusters p) < 2 ^ 31"
  shows "\<exists>es. trace (snd (run_state (reconcileLive R rs) w)) = trace w @ es \<and>
    justified (readyOK (rLib R) rs (reClusters p)) {} es"
proof (cases "validateRuntimeSpec rs")
  case (Some err)
  have "ready.complies (rLib R) rs (reClusters p) (reconcileLive R rs)"
    unfolding reconcileLive_def Some option.case by (intro policy_intros ready_earlyReturn L)
  then show ?thesis unfolding ready.complies_emits emits_def by blast
next
  case None
  show ?thesis
    unfolding reconcileLive_def None option.case Let_def
    by (rule emits_bind_at [OF run resolvePlacementRefs_distinct])
      (rule reconcileLive_continues_ready; use L len in simp)
qed


lemma ready_reconcileDelete:
  assumes "condition_library (rLib R)"
  shows "ready.complies (rLib R) rs0 clusters (reconcileDelete R rs)"
proof -
  have calls: "ready.complies (rLib R) rs0 clusters (listMSAs R sel)" "ready.complies (rLib R) rs0 clusters (listWorks R sel)"
    "ready.complies (rLib R) rs0 clusters (deleteMSA R m)" "ready.complies (rLib R) rs0 clusters (deleteWork R k)"
    "ready.complies (rLib R) rs0 clusters (patchSet R a b)" for sel m k a b
    by (auto simp: listMSAs_def listWorks_def deleteMSA_def deleteWork_def patchSet_def intro!: ready.complies_call)
  have wait: "ready.complies (rLib R) rs0 clusters (waitForCleanup R rs n k)" for n k
    unfolding waitForCleanup_def Let_def
    by (intro policy_intros ready_unready_patch)
      (simp add: condition_library.saysReady_setStatusCond [OF assms])
  show ?thesis
    unfolding reconcileDelete_def deleteRemainingMSAs_def removeFinalizerStep_def deleteAll_def
    by (intro policy_intros wait calls)
qed

lemma reconcileBody_ready:
  assumes L: "condition_library (rLib R)" "sdk_library (rLib R)" "finalizer_library (rLib R)"
    and run: "run_state (resolvePlacementRefs R rs (setGeneration rs)) w = (p, w1)"
    and len: "length (reClusters p) < 2 ^ 31"
  shows "\<exists>es. trace (snd (run_state (reconcileBody R rs) w)) = trace w @ es \<and>
    justified (readyOK (rLib R) rs (reClusters p)) {} es"
proof (cases "deletionTimestamp_IsZero (setMeta rs) \<and> finalizerName \<in> set (omFinalizers (setMeta rs))")
  case True
  then have "reconcileBody R rs = reconcileLive R rs"
    by (simp add: reconcileBody_def finalizer_library.AddFinalizer [OF L(3)])
  with reconcileLive_ready [OF L(1,2) run len] show ?thesis by simp
next
  case False
  have "ready.complies (rLib R) rs (reClusters p) (patchSet R a b)" for a b
    by (auto simp: patchSet_def intro!: ready.complies_call)
  with False have "ready.complies (rLib R) rs (reClusters p) (reconcileBody R rs)"
    by (auto simp: reconcileBody_def finalizer_library.AddFinalizer [OF L(3)] Let_def
        intro!: ready.walk.moves_bind ready.walk.moves_return ready.walk.moves_sum ready.walk.moves_prod ready_reconcileDelete L)
  then show ?thesis unfolding ready.complies_emits emits_def by blast
qed


lemma Reconcile_ready:
  assumes L: "condition_library (rLib R)" "sdk_library (rLib R)" "finalizer_library (rLib R)"
    and get: "run_state (getSet R req) w = (Inr rs, w0)"
    and run: "run_state (resolvePlacementRefs R rs (setGeneration rs)) w0 = (p, w1)"
    and len: "length (reClusters p) < 2 ^ 31"
  shows "\<exists>es. trace (snd (run_state (Reconcile R req) w)) = trace w @ GetSet req (Inr rs) # es \<and>
    justified (readyOK (rLib R) rs (reClusters p)) {} es"
proof -
  let ?J = "readyOK (rLib R) rs (reClusters p)"
  let ?stop = "\<lambda>(rs', keepClusters, res). stopNamespaceCaches R rs' keepClusters \<bind> (\<lambda>_. return res)"
  have w0: "trace w0 = trace w @ [GetSet req (Inr rs)]"
    using get by (auto simp: getSet_def call_def split: prod.splits)
  obtain r w2 where body: "run_state (reconcileBody R rs) w0 = (r, w2)" by (cases "run_state (reconcileBody R rs) w0") auto
  with reconcileBody_ready [OF L run len] obtain es where es: "trace w2 = trace w0 @ es" "justified ?J {} es" by auto
  have "ready.complies (rLib R) rs (reClusters p) (?stop r)" by (intro policy_intros)
  then obtain es' where es': "trace (snd (run_state (?stop r) w2)) = trace w2 @ es'" "justified ?J {} es'"
    unfolding ready.complies_emits emits_def by blast
  have "run_state (Reconcile R req) w = run_state (?stop r) w2"
    by (simp add: Reconcile_def get body)
  with w0 es es' show ?thesis
    by (intro exI [of _ "es @ es'"]) (simp add: ready.justified_append_empty)
qed


section \<open>An example\<close>

text \<open>A live set without RBAC whose accounts on both clusters have reported their token.\<close>

definition readySet :: replicaSet where
  "readySet = sampleSet\<lparr>setMeta := (setMeta sampleSet)\<lparr>omFinalizers := [finalizerName]\<rparr>,
     setSpec := (sampleSpec [])\<lparr>spRBAC := None\<rparr>\<rparr>"

definition readyHub :: hub where
  "readyHub = placedHub\<lparr>hubSets := [readySet],
     hubMSAs := map (\<lambda>c. (buildManagedServiceAccount ref_lib readySet c ''all'')\<lparr>msaConditions :=
         [\<lparr>cType = ''TokenReported'', cStatus = ConditionTrue, cObservedGeneration = 1, cLastTransitionTime = 5,
           cReason = ''Done'', cMessage = []\<rparr>]\<rparr>) [''c1'', ''c2'']\<rparr>"

definition readyRun :: "(ctrlResult \<times> go_error option) \<times> hub world" where
  "readyRun = run_state (Reconcile (hubReconciler ref_lib) (''fleet'', ''viewer'')) (sampleWorld readyHub)"

lemma readyRun_says_ready:
  "list_ex (\<lambda>e. case e of PatchSetStatus base new r \<Rightarrow> saysReady ref_lib (setStatus new) | _ \<Rightarrow> False) (trace (snd readyRun))"
  by code_simp

lemma readyRun_resolves:
  obtains w0 p w1 where "run_state (getSet (hubReconciler ref_lib) (''fleet'', ''viewer'')) (sampleWorld readyHub) = (Inr readySet, w0)"
    "run_state (resolvePlacementRefs (hubReconciler ref_lib) readySet (setGeneration readySet)) w0 = (p, w1)"
    "reClusters p = [''c1'', ''c2'']"
proof -
  let ?R = "hubReconciler ref_lib"
  obtain w0 where get: "run_state (getSet ?R (''fleet'', ''viewer'')) (sampleWorld readyHub) = (Inr readySet, w0)" and w0: "env w0 = readyHub"
    by (simp add: getSet_def call_def hubServer_def hubGet_def hubFind_def sampleWorld_def readyHub_def readySet_def
        sampleSet_def objectMeta_zero_def)
  obtain p w1 where run: "run_state (resolvePlacementRefs ?R readySet (setGeneration readySet)) w0 = (p, w1)"
    by (cases "run_state (resolvePlacementRefs ?R readySet (setGeneration readySet)) w0") auto
  have "reClusters p = [''c1'', ''c2'']"
    using run w0 by (auto simp: resolvePlacementRefs_def readySet_def sampleSet_def sampleSpec_def resolveStep_def resolvePlacementRef_def
        resolveOCMPlacement_def getPlacement_def listDecisions_def call_def hubReconciler_def hubServer_def hubGet_def hubFind_def
        placedHub_def readyHub_def emptyHub_def objectMeta_zero_def noteResolved_def Let_def ref_lib_def ref_matches_def
        resolution_zero_def fset_of_list_simps)
  with that get run show ?thesis by blast
qed

end
