(* ===== verification/Wanted_Children.thy ===== *)
theory Wanted_Children
  imports Readiness
begin

text \<open>
  What a reconciliation wants it does not delete: the children written by the ensure calls of a pass are
  among the names the cleanup at the end of the pass keeps. The names are collected in the
  accumulator while the clusters are visited; the invariant of that loop ties them to the trace.
\<close>

section \<open>Children written and deleted\<close>

definition childId :: "child \<Rightarrow> childKind \<times> key" where
  "childId x = (kindOf x, objectKey (childMeta x))"

definition written :: "api_event list \<Rightarrow> (childKind \<times> key) set" where
  "written es = set (concat (map (\<lambda>e. case e of CreateChild y r \<Rightarrow> [childId y] | PatchChild b y r \<Rightarrow> [childId y] | _ \<Rightarrow> []) es))"

definition deleted :: "api_event list \<Rightarrow> (childKind \<times> key) set" where
  "deleted es = set (concat (map (\<lambda>e. case e of DeleteChild y r \<Rightarrow> [childId y] | _ \<Rightarrow> []) es))"

text \<open>The server answers a read with the object asked for.\<close>

definition honest :: "api_event list \<Rightarrow> bool" where
  "honest es \<longleftrightarrow> list_all (\<lambda>e. case e of GetChild kind k (Inr x) \<Rightarrow> childId x = (kind, k) | _ \<Rightarrow> True) es"

lemma written_simps [simp]:
  "written [] = {}" "written (es @ fs) = written es \<union> written fs" "deleted [] = {}" "deleted (es @ fs) = deleted es \<union> deleted fs"
  "honest [] = True" "honest (es @ fs) \<longleftrightarrow> honest es \<and> honest fs"
  by (simp_all add: written_def deleted_def honest_def)

lemma event_simps [simp]:
  "written (GetChild kind k x # es) = written es" "written (CreateChild y r # es) = insert (childId y) (written es)"
  "written (PatchChild b y r # es) = insert (childId y) (written es)" "written (DeleteChild y r2 # es) = written es"
  "written (ListChildren kind sel l # es) = written es"
  "deleted (GetChild kind k x # es) = deleted es" "deleted (CreateChild y r # es) = deleted es"
  "deleted (PatchChild b y r # es) = deleted es" "deleted (DeleteChild y r2 # es) = insert (childId y) (deleted es)"
  "deleted (ListChildren kind sel l # es) = deleted es"
  by (simp_all add: written_def deleted_def)

lemma honest_get: "honest (GetChild kind k (Inr x) # es) \<Longrightarrow> childId x = (kind, k)"
  by (simp add: honest_def)

lemma deleted_childDeletes: "deleted (childDeletes mk xs answers) \<subseteq> (\<lambda>x. childId (mk x)) ` set xs" "written (childDeletes mk xs answers) = {}"
proof -
  show "deleted (childDeletes mk xs answers) \<subseteq> (\<lambda>x. childId (mk x)) ` set xs"
    unfolding deleted_def by (auto dest!: set_childDeletes)
  show "written (childDeletes mk xs answers) = {}"
    unfolding written_def by (fastforce dest!: set_childDeletes)
qed

fun noChildWrite :: "api_event set \<Rightarrow> api_event \<Rightarrow> bool" where
  "noChildWrite before (CreateChild y r) = False"
| "noChildWrite before (PatchChild b y r) = False"
| "noChildWrite before (DeleteChild y r) = False"
| "noChildWrite before _ = True"

interpretation idle: read_policy noChildWrite
proof unfold_locales
  fix A B e
  assume "A \<subseteq> B" "noChildWrite A e"
  then show "noChildWrite B e" by (cases e) simp_all
qed simp_all

lemma idle_empty: "justified noChildWrite A es \<Longrightarrow> written es = {} \<and> deleted es = {}"
  using idle.justified_member [of A es] unfolding written_def deleted_def by (fastforce split: api_event.splits)

lemma idle_emits: "idle.complies m \<Longrightarrow> emits m (\<lambda>_ es. written es = {} \<and> deleted es = {})"
  unfolding idle.complies_emits by (erule emits_weaken) (rule idle_empty)

context child_client
begin

lemma ensureOutcome_written:
  assumes "ensureOutcome L cc mk kind rs desired ops r es" "honest es" "\<And>x d. ccMeta cc (opApply ops x d) = ccMeta cc x"
  shows "written es \<subseteq> {(kind, objectKey (ccMeta cc desired))} \<and> deleted es = {}"
  using assms(1)
proof cases
  case (patched current)
  with assms(2) have "childId (mk current) = (kind, objectKey (ccMeta cc desired))" by (auto dest: honest_get)
  then show ?thesis
    using patched by (simp add: childId_def mk_meta mk_kind patchedChild_def assms(3) meta_set)
qed (simp_all add: childId_def mk_meta mk_kind)

end

section \<open>The names collected for a cluster\<close>

definition wanted :: "replicaSet \<Rightarrow> string \<Rightarrow> childAcc \<Rightarrow> (childKind \<times> key) set" where
  "wanted rs c acc = {(MSAKind, (c, n)) | n. n |\<in>| desiredManagedServiceAccountNames rs} \<union>
     {(WorkKind, (c, n)) | n. n |\<in>| desiredNamesAt (kaWorkNames acc) c}"

text \<open>What a part of the work on a cluster adds: names of that cluster only, and writes among them.\<close>

definition collects :: "replicaSet \<Rightarrow> string \<Rightarrow> childAcc \<Rightarrow> childAcc \<Rightarrow> api_event list \<Rightarrow> bool" where
  "collects rs c acc acc' es \<longleftrightarrow> desiredNamesAt (kaWorkNames acc) c |\<subseteq>| desiredNamesAt (kaWorkNames acc') c \<and>
     (\<forall>d. d \<noteq> c \<longrightarrow> desiredNamesAt (kaWorkNames acc') d = desiredNamesAt (kaWorkNames acc) d) \<and>
     (honest es \<longrightarrow> written es \<subseteq> wanted rs c acc' \<and> deleted es = {})"

lemma collects_refl: "written es = {} \<and> deleted es = {} \<Longrightarrow> kaWorkNames acc' = kaWorkNames acc \<Longrightarrow> collects rs c acc acc' es"
  by (simp add: collects_def)

lemma collects_trans:
  assumes "collects rs c acc acc1 es" "collects rs c acc1 acc2 fs"
  shows "collects rs c acc acc2 (es @ fs)"
proof -
  have "wanted rs c acc1 \<subseteq> wanted rs c acc2" using assms(2) by (auto simp: collects_def wanted_def)
  with assms show ?thesis unfolding collects_def by auto
qed

lemma collects_names: "kaWorkNames acc2 = kaWorkNames acc1 \<Longrightarrow> collects rs c acc acc1 es \<Longrightarrow> collects rs c acc acc2 es"
  by (simp add: collects_def wanted_def)

lemma collects_bind:
  assumes "emits m P" "\<And>r es. P r es \<Longrightarrow> collects rs c acc (g r) es"
    and "\<And>r. emits (f r) (\<lambda>x es. collects rs c (g r) (h x) es)"
  shows "emits (State_Monad.bind m f) (\<lambda>x es. collects rs c acc (h x) es)"
proof (rule emits_bind [OF assms(1)])
  fix r es
  assume "P r es"
  from collects_trans [OF assms(2) [OF this]] show "emits (f r) (\<lambda>x es'. collects rs c acc (h x) (es @ es'))"
    by (rule emits_weaken [OF assms(3)])
qed

lemma insertWorkName_names:
  "desiredNamesAt (kaWorkNames (insertWorkName c name acc)) d =
     (if d = c then finsert name (desiredNamesAt (kaWorkNames acc) c) else desiredNamesAt (kaWorkNames acc) d)"
  by (simp add: insertWorkName_def desiredNamesAt_def)

lemma noteEnsured_names [simp]: "kaWorkNames (snd (noteEnsured f r acc)) = kaWorkNames (snd acc)"
  by (simp add: noteEnsured_def split: sum.split)

section \<open>One cluster\<close>

definition wroteOnly :: "childKind \<times> key \<Rightarrow> api_event list \<Rightarrow> bool" where
  "wroteOnly x es \<longleftrightarrow> (honest es \<longrightarrow> written es \<subseteq> {x} \<and> deleted es = {})"

lemma ensure_wroteOnly:
  "emits (ensureManagedServiceAccount R rs c ref) (\<lambda>_. wroteOnly (MSAKind, (c, tmName (setTemplateMetadata rs))))"
  "emits (ensureControllerAccessManagedServiceAccount R rs c ref) (\<lambda>_. wroteOnly (MSAKind, (c, controllerAccessManagedServiceAccountName rs)))"
  "emits (ensureControllerAccessManifestWork R rs c ref) (\<lambda>_. wroteOnly (WorkKind, (c, controllerAccessManifestWorkName rs)))"
  "emits (ensureManifestWork R rs c ref sl) (\<lambda>_. wroteOnly (WorkKind, (c, slName sl)))"
proof -
  have msas: "emits (ensureChild L (msaClient R) rs d msaSpecOps) (\<lambda>_. wroteOnly (MSAKind, objectKey (msaMeta d)))" for L d
    by (rule emits_weaken [OF msa.ensureChild_emits])
      (auto simp: wroteOnly_def msaSpecOps_def dest!: msa.ensureOutcome_written)
  have works: "emits (ensureChild L (workClient R) rs d (manifestWorkSpecOps L)) (\<lambda>_. wroteOnly (WorkKind, objectKey (workMeta d)))" for L d
    by (rule emits_weaken [OF work.ensureChild_emits])
      (auto simp: wroteOnly_def manifestWorkSpecOps_def dest!: work.ensureOutcome_written)
  show "emits (ensureManagedServiceAccount R rs c ref) (\<lambda>_. wroteOnly (MSAKind, (c, tmName (setTemplateMetadata rs))))"
    "emits (ensureControllerAccessManagedServiceAccount R rs c ref) (\<lambda>_. wroteOnly (MSAKind, (c, controllerAccessManagedServiceAccountName rs)))"
    "emits (ensureControllerAccessManifestWork R rs c ref) (\<lambda>_. wroteOnly (WorkKind, (c, controllerAccessManifestWorkName rs)))"
    "emits (ensureManifestWork R rs c ref sl) (\<lambda>_. wroteOnly (WorkKind, (c, slName sl)))"
    using msas [of "rLib R" "buildManagedServiceAccount (rLib R) rs c ref"]
      msas [of "rLib R" "buildControllerAccessManagedServiceAccount (rLib R) rs c ref"]
      works [of "rLib R" "buildControllerAccessManifestWork (rLib R) rs c ref"] works [of "rLib R" "buildManifestWork (rLib R) rs c ref sl"]
    by (simp_all add: ensureManagedServiceAccount_def ensureControllerAccessManagedServiceAccount_def
        ensureControllerAccessManifestWork_def ensureManifestWork_def)
qed

lemma collects_wrote:
  "wroteOnly (WorkKind, (c, name)) es \<Longrightarrow> name |\<in>| desiredNamesAt (kaWorkNames acc) c \<Longrightarrow> collects rs c acc acc es"
  "wroteOnly (MSAKind, (c, name)) es \<Longrightarrow> name |\<in>| desiredManagedServiceAccountNames rs \<Longrightarrow> collects rs c acc acc es"
  by (auto simp: wroteOnly_def collects_def wanted_def)

lemma collects_insert:
  "wroteOnly (MSAKind, (c, n)) es \<Longrightarrow> n |\<in>| desiredManagedServiceAccountNames rs \<Longrightarrow> collects rs c acc (insertWorkName c name acc) es"
  "collects rs c acc (insertWorkName c name acc) []"
  by (auto simp: wroteOnly_def collects_def wanted_def insertWorkName_names)

lemma desired_names:
  "tmName (setTemplateMetadata rs) |\<in>| desiredManagedServiceAccountNames rs"
  "selectorRBACEnabled rs \<Longrightarrow> controllerAccessManagedServiceAccountName rs |\<in>| desiredManagedServiceAccountNames rs"
  by (simp_all add: desiredManagedServiceAccountNames_def Let_def)

lemma collects_return: "kaWorkNames acc' = kaWorkNames acc \<Longrightarrow> h x = acc' \<Longrightarrow> emits (return x) (\<lambda>x es. collects rs c acc (h x) es)"
  by (rule emits_return) (simp add: collects_def)

lemma collects_return_acc: "kaWorkNames acc' = kaWorkNames acc \<Longrightarrow> emits (return acc') (collects rs c acc)"
  by (rule emits_return) (simp add: collects_def)

lemma ensureAccess_collects: "emits (ensureAccess R rs c ref acc) (\<lambda>x es. collects rs c acc (snd x) es)"
proof (cases "selectorRBACEnabled rs")
  case True
  let ?acc1 = "\<lambda>r. noteEnsured (managedServiceAccountReady (rLib R)) r (True, acc)"
  let ?acc2 = "\<lambda>r. insertWorkName c (controllerAccessManifestWorkName rs) (snd (?acc1 r))"
  have start: "collects rs c acc (?acc2 r) es" if "wroteOnly (MSAKind, (c, controllerAccessManagedServiceAccountName rs)) es" for r es
    using collects_insert(1) [OF that desired_names(2) [OF True], of acc "controllerAccessManifestWorkName rs"]
    by (rule collects_names [rotated]) (simp add: insertWorkName_def)
  show ?thesis
    unfolding ensureAccess_def Let_def if_P [OF True]
    by (rule collects_bind [OF ensure_wroteOnly(2), where g = ?acc2], erule start,
        rule collects_bind [OF ensure_wroteOnly(3)], erule collects_wrote(1), simp add: insertWorkName_names,
        rule collects_return [OF _ refl], simp)
next
  case False
  then show ?thesis by (simp add: ensureAccess_def collects_return)
qed

lemma ensureSlice_collects: "emits (ensureSlice R rs c ref keys idx sl acc) (\<lambda>x es. collects rs c (snd acc) (snd x) es)"
proof -
  let ?acc1 = "insertWorkName c (slName sl) (snd acc)"
  have "emits (ensureSlice R rs c ref keys idx sl acc) (\<lambda>x es. collects rs c ?acc1 (snd x) es)"
    unfolding ensureSlice_def Let_def
    by (rule collects_bind [OF ensure_wroteOnly(4)], erule collects_wrote(1), simp add: insertWorkName_names)
      (rule collects_return [OF _ refl], simp split: sum.split)
  then show ?thesis
    by (rule emits_weaken) (use collects_trans [OF collects_insert(2)] in fastforce)
qed

lemma collects_mfold:
  fixes acc :: "bool \<times> childAcc"
  assumes "\<And>x acc. emits (f x acc) (\<lambda>y es. collects rs c (snd acc) (snd y) es)"
  shows "emits (mfold f xs acc) (\<lambda>y es. collects rs c (snd acc) (snd y) es)"
proof (rule emits_mfold [where I = "\<lambda>_ y es. collects rs c (snd acc) (snd y) es"])
  fix xs x ys es and y :: "bool \<times> childAcc"
  assume "collects rs c (snd acc) (snd y) es"
  then show "emits (f x y) (\<lambda>y' es'. collects rs c (snd acc) (snd y') (es @ es'))"
    by (intro emits_weaken [OF assms]) (rule collects_trans)
qed (simp add: collects_def)

lemma ensureRBAC_collects: "emits (ensureRBAC R rs c ref keys idx acc) (\<lambda>x es. collects rs c (snd acc) (snd x) es)"
proof (cases "rbacEnabled rs")
  case True
  let ?acc1 = "\<lambda>err. case err of None \<Rightarrow> acc | Some e \<Rightarrow> (False, (snd acc)\<lparr>kaResult := recordErr e (kaResult (snd acc))\<rparr>)"
  let ?acc2 = "\<lambda>sls err. (fst (?acc1 err), (snd (?acc1 err))\<lparr>kaStatus :=
    bumpSummaries (addDesired (int32 (int (length sls)))) keys idx (kaStatus (snd (?acc1 err)))\<rparr>)"
  have names: "kaWorkNames (snd (?acc2 sls err)) = kaWorkNames (snd acc)" for sls err by (simp split: option.split)
  have loop: "emits (mfold (ensureSlice R rs c ref keys idx) sls (?acc2 sls err)) (\<lambda>x es. collects rs c (snd acc) (snd x) es)" for sls err
    using collects_mfold [of "ensureSlice R rs c ref keys idx", OF ensureSlice_collects, of sls "?acc2 sls err"]
    by (rule emits_weaken) (simp add: collects_def names [unfolded snd_conv])
  show ?thesis
    unfolding ensureRBAC_def Let_def if_P [OF True]
    by (rule collects_bind [OF idle_emits [OF idle.walk.moves_desiredRBACSlices], where g = "\<lambda>_. snd acc"])
      (use loop in \<open>auto intro: collects_refl split: prod.split\<close>)
next
  case False
  then show ?thesis by (simp add: ensureRBAC_def collects_return)
qed

lemma rolloutCluster_collects: "emits (rolloutCluster R rs c ref keys idx acc) (\<lambda>acc' es. collects rs c acc acc' es)"
proof -
  have ns: "idle.complies (getNamespace R c)" by (intro policy_intros)
  have children: "emits (do { acc1 \<leftarrow> ensureAccess R rs c ref acc; r \<leftarrow> ensureManagedServiceAccount R rs c ref;
      acc2 \<leftarrow> ensureRBAC R rs c ref keys idx (noteEnsured (managedServiceAccountReady (rLib R)) r acc1);
      return (if fst acc2 then bumpReady (snd acc2) else snd acc2) }) (\<lambda>acc' es. collects rs c acc acc' es)"
  proof (rule collects_bind [OF ensureAccess_collects], assumption)
    fix acc1
    show "emits (do { r \<leftarrow> ensureManagedServiceAccount R rs c ref;
        acc2 \<leftarrow> ensureRBAC R rs c ref keys idx (noteEnsured (managedServiceAccountReady (rLib R)) r acc1);
        return (if fst acc2 then bumpReady (snd acc2) else snd acc2) }) (\<lambda>acc' es. collects rs c (snd acc1) acc' es)"
    proof (rule collects_bind [OF ensure_wroteOnly(1)], erule collects_wrote(2) [OF _ desired_names(1)])
      fix r
      have "emits (ensureRBAC R rs c ref keys idx (noteEnsured (managedServiceAccountReady (rLib R)) r acc1))
          (\<lambda>x es. collects rs c (snd acc1) (snd x) es)"
        by (rule emits_weaken [OF ensureRBAC_collects]) (simp add: collects_def)
      then show "emits (do { acc2 \<leftarrow> ensureRBAC R rs c ref keys idx (noteEnsured (managedServiceAccountReady (rLib R)) r acc1);
          return (if fst acc2 then bumpReady (snd acc2) else snd acc2) }) (\<lambda>acc' es. collects rs c (snd acc1) acc' es)"
        by (rule collects_bind) (assumption, rule collects_return [OF _ refl], simp add: bumpReady_def)
    qed
  qed
  show ?thesis
    unfolding rolloutCluster_def
    by (rule collects_bind [OF idle_emits [OF ns], where g = "\<lambda>_. acc"], erule collects_refl)
      (auto split: option.split intro: children collects_return_acc)
qed

lemma clusterStep_collects:
  "emits (clusterStep R rs res rollout statuses idx c acc)
     (\<lambda>acc' es. collects rs c (acc\<lparr>kaWorkNames := fmupd c {||} (kaWorkNames acc)\<rparr>) acc' es)"
  (is "emits _ (\<lambda>acc' es. collects rs c ?acc acc' es)")
proof -
  have existing: "emits (do { status \<leftarrow> aggregateExistingRBACSummary R rs c ref keys idx st; return (acc2\<lparr>kaStatus := status\<rparr>) })
      (\<lambda>acc' es. collects rs c ?acc acc' es)" if "kaWorkNames acc2 = kaWorkNames ?acc" for ref keys st acc2
    by (rule collects_bind [OF idle_emits [OF idle.walk.moves_aggregateExisting], where g = "\<lambda>_. ?acc"], erule collects_refl)
      (use that in \<open>auto intro: collects_return_acc\<close>)
  show ?thesis
    unfolding clusterStep_def Let_def
    by (auto intro!: rolloutCluster_collects existing collects_return_acc simp: bumpReady_def)
qed

section \<open>The whole pass\<close>

text \<open>After some clusters: their children are written only under wanted names, and none is deleted.\<close>

definition collected :: "replicaSet \<Rightarrow> string list \<Rightarrow> childAcc \<Rightarrow> api_event list \<Rightarrow> bool" where
  "collected rs cs acc es \<longleftrightarrow> (honest es \<longrightarrow> written es \<subseteq> (\<Union>c \<in> set cs. wanted rs c acc) \<and> deleted es = {})"

lemma collected_step:
  assumes "collected rs cs acc es" "c \<notin> set cs"
    and "collects rs c (acc\<lparr>kaWorkNames := fmupd c {||} (kaWorkNames acc)\<rparr>) acc' fs"
  shows "collected rs (cs @ [c]) acc' (es @ fs)"
proof -
  have "wanted rs d acc' = wanted rs d acc" if "d \<in> set cs" for d
  proof -
    have "d \<noteq> c" using that assms(2) by auto
    with assms(3) show ?thesis by (auto simp: collects_def wanted_def desiredNamesAt_def)
  qed
  then have "(\<Union>d \<in> set cs. wanted rs d acc') = (\<Union>d \<in> set cs. wanted rs d acc)" by (rule SUP_cong [OF refl])
  with assms(1,3) show ?thesis unfolding collected_def collects_def by auto
qed

lemma clusters_collected:
  assumes "distinct cs"
  shows "emits (mfold (clusterStep R rs res rollout statuses idx) cs acc) (\<lambda>acc' es. collected rs cs acc' es)"
proof (rule emits_mfold [where I = "collected rs"])
  fix xs x ys acc es
  assume "cs = xs @ x # ys" "collected rs xs acc es"
  then show "emits (clusterStep R rs res rollout statuses idx x acc) (\<lambda>acc' es'. collected rs (xs @ [x]) acc' (es @ es'))"
    using assms by (intro emits_weaken [OF clusterStep_collects] collected_step) auto
qed (simp add: collected_def)

lemma staleOutcome_deleted:
  assumes "staleOutcome rs D C N M r es"
  shows "written es = {} \<and> (\<forall>kind ns n. (kind, (ns, n)) \<in> deleted es \<longrightarrow>
    staleChild D C (case kind of MSAKind \<Rightarrow> M | WorkKind \<Rightarrow> desiredNamesAt N ns) ns n)"
  using assms
  by cases (auto simp: deleted_childDeletes(2) childId_def staleWorks_def staleMSAs_def dest!: subsetD [OF deleted_childDeletes(1)])

text \<open>No child is both written and deleted.\<close>

definition separate :: "api_event list \<Rightarrow> bool" where
  "separate es \<longleftrightarrow> (honest es \<longrightarrow> written es \<inter> deleted es = {})"

lemma separate_idle:
  assumes "written fs = {} \<and> deleted fs = {}"
  shows "separate es \<Longrightarrow> separate (fs @ es)" "separate es \<Longrightarrow> separate (es @ fs)"
  using assms by (auto simp: separate_def)

lemma separate_stale:
  assumes "collected rs cs acc es" "staleOutcome rs (fset_of_list cs) C (kaWorkNames acc) (desiredManagedServiceAccountNames rs) r fs"
  shows "separate (es @ fs)"
proof -
  have "x \<notin> deleted fs" if "x \<in> wanted rs c acc" "c \<in> set cs" for x c
    using that staleOutcome_deleted [OF assms(2)] by (fastforce simp: wanted_def staleChild_def fset_of_list.rep_eq)
  with assms(1) staleOutcome_deleted [OF assms(2)] show ?thesis by (auto simp: separate_def collected_def)
qed

lemma reconcileChildren_separate:
  assumes "distinct (reClusters res)"
  shows "emits (reconcileChildren R rs res names cleanup statuses st) (\<lambda>_ es. separate es)"
  unfolding reconcileChildren_def Let_def
proof (rule emits_bind [OF clusters_collected [OF assms]])
  fix acc es
  assume col: "collected rs (reClusters res) acc es"
  then have "separate es" by (auto simp: collected_def separate_def)
  moreover have "emits (deleteStaleChildren R rs (fset_of_list (reClusters res)) cleanup (kaWorkNames acc) (desiredManagedServiceAccountNames rs))
      (\<lambda>_ fs. separate (es @ fs))"
    by (rule emits_weaken [OF deleteStaleChildren_emits]) (rule separate_stale [OF col])
  ultimately show "emits (if crrErr (kaResult acc) \<noteq> None
      then return (kaResult acc, concludeControllerAccess (rLib R) rs (kaStatus acc))
      else do { (pending, err) \<leftarrow> deleteStaleChildren R rs (fset_of_list (reClusters res)) cleanup (kaWorkNames acc)
          (desiredManagedServiceAccountNames rs);
        return ((kaResult acc)\<lparr>crrCleanupPending := pending, crrErr := (case err of None \<Rightarrow> crrErr (kaResult acc)
            | Some e \<Rightarrow> errors_Join [crrErr (kaResult acc), Some e])\<rparr>, concludeControllerAccess (rLib R) rs (kaStatus acc)) })
      (\<lambda>_ es'. separate (es @ es'))"
    by (auto intro!: emits_return intro: emits_bind split: prod.split)
qed

section \<open>The whole reconciliation\<close>

lemma idle_programs:
  "idle.complies (patchStatus R rs st)" "idle.complies (earlyReturn R rs st reason action err)"
  "idle.complies (concludeReconcile R rs patchErr result after)" "idle.complies (patchSet R a b)"
proof -
  show patch: "idle.complies (patchStatus R rs st)" for rs st
    unfolding patchStatus_def patchSetStatus_def by (intro policy_intros idle.complies_call) simp
  show "idle.complies (earlyReturn R rs st reason action err)"
    unfolding earlyReturn_def by (intro policy_intros patch)
  show "idle.complies (concludeReconcile R rs patchErr result after)"
    unfolding concludeReconcile_def by (intro policy_intros)
  show "idle.complies (patchSet R a b)" by (auto simp: patchSet_def intro!: idle.complies_call)
qed

lemma separate_after:
  assumes "idle.complies m" "\<And>a. emits (f a) (\<lambda>_ es. separate es)"
  shows "emits (State_Monad.bind m f) (\<lambda>_ es. separate es)"
proof (rule emits_bind [OF idle_emits [OF assms(1)]])
  fix a es
  assume "written es = {} \<and> deleted es = {}"
  from separate_idle(1) [OF this] show "emits (f a) (\<lambda>_ es'. separate (es @ es'))" by (rule emits_weaken [OF assms(2)])
qed

lemma separate_before:
  assumes "emits m (\<lambda>_ es. separate es)" "\<And>a. idle.complies (f a)"
  shows "emits (State_Monad.bind m f) (\<lambda>_ es. separate es)"
proof (rule emits_bind [OF assms(1)])
  fix a es
  assume "separate es"
  then show "emits (f a) (\<lambda>_ es'. separate (es @ es'))"
    by (intro emits_weaken [OF idle_emits [OF assms(2)]]) (rule separate_idle(2))
qed

lemma separate_idle_program: "idle.complies m \<Longrightarrow> emits m (\<lambda>_ es. separate es)"
  by (rule emits_weaken [OF idle_emits]) (auto simp: separate_def)

lemma rolloutAndApply_separate:
  assumes "distinct (reClusters res)"
  shows "emits (rolloutAndApply R rs res st) (\<lambda>_ es. separate es)"
proof -
  have "emits (do { (result, status2) \<leftarrow> reconcileChildren R rs res names cleanup statuses st1;
      (rs', patchErr) \<leftarrow> patchStatus R rs (finalStatus (rLib R) rs n result status2);
      (x, err) \<leftarrow> concludeReconcile R rs' patchErr result after; return (rs', x, err) }) (\<lambda>_ es. separate es)"
    for names cleanup statuses st1 n after
    by (rule separate_before [OF reconcileChildren_separate [OF assms]]) (intro policy_intros idle_programs)
  moreover have "emits (do { recordWarningEvent R rs reason action msg; (rs', patchErr) \<leftarrow> patchStatus R rs st';
      return (rs', ctrlResult_zero, errors_Join [patchErr, Some err]) }) (\<lambda>_ es. separate es)" for reason action msg st' err
    by (rule separate_idle_program) (intro policy_intros idle_programs)
  ultimately show ?thesis
    unfolding rolloutAndApply_def Let_def
    by (intro separate_after idle.walk.moves_planRollout) (auto split: sum.split)
qed

lemma reconcileLive_separate: "emits (reconcileLive R rs) (\<lambda>_ es. separate es)"
proof (cases "validateRuntimeSpec rs")
  case (Some err)
  show ?thesis
    unfolding reconcileLive_def Some option.case
    by (rule separate_idle_program) (intro policy_intros idle_programs)
next
  case None
  have early: "emits (do { (rs', res) \<leftarrow> earlyReturn R rs st reason action err; return (rs', {||} :: strset, res) }) (\<lambda>_ es. separate es)"
    for st reason action err
    by (rule separate_idle_program) (intro policy_intros idle_programs)
  have go: "emits (do { (rs', res) \<leftarrow> rolloutAndApply R rs p st1; return (rs', keep, res) }) (\<lambda>_ es. separate es)"
    if "distinct (reClusters p)" for p st1 and keep :: strset
    by (rule separate_before [OF rolloutAndApply_separate [OF that]]) (intro policy_intros)
  have rest: "emits (case (reErr p, reClusters p) of
        (Some err, []) \<Rightarrow> do { (rs', res) \<leftarrow> earlyReturn R rs st reason action err; return (rs', {||}, res) }
      | _ \<Rightarrow> do { (rs', res) \<leftarrow> rolloutAndApply R rs p st1; return (rs', keep, res) }) (\<lambda>_ es. separate es)"
    if "distinct (reClusters p)" for p st st1 reason action and keep :: strset
    using go [OF that] early by (simp split: option.split list.split)
  have resolve: "emits (resolvePlacementRefs R rs g) (\<lambda>p es. distinct (reClusters p) \<and> written es = {} \<and> deleted es = {})" for g
    using emits_conj [OF resolvePlacementRefs_distinct idle_emits [OF idle.walk.moves_resolvePlacementRefs]]
    by (rule emits_weaken) blast
  show ?thesis
    unfolding reconcileLive_def None option.case Let_def
    by (rule emits_bind [OF resolve], rule emits_weaken [OF rest]) (auto intro: separate_idle(1))
qed

fun noChildUpsert :: "api_event set \<Rightarrow> api_event \<Rightarrow> bool" where
  "noChildUpsert before (CreateChild y r) = False"
| "noChildUpsert before (PatchChild b y r) = False"
| "noChildUpsert before _ = True"

interpretation gone: read_policy noChildUpsert
proof unfold_locales
  fix A B e
  assume "A \<subseteq> B" "noChildUpsert A e"
  then show "noChildUpsert B e" by (cases e) simp_all
qed simp_all

lemma gone_written: "justified noChildUpsert A es \<Longrightarrow> written es = {}"
proof (induction es arbitrary: A)
  case (Cons e es)
  then show ?case by (cases e) (simp_all add: written_def)
qed simp

lemma reconcileDelete_separate: "emits (reconcileDelete R rs) (\<lambda>_ es. separate es)"
proof -
  have "gone.complies (listMSAs R sel)" "gone.complies (listWorks R sel)" "gone.complies (deleteMSA R m)"
    "gone.complies (deleteWork R k)" "gone.complies (patchSet R a b)" "gone.complies (patchSetStatus R a b)" for sel m k a b
    by (auto simp: listMSAs_def listWorks_def deleteMSA_def deleteWork_def patchSet_def patchSetStatus_def intro!: gone.complies_call)
  then have "gone.complies (reconcileDelete R rs)"
    unfolding reconcileDelete_def deleteRemainingMSAs_def removeFinalizerStep_def waitForCleanup_def patchStatus_def deleteAll_def
    by (intro policy_intros)
  moreover have "separate es" if "justified noChildUpsert {} es" for es
    using gone_written [OF that] by (simp add: separate_def)
  ultimately show ?thesis unfolding gone.complies_emits by (rule emits_weaken)
qed

lemma reconcileBody_separate: "emits (reconcileBody R rs) (\<lambda>_ es. separate es)"
proof -
  have "emits (do { (rs', res) \<leftarrow> reconcileDelete R rs; return (rs', {||}, res) }) (\<lambda>_ es. separate es)"
    by (rule separate_before [OF reconcileDelete_separate]) (intro policy_intros)
  moreover have "emits (do { r \<leftarrow> patchSet R a b; case r of Inl err \<Rightarrow> return (b, {||}, ctrlResult_zero, Some err)
      | Inr rs2 \<Rightarrow> return (rs2, {||}, ctrlResult_zero, None) }) (\<lambda>_ es. separate es)" for a b
    by (rule separate_idle_program) (intro policy_intros idle_programs)
  ultimately show ?thesis
    unfolding reconcileBody_def Let_def by (auto intro: reconcileLive_separate split: prod.split)
qed

lemma Reconcile_separate: "emits (Reconcile R req) (\<lambda>_ es. separate es)"
proof -
  have get: "idle.complies (getSet R req)" by (auto simp: getSet_def intro!: idle.complies_call)
  have "emits (do { (rs', keep, res) \<leftarrow> reconcileBody R rs; stopNamespaceCaches R rs' keep; return res }) (\<lambda>_ es. separate es)" for rs
    by (rule separate_before [OF reconcileBody_separate]) (intro policy_intros)
  then show ?thesis
    unfolding Reconcile_def
    by (intro separate_after get) (auto split: sum.split intro!: separate_idle_program policy_intros)
qed

section \<open>Property\<close>

text \<open>
  C4: What a pass writes it does not delete. Against every API server that answers a read with the
  object asked for, whatever else it does: no ManagedServiceAccount and no ManifestWork is both
  created or patched and deleted in one reconciliation.
\<close>

theorem Reconcile_keeps_what_it_writes:
  "\<exists>es. trace (snd (run_state (Reconcile R req) w)) = trace w @ es \<and> (honest es \<longrightarrow> written es \<inter> deleted es = {})"
  using Reconcile_separate [of R req] by (simp add: emits_def separate_def)

text \<open>A hub where accounts are missing on both selected clusters and one is left on another.\<close>

definition staleHub :: hub where
  "staleHub = placedHub\<lparr>hubSets := [readySet], hubMSAs := [buildManagedServiceAccount ref_lib readySet ''c3'' ''all'']\<rparr>"

definition staleTrace :: "api_event list" where
  "staleTrace = trace (snd (run_state (Reconcile (hubReconciler ref_lib) (''fleet'', ''viewer'')) (sampleWorld staleHub)))"

definition staleReport :: "api_event list \<Rightarrow> bool" where
  "staleReport es \<longleftrightarrow> honest es \<and> written es = {(MSAKind, (''c1'', ''viewer-account'')), (MSAKind, (''c2'', ''viewer-account''))} \<and>
     deleted es = {(MSAKind, (''c3'', ''viewer-account''))}"

lemma staleTrace_events: "staleReport staleTrace"
  by code_simp

theorem Reconcile_keeps_what_it_writes_witness:
  "honest staleTrace \<and> (MSAKind, (''c1'', ''viewer-account'')) \<in> written staleTrace \<and> deleted staleTrace \<noteq> {} \<and>
   written staleTrace \<inter> deleted staleTrace = {}"
proof -
  have "honest staleTrace \<Longrightarrow> written staleTrace \<inter> deleted staleTrace = {}"
    using Reconcile_keeps_what_it_writes [of "hubReconciler ref_lib" "(''fleet'', ''viewer'')" "sampleWorld staleHub"]
    by (simp add: staleTrace_def sampleWorld_def)
  with staleTrace_events show ?thesis by (simp add: staleReport_def)
qed

end
