(* ===== verification/Watches.thy ===== *)
theory Watches
  imports Placement
begin

text \<open>
  The watches of the controller (\<^verbatim>\<open>managedserviceaccountreplicaset_controller.go\<close>): the field index,
  the functions that map a watched object to reconcile requests, and the table of watches that
  \<^verbatim>\<open>SetupWithManager\<close> registers. The cached list of sets is a parameter; what controller-runtime
  documents of a list by field index is the locale \<open>indexed_sets\<close>. The lemmas show that the watches
  cover what a reconciliation reads.
\<close>

section \<open>The field index and the list of sets\<close>

definition indexPlacementRefNames :: string where
  "indexPlacementRefNames = ''placementRefNames''"

text \<open>The function registered for the index: the distinct names of the references, sorted.\<close>

definition placementRefNames :: "replicaSet \<Rightarrow> string list" where
  "placementRefNames rs = sorted_list_of_fset (fset_of_list (map prName (spPlacementRefs (setSpec rs))))"

text \<open>The list options in use: \<^verbatim>\<open>InNamespace\<close> and \<^verbatim>\<open>MatchingFields\<close> with one field.\<close>

record listOptions =
  loNamespace :: "string option"
  loMatchingField :: "(string \<times> string) option"

type_synonym setLister = "listOptions \<Rightarrow> go_error + replicaSet list"

section \<open>Requests\<close>

definition replicaSetListToRequests :: "replicaSet list \<Rightarrow> key list" where
  "replicaSetListToRequests items = map (\<lambda>s. (setNamespace s, setName s)) items"

definition requestsForPlacementRefName :: "setLister \<Rightarrow> string \<Rightarrow> string \<Rightarrow> key list" where
  "requestsForPlacementRefName lister namespace placementName =
     (case lister \<lparr>loNamespace = Some namespace, loMatchingField = Some (indexPlacementRefNames, placementName)\<rparr> of
        Inl err \<Rightarrow> []
      | Inr matched \<Rightarrow> replicaSetListToRequests matched)"

definition requestsForOCMPlacement :: "setLister \<Rightarrow> objectMeta \<Rightarrow> key list" where
  "requestsForOCMPlacement lister obj = requestsForPlacementRefName lister (omNamespace obj) (omName obj)"

definition requestsForOCMPlacementDecision :: "lib \<Rightarrow> setLister \<Rightarrow> objectMeta \<Rightarrow> key list" where
  "requestsForOCMPlacementDecision L lister obj =
     (let placementName = kv_get (omLabels obj) (c_PlacementLabel L)
      in if placementName = [] then [] else requestsForPlacementRefName lister (omNamespace obj) placementName)"

definition requestsForGeneratedChild :: "objectMeta \<Rightarrow> key list" where
  "requestsForGeneratedChild obj =
     (case requestFromSourceLabels (omLabels obj) of None \<Rightarrow> [] | Some key \<Rightarrow> [key])"

text \<open>The watched objects; a namespace event carries a set with only its key.\<close>

datatype watchedObject =
    WatchedSet objectMeta
  | WatchedPlacement objectMeta
  | WatchedPlacementDecision objectMeta
  | WatchedManagedServiceAccount objectMeta
  | WatchedManifestWork objectMeta
  | WatchedClusterProfile objectMeta
  | NamespaceEvent key

definition requestsForClusterProfile :: "setLister \<Rightarrow> watchedObject \<Rightarrow> key list" where
  "requestsForClusterProfile lister obj = (case obj of
     WatchedClusterProfile m \<Rightarrow>
       (case lister \<lparr>loNamespace = None, loMatchingField = None\<rparr> of
          Inl err \<Rightarrow> []
        | Inr matched \<Rightarrow> replicaSetListToRequests matched)
   | _ \<Rightarrow> [])"

text \<open>
  The table \<^verbatim>\<open>SetupWithManager\<close> builds; the last watch exists when the resolver is a source of
  namespace events.
\<close>

definition watchRequests :: "lib \<Rightarrow> setLister \<Rightarrow> bool \<Rightarrow> watchedObject \<Rightarrow> key list" where
  "watchRequests L lister namespaceEventSource obj = (case obj of
     WatchedSet m \<Rightarrow> [objectKey m]
   | WatchedPlacement m \<Rightarrow> requestsForOCMPlacement lister m
   | WatchedPlacementDecision m \<Rightarrow> requestsForOCMPlacementDecision L lister m
   | WatchedManagedServiceAccount m \<Rightarrow> requestsForGeneratedChild m
   | WatchedManifestWork m \<Rightarrow> requestsForGeneratedChild m
   | WatchedClusterProfile m \<Rightarrow> requestsForClusterProfile lister obj
   | NamespaceEvent k \<Rightarrow> if namespaceEventSource then [k] else [])"


section \<open>The index as an interface\<close>

text \<open>
  A cached list over the stored sets: all of them without options, and by the field index those
  of the namespace for which the registered function yields the value.
\<close>

locale indexed_sets =
  fixes lister :: setLister and stored :: "replicaSet list"
  assumes list_all_sets: "lister \<lparr>loNamespace = None, loMatchingField = None\<rparr> = Inr stored"
    and list_by_ref:
      "lister \<lparr>loNamespace = Some ns, loMatchingField = Some (indexPlacementRefNames, v)\<rparr> =
         Inr (filter (\<lambda>s. setNamespace s = ns \<and> v \<in> set (placementRefNames s)) stored)"
begin

lemma requestsForPlacementRefName_iff:
  "k \<in> set (requestsForPlacementRefName lister ns v) \<longleftrightarrow>
     (\<exists>s \<in> set stored. objectKey (setMeta s) = k \<and> setNamespace s = ns \<and> v \<in> prName ` set (spPlacementRefs (setSpec s)))"
  by (auto simp: requestsForPlacementRefName_def list_by_ref replicaSetListToRequests_def placementRefNames_def
      sorted_list_of_fset.rep_eq fset_of_list.rep_eq)

lemma requestsForClusterProfile_all:
  "requestsForClusterProfile lister (WatchedClusterProfile m) = map (\<lambda>s. objectKey (setMeta s)) stored"
  by (simp add: requestsForClusterProfile_def list_all_sets replicaSetListToRequests_def)

end

definition hubLister :: "hub \<Rightarrow> setLister" where
  "hubLister h opts = Inr (filter (\<lambda>s.
     (case loNamespace opts of None \<Rightarrow> True | Some ns \<Rightarrow> setNamespace s = ns) \<and>
     (case loMatchingField opts of None \<Rightarrow> True | Some (field, v) \<Rightarrow> v \<in> set (placementRefNames s))) (hubSets h))"

interpretation hubIndex: indexed_sets "hubLister h" "hubSets h" for h
  by unfold_locales (simp_all add: hubLister_def)

lemma owned_request:
  assumes "label_library L" "ownedBySet L rs lbls" "setName rs \<noteq> []" "setNamespace rs \<noteq> []"
  shows "requestFromSourceLabels lbls = Some (objectKey (setMeta rs))"
proof -
  have "fmlookup lbls k = Some v" if "fmlookup (sourceLabels rs) k = Some v" for k v
    using that assms(2) label_library.ownedBySet_iff [OF assms(1)] by blast
  from this [OF sourceLabels_lookup(3)] this [OF sourceLabels_lookup(4)] assms(3,4)
  show ?thesis by (simp add: requestFromSourceLabels_def kv_get_def)
qed

section \<open>What a resolution reads\<close>

definition placementsRead :: "api_event list \<Rightarrow> key set" where
  "placementsRead es = {k. \<exists>r. GetPlacement k r \<in> set es}"

lemma placementsRead_simps [simp]:
  "placementsRead [] = {}" "placementsRead (es @ fs) = placementsRead es \<union> placementsRead fs"
  "placementsRead (GetPlacement k r # es) = insert k (placementsRead es)"
  "placementsRead (ListDecisions sel ns d # es) = placementsRead es"
  by (auto simp: placementsRead_def)

lemma resolveOCMPlacement_reads: "emits (resolveOCMPlacement R ns name) (\<lambda>_ es. placementsRead es = {(ns, name)})"
  unfolding resolveOCMPlacement_def getPlacement_def listDecisions_def
  by (auto intro!: emits_bind_call emits_return split: sum.split)

lemma resolveStep_reads:
  "emits (resolveStep R rs g ref acc) (\<lambda>_ es. placementsRead es = {(setNamespace rs, prName ref)})"
proof -
  have "emits (resolvePlacementRef R rs ref g prev) (\<lambda>_ es. placementsRead es = {(setNamespace rs, prName ref)})" for prev
    unfolding resolvePlacementRef_def Let_def
    by (rule emits_bind [OF resolveOCMPlacement_reads]) (simp add: split_beta emits_return)
  then show ?thesis
    unfolding resolveStep_def by (rule emits_bind) (simp add: split_beta emits_return)
qed

lemma resolvePlacementRefs_reads:
  "emits (resolvePlacementRefs R rs g) (\<lambda>_ es. placementsRead es =
     (\<lambda>ref. (setNamespace rs, prName ref)) ` set (spPlacementRefs (setSpec rs)))"
proof -
  have loop: "emits (mfold (resolveStep R rs g) refs acc) (\<lambda>_ es. placementsRead es = (\<lambda>ref. (setNamespace rs, prName ref)) ` set refs)"
    for refs acc
  proof (rule emits_mfold [where I = "\<lambda>xs _ es. placementsRead es = (\<lambda>ref. (setNamespace rs, prName ref)) ` set xs"])
    fix xs :: "placementRef list" and x acc es
    assume "placementsRead es = (\<lambda>ref. (setNamespace rs, prName ref)) ` set xs"
    then show "emits (resolveStep R rs g x acc)
        (\<lambda>_ es'. placementsRead (es @ es') = (\<lambda>ref. (setNamespace rs, prName ref)) ` set (xs @ [x]))"
      by (intro emits_weaken [OF resolveStep_reads]) simp
  qed simp
  show ?thesis unfolding resolvePlacementRefs_def by (rule emits_bind [OF loop]) (simp add: emits_return)
qed

section \<open>Properties\<close>

text \<open>
  Watches are exact. A change of a PlacementDecision enqueues precisely the stored sets of its
  namespace that refer to the placement it is labelled with, and nothing when it has no such label.
\<close>

theorem requestsForOCMPlacementDecision_exact:
  assumes "indexed_sets lister stored"
  shows "k \<in> set (requestsForOCMPlacementDecision L lister m) \<longleftrightarrow>
    kv_get (omLabels m) (c_PlacementLabel L) \<noteq> [] \<and>
    (\<exists>s \<in> set stored. objectKey (setMeta s) = k \<and> setNamespace s = omNamespace m \<and>
       kv_get (omLabels m) (c_PlacementLabel L) \<in> prName ` set (spPlacementRefs (setSpec s)))"
  by (auto simp: requestsForOCMPlacementDecision_def Let_def indexed_sets.requestsForPlacementRefName_iff [OF assms])

theorem requestsForOCMPlacementDecision_exact_witness:
  "(''fleet'', ''viewer'') \<in> set (requestsForOCMPlacementDecision ref_lib (hubLister placedHub) (pdMeta (hd (hubDecisions placedHub))))"
  using requestsForOCMPlacementDecision_exact [OF hubIndex.indexed_sets_axioms, of "(''fleet'', ''viewer'')" ref_lib placedHub
      "pdMeta (hd (hubDecisions placedHub))"]
  by (simp add: placedHub_def emptyHub_def sampleSet_def sampleSpec_def objectMeta_zero_def kv_get_def ref_lib_def)

text \<open>
  C40: No trigger is lost. Every placement that resolving a stored set reads, whatever the server
  answers, is watched: a change of the placement with that key enqueues the set. So does a change of any
  ManagedServiceAccount or ManifestWork that the set owns.
\<close>

theorem watches_cover_reads:
  assumes "indexed_sets lister stored" "label_library (rLib R)" "rs \<in> set stored"
    and "setName rs \<noteq> []" "setNamespace rs \<noteq> []"
  shows "(\<exists>es. trace (snd (run_state (resolvePlacementRefs R rs g) w)) = trace w @ es \<and>
      (\<forall>m r. GetPlacement (objectKey m) r \<in> set es \<longrightarrow>
         objectKey (setMeta rs) \<in> set (watchRequests (rLib R) lister b (WatchedPlacement m)))) \<and>
    (\<forall>m. ownedBySet (rLib R) rs (omLabels m) \<longrightarrow>
      watchRequests (rLib R) lister b (WatchedManagedServiceAccount m) = [objectKey (setMeta rs)] \<and>
      watchRequests (rLib R) lister b (WatchedManifestWork m) = [objectKey (setMeta rs)])"
proof -
  obtain es where es: "trace (snd (run_state (resolvePlacementRefs R rs g) w)) = trace w @ es"
    "placementsRead es = (\<lambda>ref. (setNamespace rs, prName ref)) ` set (spPlacementRefs (setSpec rs))"
    using resolvePlacementRefs_reads [of R rs g] unfolding emits_def by blast
  have "objectKey (setMeta rs) \<in> set (watchRequests (rLib R) lister b (WatchedPlacement m))"
    if "GetPlacement (objectKey m) r \<in> set es" for m r
  proof -
    from that have "objectKey m \<in> placementsRead es" unfolding placementsRead_def by blast
    with es(2) assms(3) show ?thesis
      by (auto simp: watchRequests_def requestsForOCMPlacement_def indexed_sets.requestsForPlacementRefName_iff [OF assms(1)])
  qed
  moreover have "watchRequests (rLib R) lister b (WatchedManagedServiceAccount m) = [objectKey (setMeta rs)] \<and>
      watchRequests (rLib R) lister b (WatchedManifestWork m) = [objectKey (setMeta rs)]"
    if "ownedBySet (rLib R) rs (omLabels m)" for m
    using assms(4,5) owned_request [OF assms(2) that] by (simp add: watchRequests_def requestsForGeneratedChild_def)
  ultimately show ?thesis using es(1) by blast
qed

theorem watches_cover_reads_witness:
  "watchRequests ref_lib (hubLister placedHub) True (WatchedManifestWork (objectMeta_zero\<lparr>omLabels := sourceLabels sampleSet\<rparr>)) =
     [(''fleet'', ''viewer'')]"
proof -
  have "sampleSet \<in> set (hubSets placedHub)" by (simp add: placedHub_def)
  with watches_cover_reads [OF hubIndex.indexed_sets_axioms, of "hubReconciler ref_lib" sampleSet placedHub]
  show ?thesis by (simp add: ref.label_library_axioms ref.ownedBySet_sourceLabels)
qed

end
