(* ===== verification/Cluster_Access.thy ===== *)
theory Cluster_Access
  imports Controller_Access "HOL-Library.Multiset"
begin

text \<open>
  How the controller reaches a managed cluster (\<^verbatim>\<open>namespace_resolver.go\<close>): the choice of the
  ClusterProfile of an OCM cluster, and the access configuration for the controller's own account,
  made from the configured one. Slices are cloned before they are changed, so values model them.
  The arguments of an exec plugin are compared by what its flag parser reads in them: the accounts named, and the rest.
\<close>

section \<open>ClusterProfiles\<close>

text \<open>
  \<^verbatim>\<open>civ1alpha1.ClusterProfile\<close>: its metadata and the names of the access providers and of the
  credential providers of its status.
\<close>

record clusterProfile =
  cpMeta :: objectMeta
  cpAccessProviders :: "string list"
  cpCredentialProviders :: "string list"

definition clusterProfileAccessProviderName :: string where
  "clusterProfileAccessProviderName = ''open-cluster-management''"

definition hasClusterProfileAccessProvider :: "clusterProfile \<Rightarrow> string \<Rightarrow> bool" where
  "hasClusterProfileAccessProvider profile providerName \<longleftrightarrow>
     providerName \<in> set (cpAccessProviders profile) \<or> providerName \<in> set (cpCredentialProviders profile)"

text \<open>The local client may be nil; it lists by matching labels.\<close>

type_synonym profileLister = "kv \<Rightarrow> go_error + clusterProfile list"

definition clusterProfileForOCMCluster ::
  "profileLister option \<Rightarrow> string \<Rightarrow> string \<Rightarrow> go_error + clusterProfile" where
  "clusterProfileForOCMCluster localClient preferredNamespace clusterName =
     (case localClient of
        None \<Rightarrow> Inl (ErrText ''local client is not configured'')
      | Some list_profiles \<Rightarrow>
         (case list_profiles (fmap_of_list [(ocmClusterNameLabel, clusterName)]) of
            Inl err \<Rightarrow> Inl err
          | Inr [] \<Rightarrow> Inl (ErrText (''waiting for ClusterProfile labeled '' @ ocmClusterNameLabel @ ''='' @ clusterName))
          | Inr [profile] \<Rightarrow> Inr profile
          | Inr profiles \<Rightarrow>
              (let candidates = (if preferredNamespace \<noteq> []
                     then filter (\<lambda>p. omNamespace (cpMeta p) = preferredNamespace) profiles else []);
                   providers = filter (\<lambda>p. hasClusterProfileAccessProvider p clusterProfileAccessProviderName) profiles
               in if length candidates = 1 then Inr (candidates ! 0)
                  else if length providers = 1 then Inr (providers ! 0)
                  else Inl (ErrText (''multiple ClusterProfiles labeled '' @ ocmClusterNameLabel @ ''='' @ clusterName @
                    ''; waiting for a single selected profile in namespace '' @ fmt_q preferredNamespace @
                    '' or with '' @ fmt_q clusterProfileAccessProviderName @ '' access provider'')))))"

section \<open>Access configuration\<close>

text \<open>
  \<^verbatim>\<open>clientcmdapi.ExecConfig\<close>: arguments, environment, and everything else, which is copied as it is;
  \<^verbatim>\<open>access.Provider\<close> and \<^verbatim>\<open>access.Config\<close>.
\<close>

record execConfig =
  exArgs :: "string list"
  exEnv :: "(string \<times> string) list"
  exRest :: string

record accessProvider =
  apName :: string
  apExecConfig :: "execConfig option"

record accessConfig =
  acProviders :: "accessProvider list"

definition msaFlag :: string where
  "msaFlag = ''--managed-serviceaccount''"

text \<open>\<^verbatim>\<open>slices.IndexFunc\<close>; \<^const>\<open>None\<close> is the index -1.\<close>

fun slices_IndexFunc :: "('a \<Rightarrow> bool) \<Rightarrow> 'a list \<Rightarrow> nat option" where
  "slices_IndexFunc p [] = None"
| "slices_IndexFunc p (x # xs) = (if p x then Some 0 else map_option Suc (slices_IndexFunc p xs))"

definition managedServiceAccountArgs :: "string list \<Rightarrow> string \<Rightarrow> string list" where
  "managedServiceAccountArgs args managedServiceAccountName =
     (let desired = msaFlag @ ''='' @ managedServiceAccountName;
          byPrefix = (case slices_IndexFunc (\<lambda>a. strings_HasPrefix a (msaFlag @ ''='')) args of
             Some i \<Rightarrow> args[i := desired]
           | None \<Rightarrow> args @ [desired])
      in case slices_IndexFunc (\<lambda>a. a = msaFlag) args of
           Some i \<Rightarrow> if i + 1 < length args then args[i + 1 := managedServiceAccountName] else byPrefix
         | None \<Rightarrow> byPrefix)"

definition execEnv :: "(string \<times> string) list \<Rightarrow> string \<Rightarrow> string \<Rightarrow> (string \<times> string) list" where
  "execEnv vars name val =
     (case slices_IndexFunc (\<lambda>e. fst e = name) vars of
        Some i \<Rightarrow> vars[i := (fst (vars ! i), val)]
      | None \<Rightarrow> vars @ [(name, val)])"

text \<open>The loop over the providers: the first OCM provider with an exec configuration is changed.\<close>

fun accessProvidersLoop :: "string \<Rightarrow> string \<Rightarrow> accessProvider list \<Rightarrow> accessProvider list option" where
  "accessProvidersLoop msaName namespace [] = None"
| "accessProvidersLoop msaName namespace (p # ps) =
     (case (if apName p \<noteq> clusterProfileAccessProviderName then None else apExecConfig p) of
        None \<Rightarrow> map_option (Cons p) (accessProvidersLoop msaName namespace ps)
      | Some ex \<Rightarrow> Some (p\<lparr>apExecConfig := Some (ex\<lparr>
            exArgs := managedServiceAccountArgs (exArgs ex) msaName,
            exEnv := execEnv (exEnv ex) ''NAMESPACE'' namespace\<rparr>)\<rparr> # ps))"

definition accessConfigForManagedServiceAccount :: "accessConfig \<Rightarrow> string \<Rightarrow> string \<Rightarrow> go_error + accessConfig" where
  "accessConfigForManagedServiceAccount cfg managedServiceAccountName namespace =
     (case accessProvidersLoop managedServiceAccountName namespace (acProviders cfg) of
        None \<Rightarrow> Inl (ErrText (''access config missing '' @ fmt_q clusterProfileAccessProviderName @ '' exec provider''))
      | Some ps \<Rightarrow> Inr \<lparr>acProviders = ps\<rparr>)"

section \<open>Choosing a profile\<close>

lemma sole_filter:
  assumes "length (filter P xs) = 1"
  shows "{x \<in> set xs. P x} = {filter P xs ! 0}"
proof -
  from assms obtain x where x: "filter P xs = [x]" by (auto simp: length_Suc_conv)
  have "{x \<in> set xs. P x} = set (filter P xs)" by simp
  with x show ?thesis by simp
qed

lemma sole_filter_perm:
  assumes "mset xs = mset ys" "length (filter P xs) = 1"
  shows "filter P ys = filter P xs"
proof -
  obtain x where x: "filter P xs = [x]" using assms(2) by (auto simp: length_Suc_conv)
  then have "mset (filter P xs) = {#x#}" by simp
  then have "mset (filter P ys) = {#x#}" using assms(1) by (simp only: mset_filter)
  then show ?thesis using x by (simp only: mset_single_iff)
qed

lemma length_filter_perm: "mset xs = mset ys \<Longrightarrow> length (filter P xs) = length (filter P ys)"
  by (metis mset_filter size_mset)

text \<open>The choice among the listed profiles, without the messages.\<close>

definition chooseProfile :: "string \<Rightarrow> clusterProfile list \<Rightarrow> clusterProfile option" where
  "chooseProfile ns ps =
     (let inNs = filter (\<lambda>p. omNamespace (cpMeta p) = ns) ps;
          able = filter (\<lambda>p. hasClusterProfileAccessProvider p clusterProfileAccessProviderName) ps
      in if length ps = 1 then Some (ps ! 0)
         else if ns \<noteq> [] \<and> length inNs = 1 then Some (inNs ! 0)
         else if length able = 1 then Some (able ! 0) else None)"

lemma clusterProfile_choice:
  assumes "list_profiles (fmap_of_list [(ocmClusterNameLabel, c)]) = Inr ps"
  shows "case_sum (\<lambda>_. None) Some (clusterProfileForOCMCluster (Some list_profiles) ns c) = chooseProfile ns ps"
  using assms by (cases ps; cases "tl ps") (auto simp: clusterProfileForOCMCluster_def chooseProfile_def Let_def)

lemma chooseProfile_perm:
  assumes "mset ps = mset qs"
  shows "chooseProfile ns ps = chooseProfile ns qs"
proof -
  have len: "length ps = length qs" using assms by (rule mset_eq_length)
  have whole: "qs = ps" if "length ps = 1"
    using sole_filter_perm [OF assms, of "\<lambda>_. True"] that by simp
  show ?thesis
    using sole_filter_perm [OF assms] length_filter_perm [OF assms] whole
    by (auto simp: chooseProfile_def Let_def len)
qed

lemma chooseProfile_sole:
  assumes "chooseProfile ns ps = Some p"
  shows "p \<in> set ps \<and> (ps = [p] \<or> {q \<in> set ps. omNamespace (cpMeta q) = ns} = {p} \<or>
    {q \<in> set ps. hasClusterProfileAccessProvider q clusterProfileAccessProviderName} = {p})"
proof (cases "length ps = 1")
  case True
  then obtain x where "ps = [x]" by (auto simp: length_Suc_conv)
  with assms show ?thesis by (simp add: chooseProfile_def)
next
  case False
  with assms sole_filter [of "\<lambda>p. omNamespace (cpMeta p) = ns" ps]
    sole_filter [of "\<lambda>p. hasClusterProfileAccessProvider p clusterProfileAccessProviderName" ps]
  have "{q \<in> set ps. omNamespace (cpMeta q) = ns} = {p} \<or>
    {q \<in> set ps. hasClusterProfileAccessProvider q clusterProfileAccessProviderName} = {p}"
    by (simp add: chooseProfile_def Let_def split: if_splits)
  then show ?thesis by blast
qed

section \<open>Arguments and environment\<close>

lemma IndexFunc_Some:
  "slices_IndexFunc p xs = Some i \<Longrightarrow> i < length xs \<and> p (xs ! i) \<and> (\<forall>j < i. \<not> p (xs ! j))"
proof (induction xs arbitrary: i)
  case (Cons x xs)
  then show ?case by (auto simp: nth_Cons' less_Suc_eq_0_disj split: if_splits)
qed simp

lemma IndexFunc_None: "slices_IndexFunc p xs = None \<longleftrightarrow> (\<forall>x \<in> set xs. \<not> p x)"
  by (induction xs) auto

lemma IndexFunc_split:
  assumes "slices_IndexFunc p xs = Some i"
  obtains us x vs where "xs = us @ x # vs" "length us = i" "p x" "\<forall>u \<in> set us. \<not> p u"
proof -
  from IndexFunc_Some [OF assms] have i: "i < length xs" "p (xs ! i)" "\<forall>j < i. \<not> p (xs ! j)" by auto
  show thesis
    by (rule that [of "take i xs" "xs ! i" "drop (Suc i) xs"]) (use i in \<open>auto simp: id_take_nth_drop [symmetric] in_set_conv_nth\<close>)
qed

text \<open>
  The arguments of an exec plugin, read as its flag parser reads them: the accounts that are named, in
  either form of the flag, the arguments that are left, and whether the flag comes last and without a value.
\<close>

abbreviation accountFlag :: "string \<Rightarrow> bool" where
  "accountFlag a \<equiv> strings_HasPrefix a (msaFlag @ ''='')"

definition flagValue :: "string \<Rightarrow> string" where
  "flagValue a = drop (length (msaFlag @ ''='')) a"

fun namedAccounts :: "string list \<Rightarrow> string list" where
  "namedAccounts [] = []"
| "namedAccounts [a] = (if accountFlag a then [flagValue a] else [])"
| "namedAccounts (a # b # args) = (if a = msaFlag then b # namedAccounts args
     else if accountFlag a then flagValue a # namedAccounts (b # args) else namedAccounts (b # args))"

fun otherArgs :: "string list \<Rightarrow> string list" where
  "otherArgs [] = []"
| "otherArgs [a] = (if accountFlag a then [] else [a])"
| "otherArgs (a # b # args) = (if a = msaFlag then otherArgs args
     else if accountFlag a then otherArgs (b # args) else a # otherArgs (b # args))"

fun danglingFlag :: "string list \<Rightarrow> bool" where
  "danglingFlag [] = False"
| "danglingFlag [a] = (a = msaFlag)"
| "danglingFlag (a # b # args) = (if a = msaFlag then danglingFlag args else danglingFlag (b # args))"

lemma flag_not_prefixed [simp]: "\<not> accountFlag msaFlag" "msaFlag @ CHR ''='' # n \<noteq> msaFlag" "accountFlag (msaFlag @ CHR ''='' # n)"
  "flagValue (msaFlag @ CHR ''='' # n) = n"
  by (simp_all add: strings_HasPrefix_def msaFlag_def flagValue_def)

lemma scan_flags:
  assumes "msaFlag \<notin> set us"
  shows "namedAccounts (us @ msaFlag # v # vs) = map flagValue (filter accountFlag us) @ v # namedAccounts vs"
    "otherArgs (us @ msaFlag # v # vs) = filter (\<lambda>a. \<not> accountFlag a) us @ otherArgs vs"
    "danglingFlag (us @ [msaFlag])"
    "namedAccounts us = map flagValue (filter accountFlag us)" "otherArgs us = filter (\<lambda>a. \<not> accountFlag a) us"
  using assms
proof (induction us)
  case (Cons u us)
  { case 1 with Cons show ?case by (cases us) auto }
  { case 2 with Cons show ?case by (cases us) auto }
  { case 3 with Cons show ?case by (cases us) auto }
  { case 4 with Cons show ?case by (cases us) auto }
  { case 5 with Cons show ?case by (cases us) auto }
qed auto

lemma args_scan:
  assumes "length (namedAccounts args) \<le> 1" "\<not> danglingFlag args"
  shows "namedAccounts (managedServiceAccountArgs args n) = [n] \<and> otherArgs (managedServiceAccountArgs args n) = otherArgs args"
proof (cases "slices_IndexFunc (\<lambda>a. a = msaFlag) args")
  case (Some i)
  then obtain us vs where us: "args = us @ msaFlag # vs" "length us = i" "msaFlag \<notin> set us" by (elim IndexFunc_split) auto
  with assms(2) scan_flags(3) [of us] obtain v ws where vs: "vs = v # ws" by (cases vs) auto
  have "managedServiceAccountArgs args n = us @ msaFlag # n # ws"
    using Some us vs by (simp add: managedServiceAccountArgs_def Let_def list_update_append)
  moreover have "filter accountFlag us = []" "namedAccounts ws = []"
    using assms(1) unfolding us(1) vs scan_flags(1) [OF us(3)] by auto
  ultimately show ?thesis using us vs scan_flags(1,2) [OF us(3)] by simp
next
  case None
  then have noflag: "msaFlag \<notin> set args" by (auto simp: IndexFunc_None)
  show ?thesis
  proof (cases "slices_IndexFunc accountFlag args")
    case (Some i)
    then obtain us x vs where us: "args = us @ x # vs" "length us = i" "accountFlag x" "\<forall>u \<in> set us. \<not> accountFlag u"
      by (elim IndexFunc_split) auto
    have new: "managedServiceAccountArgs args n = us @ (msaFlag @ ''='' @ n) # vs"
      using None Some us(1,2) by (simp add: managedServiceAccountArgs_def Let_def list_update_append)
    moreover have "msaFlag \<notin> set (us @ (msaFlag @ ''='' @ n) # vs)" using noflag us(1) by auto
    moreover have "filter accountFlag us = []" "filter accountFlag vs = []"
      using assms(1) us unfolding scan_flags(4) [OF noflag] by auto
    ultimately show ?thesis using us scan_flags(4,5) [OF noflag] by (simp add: scan_flags(4,5))
  next
    case None
    then have "filter accountFlag args = []" by (auto simp: IndexFunc_None filter_empty_conv)
    moreover have "managedServiceAccountArgs args n = args @ [msaFlag @ ''='' @ n]"
      using None \<open>slices_IndexFunc (\<lambda>a. a = msaFlag) args = None\<close> by (simp add: managedServiceAccountArgs_def Let_def)
    moreover have "msaFlag \<notin> set (args @ [msaFlag @ ''='' @ n])" using noflag by auto
    ultimately show ?thesis using scan_flags(5) [OF noflag] by (simp add: scan_flags(4,5))
  qed
qed

lemma execEnv_scan:
  assumes "length (filter (\<lambda>e. fst e = name) vars) \<le> 1"
  shows "filter (\<lambda>e. fst e = name) (execEnv vars name val) = [(name, val)] \<and>
    filter (\<lambda>e. fst e \<noteq> name) (execEnv vars name val) = filter (\<lambda>e. fst e \<noteq> name) vars"
proof (cases "slices_IndexFunc (\<lambda>e. fst e = name) vars")
  case None
  then have "filter (\<lambda>e. fst e = name) vars = []" by (auto simp: IndexFunc_None filter_empty_conv)
  with None show ?thesis by (simp add: execEnv_def)
next
  case (Some i)
  then obtain us x vs where us: "vars = us @ x # vs" "length us = i" "fst x = name" "\<forall>u \<in> set us. fst u \<noteq> name" by (elim IndexFunc_split) auto
  then have "execEnv vars name val = us @ (name, val) # vs" using Some by (simp add: execEnv_def list_update_append nth_append)
  moreover have "filter (\<lambda>e. fst e = name) us = []" using us(4) by (simp add: filter_empty_conv)
  moreover have "filter (\<lambda>e. fst e = name) vs = []" using assms us(1,3) calculation(2) by simp
  ultimately show ?thesis using us(1,3) by simp
qed

definition ocmExecProvider :: "accessProvider \<Rightarrow> bool" where
  "ocmExecProvider p \<longleftrightarrow> apName p = clusterProfileAccessProviderName \<and> apExecConfig p \<noteq> None"

text \<open>A configured exec plugin that names at most one account and at most one namespace, each with a value.\<close>

definition plainExec :: "execConfig \<Rightarrow> bool" where
  "plainExec ex \<longleftrightarrow> length (namedAccounts (exArgs ex)) \<le> 1 \<and> \<not> danglingFlag (exArgs ex) \<and>
     length (filter (\<lambda>e. fst e = ''NAMESPACE'') (exEnv ex)) \<le> 1"

lemma accessProvidersLoop_decompose:
  "accessProvidersLoop n ns ps = Some qs \<Longrightarrow>
     \<exists>xs p ex ys. ps = xs @ p # ys \<and> apName p = clusterProfileAccessProviderName \<and> apExecConfig p = Some ex \<and>
       list_all (\<lambda>x. \<not> ocmExecProvider x) xs \<and>
       qs = xs @ p\<lparr>apExecConfig := Some (ex\<lparr>exArgs := managedServiceAccountArgs (exArgs ex) n,
         exEnv := execEnv (exEnv ex) ''NAMESPACE'' ns\<rparr>)\<rparr> # ys"
proof (induction ps arbitrary: qs)
  case (Cons p ps)
  show ?case
  proof (cases "if apName p \<noteq> clusterProfileAccessProviderName then None else apExecConfig p")
    case None
    with Cons.prems obtain rs where "accessProvidersLoop n ns ps = Some rs" "qs = p # rs" by auto
    with Cons.IH None show ?thesis by (fastforce intro: exI [of _ "p # _"] simp: ocmExecProvider_def split: if_splits)
  next
    case (Some ex)
    with Cons.prems show ?thesis by (intro exI [of _ "[]"]) (auto split: if_splits)
  qed
qed simp

lemma accessProvidersLoop_None:
  "accessProvidersLoop n ns ps = None \<longleftrightarrow>
     list_all (\<lambda>x. \<not> ocmExecProvider x) ps"
  by (induction ps) (auto simp: ocmExecProvider_def split: option.splits if_splits)


section \<open>Properties\<close>

text \<open>
  C38: The ClusterProfile is chosen without ambiguity. The choice does not depend on the order in
  which the profiles are listed, and a profile is chosen only when it is the only one listed, the only
  one in the preferred namespace, or the only one with the OCM access provider.
\<close>

theorem clusterProfileForOCMCluster_unambiguous:
  assumes "listed (fmap_of_list [(ocmClusterNameLabel, c)]) = Inr ps"
    and "relisted (fmap_of_list [(ocmClusterNameLabel, c)]) = Inr qs" "mset ps = mset qs"
    and "clusterProfileForOCMCluster (Some listed) ns c = Inr p"
  shows "clusterProfileForOCMCluster (Some relisted) ns c = Inr p \<and> p \<in> set ps \<and>
    (ps = [p] \<or> {q \<in> set ps. omNamespace (cpMeta q) = ns} = {p} \<or>
     {q \<in> set ps. hasClusterProfileAccessProvider q clusterProfileAccessProviderName} = {p})"
proof -
  have chosen: "chooseProfile ns ps = Some p" using clusterProfile_choice [of listed c ps ns, OF assms(1)] assms(4) by simp
  then have "case_sum (\<lambda>_. None) Some (clusterProfileForOCMCluster (Some relisted) ns c) = Some p"
    using clusterProfile_choice [of relisted c qs ns, OF assms(2)] chooseProfile_perm [OF assms(3)] by simp
  then show ?thesis using chooseProfile_sole [OF chosen] by (simp split: sum.splits)
qed

theorem clusterProfileForOCMCluster_unambiguous_witness:
  "let near = \<lparr>cpMeta = objectMeta_zero\<lparr>omName := ''p'', omNamespace := ''fleet''\<rparr>, cpAccessProviders = [], cpCredentialProviders = []\<rparr>;
       far = near\<lparr>cpMeta := objectMeta_zero\<lparr>omName := ''p'', omNamespace := ''other''\<rparr>\<rparr>
   in clusterProfileForOCMCluster (Some (\<lambda>_. Inr [far, near])) ''fleet'' ''c1'' = Inr near"
proof -
  let ?near = "\<lparr>cpMeta = objectMeta_zero\<lparr>omName := ''p'', omNamespace := ''fleet''\<rparr>, cpAccessProviders = [], cpCredentialProviders = []\<rparr>"
  let ?far = "?near\<lparr>cpMeta := objectMeta_zero\<lparr>omName := ''p'', omNamespace := ''other''\<rparr>\<rparr>"
  have "clusterProfileForOCMCluster (Some (\<lambda>_. Inr [?near, ?far])) ''fleet'' ''c1'' = Inr ?near"
    by (simp add: clusterProfileForOCMCluster_def)
  from clusterProfileForOCMCluster_unambiguous [OF _ _ _ this, of _ "\<lambda>_. Inr [?far, ?near]" "[?far, ?near]"] show ?thesis
    by (simp add: Let_def add_mset_commute)
qed


text \<open>A plugin configured for another account.\<close>

definition configuredExec :: execConfig where
  "configuredExec = \<lparr>exArgs = [''get'', ''--managed-serviceaccount'', ''other'', ''-v''], exEnv = [(''HOME'', ''/'')], exRest = []\<rparr>"


end
