(* ===== verification/Namespace_Resolver.thy ===== *)
theory Namespace_Resolver
  imports Cluster_Access
begin

text \<open>
  \<^verbatim>\<open>ClusterInventoryNamespaceResolver\<close> (\<^verbatim>\<open>namespace_resolver.go\<close>): the map of remote namespace caches,
  guarded by a mutex, and the channel of namespace events. A cache has a context of its own, a child
  of the context its creation found as parent; stopping the cache cancels that context, and a started
  informer runs until its context is done. Each critical section is one definition, so that the step
  relation can interleave them with those of other goroutines; \<^verbatim>\<open>ensureNamespaceCache\<close> composes them for
  a caller that is alone. Informers, client construction and contexts' timing are client-go's and
  parameters here.
\<close>

section \<open>State\<close>

text \<open>\<open>rcContext\<close> is the identity of \<^verbatim>\<open>cacheCtx\<close>, to which informer, cancel and done belong.\<close>

record remoteNamespaceCache =
  rcSetUID :: string
  rcSetName :: string
  rcSetNS :: string
  rcCluster :: string
  rcContext :: nat
  rcParent :: "nat option" \<comment> \<open>\<^const>\<open>None\<close> is \<^verbatim>\<open>context.Background()\<close>\<close>

record resolverState =
  nrEvents :: "key list option" \<comment> \<open>the channel, oldest first; \<^const>\<open>None\<close> is nil\<close>
  nrCaches :: "(string, remoteNamespaceCache) fmap"
  nrParent :: "nat option"
  nrNext :: nat \<comment> \<open>the next context\<close>
  nrCancelled :: "nat fset"
  nrStarted :: "remoteNamespaceCache fset" \<comment> \<open>caches whose informer was started\<close>

definition resolver_zero :: resolverState where
  "resolver_zero = \<lparr>nrEvents = None, nrCaches = fmempty, nrParent = None, nrNext = 0, nrCancelled = {||}, nrStarted = {||}\<rparr>"

definition ctxDone :: "resolverState \<Rightarrow> remoteNamespaceCache \<Rightarrow> bool" where
  "ctxDone st c \<longleftrightarrow> rcContext c |\<in>| nrCancelled st \<or> (case rcParent c of None \<Rightarrow> False | Some p \<Rightarrow> p |\<in>| nrCancelled st)"

definition eventCapacity :: nat where
  "eventCapacity = 1024"

section \<open>Critical sections\<close>

definition ensureEventChannelLocked :: "resolverState \<Rightarrow> resolverState" where
  "ensureEventChannelLocked st = (case nrEvents st of None \<Rightarrow> st\<lparr>nrEvents := Some []\<rparr> | Some _ \<Rightarrow> st)"

definition NamespaceEvents :: "resolverState \<Rightarrow> resolverState" where
  "NamespaceEvents st = ensureEventChannelLocked st"

definition stop :: "remoteNamespaceCache \<Rightarrow> resolverState \<Rightarrow> resolverState" where
  "stop c st = st\<lparr>nrCancelled := finsert (rcContext c) (nrCancelled st)\<rparr>"

text \<open>
  The loops over the map: every entry that satisfies \<open>p\<close> is stopped and deleted. Go allows deleting
  while ranging; the order of the entries does not matter.
\<close>

definition stopWhere :: "(string \<Rightarrow> remoteNamespaceCache \<Rightarrow> bool) \<Rightarrow> resolverState \<Rightarrow> resolverState" where
  "stopWhere p st = fold (\<lambda>key st. case fmlookup (nrCaches st) key of
       None \<Rightarrow> st
     | Some c \<Rightarrow> if p key c then (stop c st)\<lparr>nrCaches := fmdrop key (nrCaches st)\<rparr> else st)
     (sorted_list_of_fset (fmdom (nrCaches st))) st"

definition cacheOfSet :: "replicaSet \<Rightarrow> remoteNamespaceCache \<Rightarrow> bool" where
  "cacheOfSet rs c \<longleftrightarrow> rcSetUID c = setUID rs \<and> rcSetNS c = setNamespace rs \<and> rcSetName c = setName rs"

definition namespaceCacheKey :: "replicaSet \<Rightarrow> string \<Rightarrow> clusterProfile \<Rightarrow> string" where
  "namespaceCacheKey rs clusterName profile = strings_Join
     [setUID rs, setNamespace rs, setName rs, clusterName, omNamespace (cpMeta profile), omName (cpMeta profile),
      controllerAccessManagedServiceAccountName rs] ''/''"

text \<open>The first critical section of \<^verbatim>\<open>ensureNamespaceCache\<close>: the existing cache, if any.\<close>

definition lookupNamespaceCache :: "string \<Rightarrow> resolverState \<Rightarrow> remoteNamespaceCache option \<times> resolverState" where
  "lookupNamespaceCache key st = (case fmlookup (nrCaches st) key of
     Some existing \<Rightarrow> (Some existing, st)
   | None \<Rightarrow> (None, ensureEventChannelLocked st))"

definition cacheParentContext :: "resolverState \<Rightarrow> nat option" where
  "cacheParentContext st = nrParent st"

text \<open>Between the critical sections: a new context and a cache around it.\<close>

definition newNamespaceCache :: "replicaSet \<Rightarrow> string \<Rightarrow> resolverState \<Rightarrow> remoteNamespaceCache \<times> resolverState" where
  "newNamespaceCache rs clusterName st =
     (\<lparr>rcSetUID = setUID rs, rcSetName = setName rs, rcSetNS = setNamespace rs, rcCluster = clusterName,
       rcContext = nrNext st, rcParent = cacheParentContext st\<rparr>, st\<lparr>nrNext := nrNext st + 1\<rparr>)"

text \<open>The second critical section: another goroutine's cache wins; else ours replaces those of other profiles.\<close>

definition insertNamespaceCache ::
  "string \<Rightarrow> replicaSet \<Rightarrow> string \<Rightarrow> remoteNamespaceCache \<Rightarrow> resolverState \<Rightarrow> remoteNamespaceCache option \<times> resolverState" where
  "insertNamespaceCache key rs clusterName namespaceCache st = (case fmlookup (nrCaches st) key of
     Some existing \<Rightarrow> (Some existing, stop namespaceCache st)
   | None \<Rightarrow> (None,
       stopWhere (\<lambda>existingKey c. existingKey \<noteq> key \<and> cacheOfSet rs c \<and> rcCluster c = clusterName)
         (st\<lparr>nrCaches := fmupd key namespaceCache (nrCaches st)\<rparr>)))"

definition runInformer :: "remoteNamespaceCache \<Rightarrow> resolverState \<Rightarrow> resolverState" where
  "runInformer c st = st\<lparr>nrStarted := finsert c (nrStarted st)\<rparr>"

definition StopNamespaceCaches :: "replicaSet \<Rightarrow> strset \<Rightarrow> resolverState \<Rightarrow> resolverState" where
  "StopNamespaceCaches rs keepClusters st = stopWhere (\<lambda>key c. cacheOfSet rs c \<and> rcCluster c |\<notin>| keepClusters) st"

text \<open>\<^verbatim>\<open>Start\<close> until it waits for its context, and after that context is done.\<close>

definition startResolver :: "nat \<Rightarrow> resolverState \<Rightarrow> resolverState" where
  "startResolver ctx st = st\<lparr>nrParent := Some ctx\<rparr>"

definition shutdownResolver :: "resolverState \<Rightarrow> resolverState" where
  "shutdownResolver st = stopWhere (\<lambda>_ _. True) st"

definition enqueueNamespaceEvent :: "key \<Rightarrow> resolverState \<Rightarrow> resolverState" where
  "enqueueNamespaceEvent owner st = (case nrEvents st of
     None \<Rightarrow> st
   | Some events \<Rightarrow> if length events < eventCapacity then st\<lparr>nrEvents := Some (events @ [owner])\<rparr> else st)"

section \<open>Resolving a selector\<close>

datatype storeObject = NamespaceObject objectMeta | OtherObject

text \<open>
  What the resolver is given: its two configured fields, the functions of the packages it calls, and
  how the informer and the caller's context turn out: whether \<^verbatim>\<open>WaitForCacheSync\<close> reports success,
  the context's error, and the informer's store.
\<close>

record resolverEnv =
  nvLocalClient :: "profileLister option"
  nvAccessConfig :: "accessConfig option"
  nvBuildConfigFromCP :: "accessConfig \<Rightarrow> clusterProfile \<Rightarrow> go_error + string"
  nvNewForConfig :: "string \<Rightarrow> go_error option"
  nvWaitForCacheSync :: "remoteNamespaceCache \<Rightarrow> bool"
  nvContextErr :: "go_error option"
  nvStoreList :: "remoteNamespaceCache \<Rightarrow> storeObject list"

text \<open>\<^verbatim>\<open>ensureNamespaceCache\<close> when no other goroutine comes between.\<close>

definition ensureNamespaceCache ::
  "resolverEnv \<Rightarrow> replicaSet \<Rightarrow> string \<Rightarrow> clusterProfile \<Rightarrow> string \<Rightarrow> resolverState
    \<Rightarrow> (go_error + remoteNamespaceCache) \<times> resolverState" where
  "ensureNamespaceCache E rs clusterName profile remoteConfig st =
     (let key = namespaceCacheKey rs clusterName profile in
      case lookupNamespaceCache key st of
        (Some existing, st1) \<Rightarrow> (Inr existing, st1)
      | (None, st1) \<Rightarrow>
         (case nvNewForConfig E remoteConfig of
            Some err \<Rightarrow> (Inl (ErrWrapped (''build remote namespace client for ClusterProfile '' @
                omNamespace (cpMeta profile) @ ''/'' @ omName (cpMeta profile) @ '': '') err []), st1)
          | None \<Rightarrow>
              let (namespaceCache, st2) = newNamespaceCache rs clusterName st1
              in case insertNamespaceCache key rs clusterName namespaceCache st2 of
                   (Some existing, st3) \<Rightarrow> (Inr existing, st3)
                 | (None, st3) \<Rightarrow> (Inr namespaceCache, runInformer namespaceCache st3)))"

definition waitForNamespaceCacheSync :: "resolverEnv \<Rightarrow> resolverState \<Rightarrow> remoteNamespaceCache \<Rightarrow> go_error option" where
  "waitForNamespaceCacheSync E st namespaceCache =
     (if nvWaitForCacheSync E namespaceCache then None
      else case nvContextErr E of
        Some err \<Rightarrow> Some err
      | None \<Rightarrow> if ctxDone st namespaceCache then Some (ErrText ''cache stopped'')
                else Some (ErrText ''cache sync timed out''))"

definition matchedNamespaces :: "lib \<Rightarrow> selector \<Rightarrow> storeObject list \<Rightarrow> string list" where
  "matchedNamespaces L sel objects = fold (\<lambda>ob matched. case ob of
     OtherObject \<Rightarrow> matched
   | NamespaceObject ns \<Rightarrow> if selector_Matches L sel (omLabels ns) then matched @ [omName ns] else matched) objects []"

definition ResolveNamespaceSelector ::
  "lib \<Rightarrow> resolverEnv \<Rightarrow> replicaSet \<Rightarrow> string \<Rightarrow> selector \<Rightarrow> resolverState \<Rightarrow> (go_error + string list) \<times> resolverState" where
  "ResolveNamespaceSelector L E rs clusterName sel st = (case nvAccessConfig E of
     None \<Rightarrow> (Inl (ErrText ''controller namespace access is not configured''), st)
   | Some configured \<Rightarrow> (case clusterProfileForOCMCluster (nvLocalClient E) (setNamespace rs) clusterName of
       Inl err \<Rightarrow> (Inl err, st)
     | Inr profile \<Rightarrow> (case accessConfigForManagedServiceAccount configured
           (controllerAccessManagedServiceAccountName rs) (omNamespace (cpMeta profile)) of
         Inl err \<Rightarrow> (Inl err, st)
       | Inr cfg \<Rightarrow> (case nvBuildConfigFromCP E cfg profile of
           Inl err \<Rightarrow> (Inl (ErrWrapped (''waiting for controller access for ClusterProfile '' @
              omNamespace (cpMeta profile) @ ''/'' @ omName (cpMeta profile) @ '': '') err []), st)
         | Inr remoteConfig \<Rightarrow> (case ensureNamespaceCache E rs clusterName profile remoteConfig st of
             (Inl err, st1) \<Rightarrow> (Inl err, st1)
           | (Inr namespaceCache, st1) \<Rightarrow> (case waitForNamespaceCacheSync E st1 namespaceCache of
               Some err \<Rightarrow> (Inl (ErrWrapped (''waiting for remote namespace cache for cluster '' @
                  fmt_q clusterName @ '': '') err []), st1)
             | None \<Rightarrow> (Inr (matchedNamespaces L sel (nvStoreList E namespaceCache)), st1)))))))"


section \<open>Stopping caches\<close>

lemma stop_simps [simp]:
  "nrCaches (stop c st) = nrCaches st" "nrEvents (stop c st) = nrEvents st" "nrParent (stop c st) = nrParent st"
  "nrNext (stop c st) = nrNext st" "nrStarted (stop c st) = nrStarted st"
  "nrCancelled (stop c st) = finsert (rcContext c) (nrCancelled st)"
  by (simp_all add: stop_def)

definition stopStep :: "(string \<Rightarrow> remoteNamespaceCache \<Rightarrow> bool) \<Rightarrow> string \<Rightarrow> resolverState \<Rightarrow> resolverState" where
  "stopStep p key st = (case fmlookup (nrCaches st) key of
     None \<Rightarrow> st
   | Some c \<Rightarrow> if p key c then (stop c st)\<lparr>nrCaches := fmdrop key (nrCaches st)\<rparr> else st)"

lemma stopWhere_fold: "stopWhere p st = fold (stopStep p) (sorted_list_of_fset (fmdom (nrCaches st))) st"
  unfolding stopWhere_def by (rule fold_cong) (simp_all add: stopStep_def fun_eq_iff)

lemma stopStep_lookup:
  "fmlookup (nrCaches (stopStep p key st)) k =
     (case fmlookup (nrCaches st) k of None \<Rightarrow> None | Some c \<Rightarrow> if k = key \<and> p k c then None else Some c)"
  by (auto simp: stopStep_def split: option.split)

lemma stopSteps_lookup:
  "fmlookup (nrCaches (fold (stopStep p) ks st)) k =
     (case fmlookup (nrCaches st) k of None \<Rightarrow> None | Some c \<Rightarrow> if k \<in> set ks \<and> p k c then None else Some c)"
  by (induction ks arbitrary: st) (auto simp: stopStep_lookup split: option.splits if_splits)

lemma stopSteps_cancelled:
  "distinct ks \<Longrightarrow> x |\<in>| nrCancelled (fold (stopStep p) ks st) \<longleftrightarrow>
     x |\<in>| nrCancelled st \<or> (\<exists>k c. k \<in> set ks \<and> fmlookup (nrCaches st) k = Some c \<and> p k c \<and> rcContext c = x)"
proof (induction ks arbitrary: st)
  case (Cons key ks)
  have "x |\<in>| nrCancelled (stopStep p key st) \<longleftrightarrow>
      x |\<in>| nrCancelled st \<or> (\<exists>c. fmlookup (nrCaches st) key = Some c \<and> p key c \<and> rcContext c = x)"
    by (auto simp: stopStep_def split: option.split)
  moreover have "fmlookup (nrCaches (stopStep p key st)) k = fmlookup (nrCaches st) k" if "k \<in> set ks" for k
    using that Cons.prems by (auto simp: stopStep_lookup split: option.split)
  ultimately show ?case using Cons by (auto split: option.splits)
qed simp

lemma stopStep_other [simp]:
  "nrEvents (stopStep p key st) = nrEvents st" "nrParent (stopStep p key st) = nrParent st"
  "nrNext (stopStep p key st) = nrNext st" "nrStarted (stopStep p key st) = nrStarted st"
  by (simp_all add: stopStep_def split: option.split)

lemma stopSteps_other [simp]:
  "nrEvents (fold (stopStep p) ks st) = nrEvents st" "nrParent (fold (stopStep p) ks st) = nrParent st"
  "nrNext (fold (stopStep p) ks st) = nrNext st" "nrStarted (fold (stopStep p) ks st) = nrStarted st"
  by (induction ks arbitrary: st) simp_all

lemma stopWhere_other [simp]:
  "nrEvents (stopWhere p st) = nrEvents st" "nrParent (stopWhere p st) = nrParent st"
  "nrNext (stopWhere p st) = nrNext st" "nrStarted (stopWhere p st) = nrStarted st"
  by (simp_all add: stopWhere_fold)

lemma stopWhere_lookup:
  "fmlookup (nrCaches (stopWhere p st)) k = Some c \<longleftrightarrow> fmlookup (nrCaches st) k = Some c \<and> \<not> p k c"
  by (auto simp: stopWhere_fold stopSteps_lookup sorted_list_of_fset.rep_eq fmdomI split: option.splits)

lemma stopWhere_cancelled:
  "x |\<in>| nrCancelled (stopWhere p st) \<longleftrightarrow>
     x |\<in>| nrCancelled st \<or> (\<exists>k c. fmlookup (nrCaches st) k = Some c \<and> p k c \<and> rcContext c = x)"
proof -
  have "x |\<in>| nrCancelled (stopWhere p st) \<longleftrightarrow> x |\<in>| nrCancelled st \<or>
      (\<exists>k c. k \<in> set (sorted_list_of_fset (fmdom (nrCaches st))) \<and> fmlookup (nrCaches st) k = Some c \<and> p k c \<and> rcContext c = x)"
    unfolding stopWhere_fold by (rule stopSteps_cancelled) simp
  moreover have "k \<in> set (sorted_list_of_fset (fmdom (nrCaches st)))" if "fmlookup (nrCaches st) k = Some c" for k c
    using fmdomI [OF that] by (simp add: sorted_list_of_fset.rep_eq)
  ultimately show ?thesis by blast
qed

end
