(* ===== verification/Resolver_Goroutines.thy ===== *)
theory Resolver_Goroutines
  imports Namespace_Resolver
begin

text \<open>
  The resolver under concurrency: an inductive step relation that interleaves the critical sections of
  calls in flight with the janitor, start and shutdown, the informers' event handlers and the receiver
  of the events; reachable states; and the invariant that ties informers, contexts and the map
  together, by rule induction. A call without interference is a sequence of these steps, so its
  result is about the right set and cluster. The locale \<open>cache_janitor\<close> is the contract of
  \<^verbatim>\<open>NamespaceCacheJanitor\<close>.
\<close>

section \<open>Goroutines\<close>

text \<open>
  A call of \<^verbatim>\<open>ensureNamespaceCache\<close> between two of its steps: after the lookup missed, with a cache that
  is not in the map yet, and with one that is but whose informer does not run yet.
\<close>

datatype inFlight =
    LookedUp string replicaSet string
  | Built string replicaSet string remoteNamespaceCache
  | Inserted remoteNamespaceCache

record resolverSys =
  syState :: resolverState
  syCalls :: "inFlight list"

text \<open>No component of a key has a slash: names, namespaces and UIDs of Kubernetes objects do not.\<close>

definition slashFree :: "replicaSet \<Rightarrow> string \<Rightarrow> bool" where
  "slashFree rs cluster \<longleftrightarrow> CHR ''/'' \<notin> set (setUID rs) \<union> set (setNamespace rs) \<union> set (setName rs) \<union> set cluster"

text \<open>
  One atomic step of the system: of a call in flight, of the janitor, of \<^verbatim>\<open>Start\<close>, of an informer's event
  handler, or of the receiver of the events. The manager's context is a fresh one. The parameter says
  for which sets and clusters calls are made.
\<close>

inductive resolver_step :: "(replicaSet \<Rightarrow> string \<Rightarrow> bool) \<Rightarrow> resolverSys \<Rightarrow> resolverSys \<Rightarrow> bool" for ok where
  lookup_hit: "lookupNamespaceCache key st = (Some existing, st') \<Longrightarrow>
    resolver_step ok \<lparr>syState = st, syCalls = calls\<rparr> \<lparr>syState = st', syCalls = calls\<rparr>"
| lookup_miss: "lookupNamespaceCache key st = (None, st') \<Longrightarrow> key = namespaceCacheKey rs cluster profile \<Longrightarrow>
    ok rs cluster \<Longrightarrow> resolver_step ok \<lparr>syState = st, syCalls = calls\<rparr> \<lparr>syState = st', syCalls = LookedUp key rs cluster # calls\<rparr>"
| client_failed:
    "resolver_step ok \<lparr>syState = st, syCalls = xs @ LookedUp key rs cluster # ys\<rparr> \<lparr>syState = st, syCalls = xs @ ys\<rparr>"
| build: "newNamespaceCache rs cluster st = (c, st') \<Longrightarrow>
    resolver_step ok \<lparr>syState = st, syCalls = xs @ LookedUp key rs cluster # ys\<rparr>
      \<lparr>syState = st', syCalls = xs @ Built key rs cluster c # ys\<rparr>"
| insert_lost: "insertNamespaceCache key rs cluster c st = (Some existing, st') \<Longrightarrow>
    resolver_step ok \<lparr>syState = st, syCalls = xs @ Built key rs cluster c # ys\<rparr> \<lparr>syState = st', syCalls = xs @ ys\<rparr>"
| insert_won: "insertNamespaceCache key rs cluster c st = (None, st') \<Longrightarrow>
    resolver_step ok \<lparr>syState = st, syCalls = xs @ Built key rs cluster c # ys\<rparr>
      \<lparr>syState = st', syCalls = xs @ Inserted c # ys\<rparr>"
| run: "resolver_step ok \<lparr>syState = st, syCalls = xs @ Inserted c # ys\<rparr> \<lparr>syState = runInformer c st, syCalls = xs @ ys\<rparr>"
| janitor: "resolver_step ok \<lparr>syState = st, syCalls = calls\<rparr> \<lparr>syState = StopNamespaceCaches rs keep st, syCalls = calls\<rparr>"
| start: "resolver_step ok \<lparr>syState = st, syCalls = calls\<rparr>
      \<lparr>syState = (startResolver (nrNext st) st)\<lparr>nrNext := nrNext st + 1\<rparr>, syCalls = calls\<rparr>"
| cancelled: "nrParent st = Some p \<Longrightarrow>
    resolver_step ok \<lparr>syState = st, syCalls = calls\<rparr>
      \<lparr>syState = st\<lparr>nrCancelled := finsert p (nrCancelled st)\<rparr>, syCalls = calls\<rparr>"
| shutdown: "nrParent st = Some p \<Longrightarrow> p |\<in>| nrCancelled st \<Longrightarrow>
    resolver_step ok \<lparr>syState = st, syCalls = calls\<rparr> \<lparr>syState = shutdownResolver st, syCalls = calls\<rparr>"
| event: "c |\<in>| nrStarted st \<Longrightarrow>
    resolver_step ok \<lparr>syState = st, syCalls = calls\<rparr>
      \<lparr>syState = enqueueNamespaceEvent (rcSetNS c, rcSetName c) st, syCalls = calls\<rparr>"
| subscribe: "resolver_step ok \<lparr>syState = st, syCalls = calls\<rparr> \<lparr>syState = NamespaceEvents st, syCalls = calls\<rparr>"
| receive: "nrEvents st = Some (k # ks) \<Longrightarrow>
    resolver_step ok \<lparr>syState = st, syCalls = calls\<rparr> \<lparr>syState = st\<lparr>nrEvents := Some ks\<rparr>, syCalls = calls\<rparr>"

inductive resolver_reachable :: "(replicaSet \<Rightarrow> string \<Rightarrow> bool) \<Rightarrow> resolverSys \<Rightarrow> bool" for ok where
  init: "resolver_reachable ok \<lparr>syState = resolver_zero, syCalls = []\<rparr>"
| step: "resolver_reachable ok s \<Longrightarrow> resolver_step ok s s' \<Longrightarrow> resolver_reachable ok s'"

section \<open>The invariant\<close>

text \<open>Two caches for one cluster of one set.\<close>

definition sameTarget :: "remoteNamespaceCache \<Rightarrow> remoteNamespaceCache \<Rightarrow> bool" where
  "sameTarget c d \<longleftrightarrow> rcSetUID c = rcSetUID d \<and> rcSetNS c = rcSetNS d \<and> rcSetName c = rcSetName d \<and> rcCluster c = rcCluster d"

definition cached :: "resolverState \<Rightarrow> remoteNamespaceCache \<Rightarrow> bool" where
  "cached st c \<longleftrightarrow> (\<exists>k. fmlookup (nrCaches st) k = Some c)"

definition builtCaches :: "inFlight list \<Rightarrow> remoteNamespaceCache list" where
  "builtCaches calls = concat (map (\<lambda>x. case x of Built key rs cluster c \<Rightarrow> [c] | _ \<Rightarrow> []) calls)"

definition alive :: "resolverSys \<Rightarrow> remoteNamespaceCache \<Rightarrow> bool" where
  "alive s c \<longleftrightarrow> cached (syState s) c \<or> c \<in> set (builtCaches (syCalls s))"

definition launched :: "resolverSys \<Rightarrow> remoteNamespaceCache \<Rightarrow> bool" where
  "launched s c \<longleftrightarrow> c |\<in>| nrStarted (syState s) \<or> Inserted c \<in> set (syCalls s)"

definition targetsUnique :: "resolverState \<Rightarrow> bool" where
  "targetsUnique st \<longleftrightarrow> (\<forall>k k' c c'. fmlookup (nrCaches st) k = Some c \<longrightarrow> fmlookup (nrCaches st) k' = Some c' \<longrightarrow>
     sameTarget c c' \<longrightarrow> k = k')"

text \<open>
  Caches in the map or in flight are not stopped and have contexts of their own; an informer that was or
  will be started belongs to the map or is stopped.
\<close>

definition contextsOwned :: "resolverSys \<Rightarrow> bool" where
  "contextsOwned s \<longleftrightarrow>
     (\<forall>k k' c. fmlookup (nrCaches (syState s)) k = Some c \<longrightarrow> fmlookup (nrCaches (syState s)) k' = Some c \<longrightarrow> k = k') \<and>
     (\<forall>c. cached (syState s) c \<longrightarrow> c \<notin> set (builtCaches (syCalls s))) \<and> distinct (builtCaches (syCalls s)) \<and>
     (\<forall>c. alive s c \<longrightarrow> rcContext c |\<notin>| nrCancelled (syState s)) \<and>
     (\<forall>c. alive s c \<longrightarrow> rcContext c < nrNext (syState s) \<and> nrParent (syState s) \<noteq> Some (rcContext c)) \<and>
     (\<forall>c d. alive s c \<longrightarrow> alive s d \<longrightarrow> rcContext c = rcContext d \<longrightarrow> c = d) \<and>
     (\<forall>c. launched s c \<longrightarrow> cached (syState s) c \<or> rcContext c |\<in>| nrCancelled (syState s))"

definition contextsFresh :: "resolverState \<Rightarrow> bool" where
  "contextsFresh st \<longleftrightarrow> (\<forall>x. x |\<in>| nrCancelled st \<longrightarrow> x < nrNext st) \<and> (\<forall>x. nrParent st = Some x \<longrightarrow> x < nrNext st)"

lemma builtCaches_simps [simp]:
  "builtCaches [] = []" "builtCaches (xs @ ys) = builtCaches xs @ builtCaches ys"
  "builtCaches (LookedUp key rs cluster # calls) = builtCaches calls"
  "builtCaches (Built key rs cluster c # calls) = c # builtCaches calls"
  "builtCaches (Inserted c # calls) = builtCaches calls"
  by (simp_all add: builtCaches_def)

lemma ensureEventChannelLocked_simps [simp]:
  "nrCaches (ensureEventChannelLocked st) = nrCaches st" "nrParent (ensureEventChannelLocked st) = nrParent st"
  "nrNext (ensureEventChannelLocked st) = nrNext st" "nrCancelled (ensureEventChannelLocked st) = nrCancelled st"
  "nrStarted (ensureEventChannelLocked st) = nrStarted st"
  by (simp_all add: ensureEventChannelLocked_def split: option.split)

lemma cached_stopWhere: "cached (stopWhere p st) c \<Longrightarrow> cached st c"
  by (auto simp: cached_def stopWhere_lookup)

lemma alive_stopWhere: "alive \<lparr>syState = stopWhere p st, syCalls = calls\<rparr> c \<Longrightarrow> alive \<lparr>syState = st, syCalls = calls\<rparr> c"
  by (auto simp: alive_def dest: cached_stopWhere)

lemma contextsOwnedI:
  assumes "\<And>k k' c. fmlookup (nrCaches (syState s)) k = Some c \<Longrightarrow> fmlookup (nrCaches (syState s)) k' = Some c \<Longrightarrow> k = k'"
    and "\<And>c. cached (syState s) c \<Longrightarrow> c \<notin> set (builtCaches (syCalls s))" "distinct (builtCaches (syCalls s))"
    and "\<And>c. alive s c \<Longrightarrow> rcContext c |\<notin>| nrCancelled (syState s)"
    and "\<And>c. alive s c \<Longrightarrow> rcContext c < nrNext (syState s)"
    and "\<And>c. alive s c \<Longrightarrow> nrParent (syState s) \<noteq> Some (rcContext c)"
    and "\<And>c d. alive s c \<Longrightarrow> alive s d \<Longrightarrow> rcContext c = rcContext d \<Longrightarrow> c = d"
    and "\<And>c. launched s c \<Longrightarrow> cached (syState s) c \<or> rcContext c |\<in>| nrCancelled (syState s)"
  shows "contextsOwned s"
  unfolding contextsOwned_def by (intro conjI allI impI) (rule assms; assumption)+

lemma contextsOwnedD:
  assumes "contextsOwned s"
  shows "fmlookup (nrCaches (syState s)) k = Some c \<Longrightarrow> fmlookup (nrCaches (syState s)) k' = Some c \<Longrightarrow> k = k'"
    and "cached (syState s) c \<Longrightarrow> c \<notin> set (builtCaches (syCalls s))" and "distinct (builtCaches (syCalls s))"
    and "alive s c \<Longrightarrow> rcContext c |\<notin>| nrCancelled (syState s)"
    and "alive s c \<Longrightarrow> rcContext c < nrNext (syState s)"
    and "alive s c \<Longrightarrow> nrParent (syState s) \<noteq> Some (rcContext c)"
    and "alive s c \<Longrightarrow> alive s d \<Longrightarrow> rcContext c = rcContext d \<Longrightarrow> c = d"
    and "launched s c \<Longrightarrow> cached (syState s) c \<or> rcContext c |\<in>| nrCancelled (syState s)"
  using assms unfolding contextsOwned_def by blast+

lemma contextsOwned_stopWhere:
  assumes inv: "contextsOwned \<lparr>syState = st, syCalls = calls\<rparr>"
  shows "contextsOwned \<lparr>syState = stopWhere p st, syCalls = calls\<rparr>"
proof -
  let ?s = "\<lparr>syState = st, syCalls = calls\<rparr>" and ?s' = "\<lparr>syState = stopWhere p st, syCalls = calls\<rparr>"
  have kept: "rcContext c |\<notin>| nrCancelled (stopWhere p st)" if c: "alive ?s' c" for c
  proof
    assume "rcContext c |\<in>| nrCancelled (stopWhere p st)"
    moreover have "rcContext c |\<notin>| nrCancelled st" using inv alive_stopWhere [OF c] by (simp add: contextsOwned_def)
    ultimately obtain k d where d: "fmlookup (nrCaches st) k = Some d" "p k d" "rcContext d = rcContext c"
      by (auto simp: stopWhere_cancelled)
    then have "alive ?s d" by (auto simp: alive_def cached_def)
    then have "d = c" using inv alive_stopWhere [OF c] d(3) unfolding contextsOwned_def by blast
    with c d inv show False by (auto simp: alive_def cached_def contextsOwned_def stopWhere_lookup)
  qed
  have moved: "cached (stopWhere p st) c \<or> rcContext c |\<in>| nrCancelled (stopWhere p st)"
    if "cached st c \<or> rcContext c |\<in>| nrCancelled st" for c
    using that by (auto simp: cached_def stopWhere_lookup stopWhere_cancelled)
  note D = contextsOwnedD [OF inv, simplified]
  show ?thesis
  proof (rule contextsOwnedI)
    fix c d
    show "launched ?s' c \<Longrightarrow> cached (syState ?s') c \<or> rcContext c |\<in>| nrCancelled (syState ?s')"
      using D(8) [of c] moved [of c] by (simp add: launched_def)
    show "alive ?s' c \<Longrightarrow> rcContext c |\<notin>| nrCancelled (syState ?s')" using kept by simp
    show "alive ?s' c \<Longrightarrow> alive ?s' d \<Longrightarrow> rcContext c = rcContext d \<Longrightarrow> c = d"
      using D(7) [of c d] alive_stopWhere by blast
    show "alive ?s' c \<Longrightarrow> rcContext c < nrNext (syState ?s')" "alive ?s' c \<Longrightarrow> nrParent (syState ?s') \<noteq> Some (rcContext c)"
      using D(5,6) [of c] alive_stopWhere by simp_all
    show "cached (syState ?s') c \<Longrightarrow> c \<notin> set (builtCaches (syCalls ?s'))"
      using D(2) [of c] cached_stopWhere by simp
  qed (use D(1,3) in \<open>auto simp: stopWhere_lookup\<close>)
qed

lemma contextsOwned_add:
  assumes inv: "contextsOwned \<lparr>syState = st, syCalls = xs @ Built key rs cluster c # ys\<rparr>"
    and key: "fmlookup (nrCaches st) key = None"
  shows "contextsOwned \<lparr>syState = st\<lparr>nrCaches := fmupd key c (nrCaches st)\<rparr>, syCalls = xs @ Inserted c # ys\<rparr>"
proof -
  let ?st' = "st\<lparr>nrCaches := fmupd key c (nrCaches st)\<rparr>"
  let ?s = "\<lparr>syState = st, syCalls = xs @ Built key rs cluster c # ys\<rparr>" and ?s' = "\<lparr>syState = ?st', syCalls = xs @ Inserted c # ys\<rparr>"
  note D = contextsOwnedD [OF inv, simplified]
  have new: "\<not> cached st c" using D(2) [of c] by blast
  have cached: "cached ?st' d \<longleftrightarrow> d = c \<or> cached st d" for d
    unfolding cached_def using key by (auto split: if_splits) (metis option.distinct(1))
  then have alive: "alive ?s' d = alive ?s d" for d by (auto simp: alive_def)
  show ?thesis
  proof (rule contextsOwnedI)
    fix k k' d
    assume "fmlookup (nrCaches (syState ?s')) k = Some d" "fmlookup (nrCaches (syState ?s')) k' = Some d"
    then show "k = k'" using new D(1) [of k d k'] by (auto simp: cached_def split: if_splits)
  next
    fix d
    assume "launched ?s' d"
    then show "cached (syState ?s') d \<or> rcContext d |\<in>| nrCancelled (syState ?s')"
      using D(8) [of d] by (auto simp: launched_def cached)
  next
    fix d
    assume "cached (syState ?s') d"
    then show "d \<notin> set (builtCaches (syCalls ?s'))" using D(2) [of d] D(3) by (auto simp: cached)
  qed (use D in \<open>auto simp: alive\<close>)
qed

lemma contextsOwned_stop:
  assumes inv: "contextsOwned \<lparr>syState = st, syCalls = xs @ Built key rs cluster c # ys\<rparr>"
  shows "contextsOwned \<lparr>syState = stop c st, syCalls = xs @ ys\<rparr>"
proof -
  let ?s = "\<lparr>syState = st, syCalls = xs @ Built key rs cluster c # ys\<rparr>" and ?s' = "\<lparr>syState = stop c st, syCalls = xs @ ys\<rparr>"
  note D = contextsOwnedD [OF inv, simplified]
  have cached: "cached (stop c st) = cached st" by (simp add: cached_def fun_eq_iff)
  have c: "alive ?s c" by (simp add: alive_def)
  have alive: "alive ?s d \<and> rcContext d \<noteq> rcContext c" if "alive ?s' d" for d
  proof -
    have "alive ?s d" "d \<noteq> c" using that D(2) [of c] D(3) by (auto simp: alive_def cached)
    with D(7) [OF _ c] show ?thesis by blast
  qed
  show ?thesis
  proof (rule contextsOwnedI)
    fix d
    assume "launched ?s' d"
    then show "cached (syState ?s') d \<or> rcContext d |\<in>| nrCancelled (syState ?s')"
      using D(8) [of d] by (auto simp: launched_def cached)
  qed (use D alive in \<open>auto simp: cached\<close>)
qed

lemma contextsOwned_build:
  assumes inv: "contextsOwned \<lparr>syState = st, syCalls = xs @ LookedUp key rs cluster # ys\<rparr>" and fresh: "contextsFresh st"
    and new: "newNamespaceCache rs cluster st = (c, st')"
  shows "contextsOwned \<lparr>syState = st', syCalls = xs @ Built key rs cluster c # ys\<rparr>"
proof -
  let ?s = "\<lparr>syState = st, syCalls = xs @ LookedUp key rs cluster # ys\<rparr>" and ?s' = "\<lparr>syState = st', syCalls = xs @ Built key rs cluster c # ys\<rparr>"
  note D = contextsOwnedD [OF inv, simplified]
  have c: "rcContext c = nrNext st" and st': "nrCaches st' = nrCaches st" "nrCancelled st' = nrCancelled st"
      "nrParent st' = nrParent st" "nrStarted st' = nrStarted st" "nrNext st' = Suc (nrNext st)"
    using new by (auto simp: newNamespaceCache_def)
  have dead: "\<not> alive ?s c" using D(5) [of c] c by auto
  have cached: "cached st' = cached st" by (simp add: cached_def fun_eq_iff st')
  have alive: "alive ?s' d \<longleftrightarrow> d = c \<or> alive ?s d" for d by (auto simp: alive_def cached)
  have other: "rcContext d \<noteq> nrNext st" if "alive ?s d" for d using D(5) [OF that] by simp
  show ?thesis
  proof (rule contextsOwnedI)
    show "distinct (builtCaches (syCalls ?s'))" using D(3) dead by (auto simp: alive_def)
    fix d e
    show "cached (syState ?s') d \<Longrightarrow> d \<notin> set (builtCaches (syCalls ?s'))"
      using D(2) [of d] dead by (auto simp: alive_def cached)
    show "alive ?s' d \<Longrightarrow> rcContext d |\<notin>| nrCancelled (syState ?s')" "alive ?s' d \<Longrightarrow> nrParent (syState ?s') \<noteq> Some (rcContext d)"
      using D(4,6) [of d] fresh by (auto simp: alive c st' contextsFresh_def)
    show "alive ?s' d \<Longrightarrow> rcContext d < nrNext (syState ?s')" using D(5) [of d] by (auto simp: alive c st')
    show "alive ?s' d \<Longrightarrow> alive ?s' e \<Longrightarrow> rcContext d = rcContext e \<Longrightarrow> d = e"
      unfolding alive using D(7) [of d e] other [of d] other [of e] c by metis
    show "launched ?s' d \<Longrightarrow> cached (syState ?s') d \<or> rcContext d |\<in>| nrCancelled (syState ?s')"
      using D(8) [of d] by (auto simp: launched_def cached st')
  qed (use D(1) in \<open>auto simp: st'\<close>)
qed

lemma contextsOwned_same:
  assumes inv: "contextsOwned s" and same: "nrCaches (syState s') = nrCaches (syState s)" "nrParent (syState s') = nrParent (syState s)"
      "nrNext (syState s') = nrNext (syState s)" "nrCancelled (syState s') = nrCancelled (syState s)"
      "builtCaches (syCalls s') = builtCaches (syCalls s)" and launched: "\<And>c. launched s' c \<Longrightarrow> launched s c"
  shows "contextsOwned s'"
proof -
  have cached: "cached (syState s') = cached (syState s)" by (simp add: cached_def fun_eq_iff same)
  then have alive: "alive s' = alive s" by (simp add: alive_def fun_eq_iff same)
  show ?thesis
    using inv launched unfolding contextsOwned_def same cached alive by blast
qed

text \<open>The contexts of the map and of the calls, after the manager's context changed.\<close>

lemma contextsOwned_parent:
  assumes inv: "contextsOwned \<lparr>syState = st, syCalls = calls\<rparr>"
  shows "contextsOwned \<lparr>syState = st\<lparr>nrParent := Some (nrNext st), nrNext := Suc (nrNext st)\<rparr>, syCalls = calls\<rparr>"
    and "nrParent st = Some p \<Longrightarrow> contextsOwned \<lparr>syState = st\<lparr>nrCancelled := finsert p (nrCancelled st)\<rparr>, syCalls = calls\<rparr>"
proof -
  let ?s = "\<lparr>syState = st, syCalls = calls\<rparr>"
  note D = contextsOwnedD [OF inv, simplified]
  have alive: "alive \<lparr>syState = st\<lparr>nrParent := Some (nrNext st), nrNext := Suc (nrNext st)\<rparr>, syCalls = calls\<rparr> = alive ?s"
    "alive \<lparr>syState = st\<lparr>nrCancelled := X\<rparr>, syCalls = calls\<rparr> = alive ?s" for X
    by (auto simp: alive_def cached_def fun_eq_iff)
  have cached: "cached (st\<lparr>nrParent := Some (nrNext st), nrNext := Suc (nrNext st)\<rparr>) = cached st"
    "cached (st\<lparr>nrCancelled := X\<rparr>) = cached st" for X by (simp_all add: cached_def fun_eq_iff)
  show "contextsOwned \<lparr>syState = st\<lparr>nrParent := Some (nrNext st), nrNext := Suc (nrNext st)\<rparr>, syCalls = calls\<rparr>"
  proof (rule contextsOwnedI, unfold alive)
    fix c
    assume "alive ?s c"
    from D(5) [OF this] show "rcContext c < nrNext (syState \<lparr>syState = st\<lparr>nrParent := Some (nrNext st), nrNext := Suc (nrNext st)\<rparr>, syCalls = calls\<rparr>)"
      "nrParent (syState \<lparr>syState = st\<lparr>nrParent := Some (nrNext st), nrNext := Suc (nrNext st)\<rparr>, syCalls = calls\<rparr>) \<noteq> Some (rcContext c)"
      by simp_all
  qed (use D in \<open>auto simp: cached launched_def\<close>)
  assume p: "nrParent st = Some p"
  show "contextsOwned \<lparr>syState = st\<lparr>nrCancelled := finsert p (nrCancelled st)\<rparr>, syCalls = calls\<rparr>"
  proof (rule contextsOwnedI, unfold alive)
    let ?s' = "\<lparr>syState = st\<lparr>nrCancelled := finsert p (nrCancelled st)\<rparr>, syCalls = calls\<rparr>"
    fix c
    show "alive ?s c \<Longrightarrow> rcContext c |\<notin>| nrCancelled (syState ?s')" using D(4,6) [of c] p by auto
    show "launched ?s' c \<Longrightarrow> cached (syState ?s') c \<or> rcContext c |\<in>| nrCancelled (syState ?s')"
      using D(8) [of c] by (auto simp: cached launched_def)
  qed (use D in \<open>auto simp: cached\<close>)
qed

lemma contextsFresh_stopWhere:
  assumes "contextsOwned \<lparr>syState = st, syCalls = calls\<rparr>" "contextsFresh st"
  shows "contextsFresh (stopWhere p st)"
proof -
  have "rcContext c < nrNext st" if "fmlookup (nrCaches st) k = Some c" for k c
    using contextsOwnedD(5) [OF assms(1), of c] that by (auto simp: alive_def cached_def)
  with assms(2) show ?thesis by (auto simp: contextsFresh_def stopWhere_cancelled)
qed

definition resolver_inv :: "resolverSys \<Rightarrow> bool" where
  "resolver_inv s \<longleftrightarrow> contextsOwned s \<and> contextsFresh (syState s) \<and> targetsUnique (syState s) \<and>
     (\<forall>events. nrEvents (syState s) = Some events \<longrightarrow> length events \<le> eventCapacity) \<and>
     (\<forall>key rs cluster c. Built key rs cluster c \<in> set (syCalls s) \<longrightarrow> cacheOfSet rs c \<and> rcCluster c = cluster)"


lemma targetsUnique_insert:
  assumes "targetsUnique st" "fmlookup (nrCaches st) key = None" "cacheOfSet rs c" "rcCluster c = cluster"
    and "insertNamespaceCache key rs cluster c st = (None, st')"
  shows "targetsUnique st'"
proof -
  have "\<not> sameTarget c d \<and> \<not> sameTarget d c" if "fmlookup (nrCaches st') k = Some d" "k \<noteq> key" for k d
    using that assms by (auto simp: insertNamespaceCache_def stopWhere_lookup cacheOfSet_def sameTarget_def)
  moreover have "fmlookup (nrCaches st') k = Some d \<Longrightarrow> k = key \<and> d = c \<or> fmlookup (nrCaches st) k = Some d" for k d
    using assms(2,5) by (auto simp: insertNamespaceCache_def stopWhere_lookup split: if_splits)
  ultimately show ?thesis using assms(1) unfolding targetsUnique_def by metis
qed

lemma targetsUnique_stopWhere: "targetsUnique st \<Longrightarrow> targetsUnique (stopWhere p st)"
  unfolding targetsUnique_def stopWhere_lookup by blast

lemma resolver_inv_stopWhere:
  "resolver_inv \<lparr>syState = st, syCalls = calls\<rparr> \<Longrightarrow> resolver_inv \<lparr>syState = stopWhere p st, syCalls = calls\<rparr>"
  by (auto simp: resolver_inv_def intro: contextsOwned_stopWhere contextsFresh_stopWhere targetsUnique_stopWhere)

lemma resolver_inv_init: "resolver_inv \<lparr>syState = resolver_zero, syCalls = []\<rparr>"
  by (auto simp: resolver_inv_def resolver_zero_def contextsFresh_def targetsUnique_def alive_def cached_def launched_def
      intro!: contextsOwnedI)

text \<open>A step that leaves map and contexts alone.\<close>

lemma resolver_inv_same:
  assumes "resolver_inv s" "nrCaches (syState s') = nrCaches (syState s)" "nrParent (syState s') = nrParent (syState s)"
      "nrNext (syState s') = nrNext (syState s)" "nrCancelled (syState s') = nrCancelled (syState s)"
      "builtCaches (syCalls s') = builtCaches (syCalls s)" "\<And>c. launched s' c \<Longrightarrow> launched s c"
      "\<And>events. nrEvents (syState s') = Some events \<Longrightarrow> length events \<le> eventCapacity"
      "\<And>key rs cluster c. Built key rs cluster c \<in> set (syCalls s') \<Longrightarrow> Built key rs cluster c \<in> set (syCalls s)"
  shows "resolver_inv s'"
  unfolding resolver_inv_def
proof (intro conjI)
  show "contextsOwned s'" using assms by (intro contextsOwned_same [of s s']) (simp_all add: resolver_inv_def)
  show "contextsFresh (syState s')" "targetsUnique (syState s')"
    using assms(1-5) by (simp_all add: resolver_inv_def contextsFresh_def targetsUnique_def)
qed (use assms(1,8,9) in \<open>unfold resolver_inv_def, blast+\<close>)

text \<open>A built cache is stopped when another call won the race, and otherwise enters the map.\<close>

lemma resolver_inv_insert_lost:
  assumes "insertNamespaceCache key rs cluster c st = (Some existing, st')"
    and "resolver_inv \<lparr>syState = st, syCalls = xs @ Built key rs cluster c # ys\<rparr>"
  shows "resolver_inv \<lparr>syState = st', syCalls = xs @ ys\<rparr>"
proof -
  have st': "st' = stop c st" using assms(1) by (auto simp: insertNamespaceCache_def split: option.splits)
  have "rcContext c < nrNext st"
    using assms(2) contextsOwnedD(5) [of _ c] by (fastforce simp: resolver_inv_def alive_def)
  with assms(2) show ?thesis
    unfolding resolver_inv_def st'
    by (auto intro!: contextsOwned_stop simp: contextsFresh_def targetsUnique_def)
qed

lemma resolver_inv_insert_won:
  assumes "insertNamespaceCache key rs cluster c st = (None, st')"
    and "resolver_inv \<lparr>syState = st, syCalls = xs @ Built key rs cluster c # ys\<rparr>"
  shows "resolver_inv \<lparr>syState = st', syCalls = xs @ Inserted c # ys\<rparr>"
proof -
  have key: "fmlookup (nrCaches st) key = None" using assms(1) by (auto simp: insertNamespaceCache_def split: option.splits)
  then obtain p where st': "st' = stopWhere p (st\<lparr>nrCaches := fmupd key c (nrCaches st)\<rparr>)"
    using assms(1) by (auto simp: insertNamespaceCache_def)
  note inv = assms(2) [unfolded resolver_inv_def]
  have add: "contextsOwned \<lparr>syState = st\<lparr>nrCaches := fmupd key c (nrCaches st)\<rparr>, syCalls = xs @ Inserted c # ys\<rparr>"
    by (rule contextsOwned_add [OF conjunct1 [OF inv] key])
  have "Built key rs cluster c \<in> set (syCalls \<lparr>syState = st, syCalls = xs @ Built key rs cluster c # ys\<rparr>)" by simp
  with inv have "cacheOfSet rs c" "rcCluster c = cluster" by blast+
  moreover have "targetsUnique st" using inv by auto
  ultimately have "targetsUnique st'" by (intro targetsUnique_insert [OF _ key _ _ assms(1)])
  moreover have "contextsOwned \<lparr>syState = st', syCalls = xs @ Inserted c # ys\<rparr>"
    unfolding st' by (rule contextsOwned_stopWhere [OF add])
  moreover have "contextsFresh st'"
    unfolding st' by (rule contextsFresh_stopWhere [OF add]) (use inv in \<open>simp add: contextsFresh_def\<close>)
  moreover have "nrEvents st' = nrEvents st" by (simp add: st')
  ultimately show ?thesis using inv by (simp add: resolver_inv_def)
qed

lemma resolver_inv_step:
  assumes "resolver_step ok s s'" "resolver_inv s"
  shows "resolver_inv s'"
  using assms
proof (induction rule: resolver_step.induct)
  case (lookup_hit key st existing st' calls)
  then show ?case by (auto simp: lookupNamespaceCache_def split: option.splits)
next
  case (lookup_miss key st st' rs cluster profile calls)
  then show ?case
    by (intro resolver_inv_same [OF lookup_miss(4)])
      (auto simp: lookupNamespaceCache_def launched_def ensureEventChannelLocked_def resolver_inv_def split: option.splits)
next
  case (client_failed st xs key rs cluster ys)
  then show ?case by (intro resolver_inv_same [OF client_failed]) (auto simp: launched_def resolver_inv_def)
next
  case (build rs cluster st c st' xs key ys)
  then show ?case
    unfolding resolver_inv_def
    by (auto intro!: contextsOwned_build simp: newNamespaceCache_def contextsFresh_def targetsUnique_def cacheOfSet_def)
next
  case (insert_lost key rs cluster c st existing st' xs ys)
  then show ?case by (rule resolver_inv_insert_lost)
next
  case (insert_won key rs cluster c st st' xs ys)
  then show ?case by (rule resolver_inv_insert_won)
next
  case (run st xs c ys)
  then show ?case by (intro resolver_inv_same [OF run]) (auto simp: launched_def runInformer_def resolver_inv_def)
next
  case (janitor st calls rs keep)
  then show ?case unfolding StopNamespaceCaches_def by (rule resolver_inv_stopWhere)
next
  case (start st calls)
  then show ?case
    using contextsOwned_parent(1) [of st calls]
    by (auto simp: resolver_inv_def startResolver_def contextsFresh_def targetsUnique_def)
next
  case (cancelled st p calls)
  then show ?case
    using contextsOwned_parent(2) [of st calls p] by (auto simp: resolver_inv_def contextsFresh_def targetsUnique_def)
next
  case (shutdown st p calls)
  then show ?case unfolding shutdownResolver_def by (intro resolver_inv_stopWhere)
next
  case (event c st calls)
  then show ?case
    by (intro resolver_inv_same [OF event(2)]) (auto simp: enqueueNamespaceEvent_def launched_def resolver_inv_def split: option.splits if_splits)
next
  case (subscribe st calls)
  then show ?case
    by (intro resolver_inv_same [OF subscribe]) (auto simp: NamespaceEvents_def ensureEventChannelLocked_def launched_def resolver_inv_def split: option.splits)
next
  case (receive st k ks calls)
  then show ?case by (intro resolver_inv_same [OF receive(2)]) (auto simp: launched_def resolver_inv_def)
qed

lemma resolver_reachable_inv: "resolver_reachable ok s \<Longrightarrow> resolver_inv s"
  by (induction rule: resolver_reachable.induct) (auto intro: resolver_inv_init resolver_inv_step)


section \<open>Keys\<close>

text \<open>Every entry of the map is under a key of its own set and cluster.\<close>

definition keyFor :: "string \<Rightarrow> replicaSet \<Rightarrow> string \<Rightarrow> bool" where
  "keyFor key rs cluster \<longleftrightarrow> slashFree rs cluster \<and> (\<exists>profile. key = namespaceCacheKey rs cluster profile)"

definition keysRight :: "resolverSys \<Rightarrow> bool" where
  "keysRight s \<longleftrightarrow>
     (\<forall>key c. fmlookup (nrCaches (syState s)) key = Some c \<longrightarrow> (\<exists>rs. keyFor key rs (rcCluster c) \<and> cacheOfSet rs c)) \<and>
     (\<forall>x \<in> set (syCalls s). case x of
        LookedUp key rs cluster \<Rightarrow> keyFor key rs cluster
      | Built key rs cluster c \<Rightarrow> keyFor key rs cluster \<and> cacheOfSet rs c \<and> rcCluster c = cluster
      | Inserted c \<Rightarrow> True)"

lemma keysRight_same:
  "keysRight s \<Longrightarrow> nrCaches (syState s') = nrCaches (syState s) \<Longrightarrow> set (syCalls s') \<subseteq> set (syCalls s) \<Longrightarrow> keysRight s'"
  unfolding keysRight_def by auto

lemma keysRight_stopWhere:
  "keysRight \<lparr>syState = st, syCalls = calls\<rparr> \<Longrightarrow> keysRight \<lparr>syState = stopWhere p st, syCalls = calls\<rparr>"
  unfolding keysRight_def by (auto simp: stopWhere_lookup)

lemma keysRight_step:
  assumes "resolver_step slashFree s s'" "keysRight s"
  shows "keysRight s'"
  using assms
proof (induction rule: resolver_step.induct)
  case (lookup_hit key st existing st' calls)
  then show ?case by (auto simp: lookupNamespaceCache_def split: option.splits)
next
  case (lookup_miss key st st' rs cluster profile calls)
  then show ?case by (auto simp: lookupNamespaceCache_def keysRight_def keyFor_def split: option.splits)
next
  case (build rs cluster st c st' xs key ys)
  then show ?case by (auto simp: newNamespaceCache_def keysRight_def cacheOfSet_def)
next
  case (insert_lost key rs cluster c st existing st' xs ys)
  then show ?case by (intro keysRight_same [OF insert_lost(2)]) (auto simp: insertNamespaceCache_def split: option.splits)
next
  case (insert_won key rs cluster c st st' xs ys)
  then have "keysRight \<lparr>syState = st\<lparr>nrCaches := fmupd key c (nrCaches st)\<rparr>, syCalls = xs @ Inserted c # ys\<rparr>"
    by (auto simp: keysRight_def)
  with insert_won(1) show ?case by (auto simp: insertNamespaceCache_def intro: keysRight_stopWhere split: option.splits)
next
  case (event c st calls)
  then show ?case by (intro keysRight_same [OF event(2)]) (auto simp: enqueueNamespaceEvent_def split: option.splits)
next
  case (janitor st calls rs keep)
  then show ?case unfolding StopNamespaceCaches_def by (rule keysRight_stopWhere)
next
  case (shutdown st p calls)
  then show ?case unfolding shutdownResolver_def by (intro keysRight_stopWhere)
qed (auto simp: runInformer_def startResolver_def NamespaceEvents_def elim!: keysRight_same)

lemma keysRight_init: "keysRight \<lparr>syState = resolver_zero, syCalls = []\<rparr>"
  by (simp add: keysRight_def resolver_zero_def)

lemma resolver_reachable_keys: "resolver_reachable slashFree s \<Longrightarrow> keysRight s"
  by (induction rule: resolver_reachable.induct) (auto intro: keysRight_init keysRight_step)

lemma split_at:
  "d \<notin> set xs \<Longrightarrow> d \<notin> set ys \<Longrightarrow> xs @ d # us = ys @ d # vs \<Longrightarrow> xs = ys \<and> us = vs"
proof (induction xs arbitrary: ys)
  case Nil
  then show ?case by (cases ys) auto
next
  case (Cons x xs)
  then show ?case by (cases ys) auto
qed

lemma strings_Join_prefix_inj:
  assumes "\<forall>p \<in> set ps \<union> set qs. d \<notin> set p" "length ps = length qs" "us \<noteq> []" "vs \<noteq> []"
    and "strings_Join (ps @ us) [d] = strings_Join (qs @ vs) [d]"
  shows "ps = qs"
  using assms
proof (induction ps arbitrary: qs)
  case (Cons p ps)
  then obtain q qs' where qs: "qs = q # qs'" by (cases qs) auto
  have "p @ d # strings_Join (ps @ us) [d] = q @ d # strings_Join (qs' @ vs) [d]"
    using Cons.prems(3,4,5) qs by (cases "ps @ us"; cases "qs' @ vs") auto
  with Cons.prems(1) qs have "p = q \<and> strings_Join (ps @ us) [d] = strings_Join (qs' @ vs) [d]" by (intro split_at) auto
  with Cons.IH [of qs'] Cons.prems qs show ?case by simp
qed simp

lemma namespaceCacheKey_owner:
  assumes "slashFree rs cluster" "slashFree rs' cluster'"
    and "namespaceCacheKey rs cluster profile = namespaceCacheKey rs' cluster' profile'"
  shows "setUID rs = setUID rs' \<and> setNamespace rs = setNamespace rs' \<and> setName rs = setName rs' \<and> cluster = cluster'"
  using strings_Join_prefix_inj [of "[setUID rs, setNamespace rs, setName rs, cluster]"
      "[setUID rs', setNamespace rs', setName rs', cluster']" "CHR ''/''" "[_, _, _]" "[_, _, _]"] assms
  by (simp add: namespaceCacheKey_def slashFree_def)

lemma keysRight_target:
  assumes "keysRight s" "fmlookup (nrCaches (syState s)) (namespaceCacheKey rs cluster profile) = Some c" "slashFree rs cluster"
  shows "cacheOfSet rs c \<and> rcCluster c = cluster"
proof -
  from assms(1,2) obtain rs' profile' where "cacheOfSet rs' c" "slashFree rs' (rcCluster c)"
    "namespaceCacheKey rs cluster profile = namespaceCacheKey rs' (rcCluster c) profile'"
    unfolding keysRight_def keyFor_def by blast
  with namespaceCacheKey_owner [OF assms(3)] show ?thesis by (fastforce simp: cacheOfSet_def)
qed

section \<open>A call on its own\<close>

text \<open>Without interference, \<^const>\<open>ensureNamespaceCache\<close> is a sequence of the steps above.\<close>

lemma reachable_steps: "(resolver_step ok)\<^sup>*\<^sup>* s s' \<Longrightarrow> resolver_reachable ok s \<Longrightarrow> resolver_reachable ok s'"
  by (induction rule: rtranclp_induct) (auto intro: resolver_reachable.step)

lemma ensureNamespaceCache_steps:
  assumes free: "ok rs cluster" and call: "ensureNamespaceCache E rs cluster profile cfg st = (r, st')"
  shows "(resolver_step ok)\<^sup>*\<^sup>* \<lparr>syState = st, syCalls = calls\<rparr> \<lparr>syState = st', syCalls = calls\<rparr>"
proof (cases "fmlookup (nrCaches st) (namespaceCacheKey rs cluster profile)")
  case (Some existing)
  with call show ?thesis by (simp add: ensureNamespaceCache_def lookupNamespaceCache_def)
next
  case None
  let ?key = "namespaceCacheKey rs cluster profile" and ?st1 = "ensureEventChannelLocked st"
  have looked: "resolver_step ok \<lparr>syState = st, syCalls = calls\<rparr> \<lparr>syState = ?st1, syCalls = LookedUp ?key rs cluster # calls\<rparr>"
    by (rule lookup_miss [where ok = ok, OF _ refl free]) (simp add: lookupNamespaceCache_def None)
  obtain c st2 where new: "newNamespaceCache rs cluster ?st1 = (c, st2)" by (cases "newNamespaceCache rs cluster ?st1") auto
  have miss: "fmlookup (nrCaches st2) ?key = None" using new None by (auto simp: newNamespaceCache_def)
  obtain st3 where ins: "insertNamespaceCache ?key rs cluster c st2 = (None, st3)"
    by (simp add: insertNamespaceCache_def miss)
  show ?thesis
  proof (cases "nvNewForConfig E cfg")
    case (Some err)
    then have "st' = ?st1" using call None by (simp add: ensureNamespaceCache_def lookupNamespaceCache_def)
    with looked client_failed [of ok ?st1 "[]" ?key rs cluster calls] show ?thesis by simp
  next
    case None
    then have "st' = runInformer c st3"
      using call \<open>fmlookup (nrCaches st) ?key = None\<close> new ins by (simp add: ensureNamespaceCache_def lookupNamespaceCache_def)
    with looked build [OF new, of ok "[]" ?key calls] insert_won [OF ins, of ok "[]" calls] run [of ok st3 "[]" c calls]
    show ?thesis by (simp add: rtranclp.rtrancl_into_rtrancl)
  qed
qed

lemma ensureNamespaceCache_result:
  assumes keys: "keysRight \<lparr>syState = st, syCalls = calls\<rparr>" and free: "slashFree rs cluster"
    and call: "ensureNamespaceCache E rs cluster profile cfg st = (Inr c, st')"
  shows "cached st' c \<and> cacheOfSet rs c \<and> rcCluster c = cluster"
proof (cases "fmlookup (nrCaches st) (namespaceCacheKey rs cluster profile)")
  case (Some existing)
  with call have "c = existing" "st' = st" by (auto simp: ensureNamespaceCache_def lookupNamespaceCache_def)
  with Some keysRight_target [OF keys _ free] show ?thesis by (auto simp: cached_def)
next
  case None
  with call have "fmlookup (nrCaches st') (namespaceCacheKey rs cluster profile) = Some c \<and> cacheOfSet rs c \<and> rcCluster c = cluster"
    by (auto simp: ensureNamespaceCache_def lookupNamespaceCache_def newNamespaceCache_def insertNamespaceCache_def
        runInformer_def stopWhere_lookup cacheOfSet_def Let_def split: option.splits)
  then show ?thesis by (auto simp: cached_def)
qed

lemma matchedNamespaces_filter:
  "matchedNamespaces L sel objects =
     map omName (filter (\<lambda>ns. selector_Matches L sel (omLabels ns))
       (concat (map (\<lambda>ob. case ob of NamespaceObject ns \<Rightarrow> [ns] | OtherObject \<Rightarrow> []) objects)))"
proof -
  have "fold (\<lambda>ob matched. case ob of OtherObject \<Rightarrow> matched
     | NamespaceObject ns \<Rightarrow> if selector_Matches L sel (omLabels ns) then matched @ [omName ns] else matched) objects acc =
     acc @ map omName (filter (\<lambda>ns. selector_Matches L sel (omLabels ns))
       (concat (map (\<lambda>ob. case ob of NamespaceObject ns \<Rightarrow> [ns] | OtherObject \<Rightarrow> []) objects)))" for acc
    by (induction objects arbitrary: acc) (auto split: storeObject.split)
  from this [of "[]"] show ?thesis by (simp add: matchedNamespaces_def)
qed

lemma ResolveNamespaceSelector_cases:
  assumes "ResolveNamespaceSelector L E rs cluster sel st = (r, st')"
  obtains (failed) "isl r" "st' = st"
  | (ensured) profile cfg r' where "ensureNamespaceCache E rs cluster profile cfg st = (r', st')"
      "case r of Inl err \<Rightarrow> True
       | Inr names \<Rightarrow> \<exists>c. r' = Inr c \<and> nvWaitForCacheSync E c \<and> names = matchedNamespaces L sel (nvStoreList E c)"
  using assms unfolding ResolveNamespaceSelector_def waitForNamespaceCacheSync_def
  by (auto split: option.splits sum.splits prod.splits if_splits)

section \<open>The contract of the janitor\<close>

text \<open>The caches held, by set and cluster.\<close>

definition heldCaches :: "resolverState \<Rightarrow> (string \<times> key \<times> string) set" where
  "heldCaches st = {(rcSetUID c, (rcSetNS c, rcSetName c), rcCluster c) | c. cached st c}"

locale cache_janitor =
  fixes stop_caches :: "replicaSet \<Rightarrow> strset \<Rightarrow> 's \<Rightarrow> 's" and held :: "'s \<Rightarrow> (string \<times> key \<times> string) set"
  assumes held_stop: "held (stop_caches rs keep s) =
    {h \<in> held s. (fst h, fst (snd h)) \<noteq> (setUID rs, objectKey (setMeta rs)) \<or> snd (snd h) |\<in>| keep}"
begin

lemma held_stop_kept: "(setUID rs, objectKey (setMeta rs), c) \<in> held (stop_caches rs keep s) \<Longrightarrow> c |\<in>| keep"
  by (auto simp: held_stop)

lemma held_stop_other:
  "(setUID rs, objectKey (setMeta rs)) \<noteq> (u, k) \<Longrightarrow> (u, k, c) \<in> held (stop_caches rs keep s) \<longleftrightarrow> (u, k, c) \<in> held s"
  by (auto simp: held_stop)

lemma held_stop_idem: "held (stop_caches rs keep (stop_caches rs keep s)) = held (stop_caches rs keep s)"
  by (auto simp: held_stop)

end

interpretation resolverJanitor: cache_janitor StopNamespaceCaches heldCaches
proof
  fix rs keep st
  show "heldCaches (StopNamespaceCaches rs keep st) =
    {h \<in> heldCaches st. (fst h, fst (snd h)) \<noteq> (setUID rs, objectKey (setMeta rs)) \<or> snd (snd h) |\<in>| keep}"
    by (auto simp: heldCaches_def cached_def StopNamespaceCaches_def stopWhere_lookup cacheOfSet_def)
qed

section \<open>Properties\<close>

definition informerRuns :: "resolverState \<Rightarrow> remoteNamespaceCache \<Rightarrow> bool" where
  "informerRuns st c \<longleftrightarrow> c |\<in>| nrStarted st \<and> \<not> ctxDone st c"

lemma informerRuns_cached:
  assumes "resolver_reachable ok s" "informerRuns (syState s) c"
  shows "cached (syState s) c"
  using contextsOwnedD(8) [of s c] resolver_reachable_inv [OF assms(1)] assms(2)
  by (auto simp: resolver_inv_def informerRuns_def ctxDone_def launched_def)

lemma reachable_informers:
  assumes "resolver_reachable ok s"
  shows "(\<forall>c. informerRuns (syState s) c \<longrightarrow> (\<exists>key. fmlookup (nrCaches (syState s)) key = Some c)) \<and>
    (\<forall>c d. informerRuns (syState s) c \<longrightarrow> informerRuns (syState s) d \<longrightarrow> sameTarget c d \<longrightarrow> c = d)"
proof -
  note inv = resolver_reachable_inv [OF assms]
  have "c = d" if "cached (syState s) c" "cached (syState s) d" "sameTarget c d" for c d
    using that inv by (force simp: resolver_inv_def targetsUnique_def cached_def)
  with informerRuns_cached [OF assms] show ?thesis by (simp add: cached_def)
qed

lemma janitor_informers:
  assumes "resolver_reachable ok \<lparr>syState = st, syCalls = calls\<rparr>"
    and "informerRuns (StopNamespaceCaches rs keep st) c" "cacheOfSet rs c"
  shows "rcCluster c |\<in>| keep"
proof -
  have "resolver_reachable ok \<lparr>syState = StopNamespaceCaches rs keep st, syCalls = calls\<rparr>"
    by (rule resolver_reachable.step [OF assms(1) janitor])
  from informerRuns_cached [OF this] assms(2,3) show ?thesis
    by (auto simp: cached_def StopNamespaceCaches_def stopWhere_lookup)
qed

text \<open>
  C36: No informer leaks. Whatever goroutines interleave calls that create caches, the janitor, start and
  shutdown: in every reachable state each running informer belongs to a cache in the map, at most
  one informer runs for a cluster of a set, and the event channel holds at most 1024 events.
\<close>

theorem resolver_informers_bounded:
  assumes "resolver_reachable ok s"
  shows "(\<forall>c. informerRuns (syState s) c \<longrightarrow> (\<exists>key. fmlookup (nrCaches (syState s)) key = Some c)) \<and>
    (\<forall>c d. informerRuns (syState s) c \<longrightarrow> informerRuns (syState s) d \<longrightarrow> sameTarget c d \<longrightarrow> c = d) \<and>
    (\<forall>events. nrEvents (syState s) = Some events \<longrightarrow> length events \<le> 1024)"
  using reachable_informers [OF assms] resolver_reachable_inv [OF assms] by (simp add: resolver_inv_def eventCapacity_def)

text \<open>One call on a fresh resolver, with everything it needs configured.\<close>

definition sampleProfile :: clusterProfile where
  "sampleProfile = \<lparr>cpMeta = objectMeta_zero\<lparr>omName := ''c1'', omNamespace := ''fleet''\<rparr>,
     cpAccessProviders = [clusterProfileAccessProviderName], cpCredentialProviders = []\<rparr>"

definition sampleResolverEnv :: resolverEnv where
  "sampleResolverEnv = \<lparr>nvLocalClient = Some (\<lambda>_. Inr [sampleProfile]),
     nvAccessConfig = Some \<lparr>acProviders = [\<lparr>apName = clusterProfileAccessProviderName,
       apExecConfig = Some \<lparr>exArgs = [], exEnv = [], exRest = []\<rparr>\<rparr>]\<rparr>,
     nvBuildConfigFromCP = (\<lambda>_ _. Inr ''config''), nvNewForConfig = (\<lambda>_. None),
     nvWaitForCacheSync = (\<lambda>_. True), nvContextErr = None,
     nvStoreList = (\<lambda>_. [NamespaceObject (objectMeta_zero\<lparr>omName := ''apps'', omLabels := fmap_of_list [(''tier'', ''web'')]\<rparr>),
       NamespaceObject (objectMeta_zero\<lparr>omName := ''ops''\<rparr>)])\<rparr>"

definition sampleCache :: remoteNamespaceCache where
  "sampleCache = \<lparr>rcSetUID = ''u1'', rcSetName = ''viewer'', rcSetNS = ''fleet'', rcCluster = ''c1'', rcContext = 0, rcParent = None\<rparr>"

definition sampleResolved :: "(go_error + string list) \<times> resolverState" where
  "sampleResolved = ResolveNamespaceSelector ref_lib sampleResolverEnv sampleSet ''c1''
     (SelectorFromValidatedSet (fmap_of_list [(''tier'', ''web'')])) resolver_zero"

lemma sampleResolved_run:
  "ensureNamespaceCache sampleResolverEnv sampleSet ''c1'' sampleProfile ''config'' resolver_zero = (Inr sampleCache, snd sampleResolved)"
  "fst sampleResolved = Inr [''apps'']" "informerRuns (snd sampleResolved) sampleCache"
proof -
  let ?key = "namespaceCacheKey sampleSet ''c1'' sampleProfile"
  have none: "nvNewForConfig sampleResolverEnv cfg = None" for cfg by (simp add: sampleResolverEnv_def)
  obtain st3 where ens: "ensureNamespaceCache sampleResolverEnv sampleSet ''c1'' sampleProfile ''config'' resolver_zero =
      (Inr sampleCache, runInformer sampleCache st3)" and st3: "nrCancelled st3 = {||}"
  proof
    let ?st = "stopWhere (\<lambda>existingKey c. existingKey \<noteq> ?key \<and> cacheOfSet sampleSet c \<and> rcCluster c = ''c1'')
        (resolver_zero\<lparr>nrEvents := Some [], nrNext := Suc 0, nrCaches := fmupd ?key sampleCache fmempty\<rparr>)"
    show "ensureNamespaceCache sampleResolverEnv sampleSet ''c1'' sampleProfile ''config'' resolver_zero =
      (Inr sampleCache, runInformer sampleCache ?st)"
      by (simp add: ensureNamespaceCache_def lookupNamespaceCache_def resolver_zero_def ensureEventChannelLocked_def none
          newNamespaceCache_def insertNamespaceCache_def cacheParentContext_def sampleCache_def Let_def)
    have "x |\<notin>| nrCancelled ?st" for x by (simp add: stopWhere_cancelled resolver_zero_def)
    then show "nrCancelled ?st = {||}" by blast
  qed
  have resolved: "sampleResolved = (Inr [''apps''], runInformer sampleCache st3)"
    using ens by (simp add: sampleResolved_def ResolveNamespaceSelector_def sampleResolverEnv_def clusterProfileForOCMCluster_def
        accessConfigForManagedServiceAccount_def waitForNamespaceCacheSync_def matchedNamespaces_def ref_lib_def ref_matches_def objectMeta_zero_def)
  show "ensureNamespaceCache sampleResolverEnv sampleSet ''c1'' sampleProfile ''config'' resolver_zero = (Inr sampleCache, snd sampleResolved)"
    "fst sampleResolved = Inr [''apps'']"
    unfolding resolved ens by simp_all
  show "informerRuns (snd sampleResolved) sampleCache"
    by (simp add: resolved informerRuns_def runInformer_def ctxDone_def st3 sampleCache_def)
qed

lemma sampleSet_slashFree: "slashFree sampleSet ''c1''"
  by (simp add: slashFree_def)

lemma sampleResolved_reachable: "resolver_reachable slashFree \<lparr>syState = snd sampleResolved, syCalls = []\<rparr>"
  by (rule reachable_steps [OF ensureNamespaceCache_steps [where ok = slashFree, OF sampleSet_slashFree sampleResolved_run(1)] resolver_reachable.init])

theorem resolver_informers_bounded_witness:
  "informerRuns (snd sampleResolved) sampleCache \<and> (\<exists>key. fmlookup (nrCaches (snd sampleResolved)) key = Some sampleCache)"
  using resolver_informers_bounded [OF sampleResolved_reachable] sampleResolved_run(3) by simp

text \<open>
  C37: A selector is resolved for the right set on the right cluster. In every reachable state, when
  resolving succeeds the answer is the names of exactly the namespaces whose labels match, in the
  order of the store of a synced cache that belongs to this set and this cluster and is in the map.
\<close>

theorem ResolveNamespaceSelector_sound:
  assumes "resolver_reachable slashFree \<lparr>syState = st, syCalls = calls\<rparr>" "slashFree rs cluster"
    and "ResolveNamespaceSelector L E rs cluster sel st = (Inr names, st')"
  shows "\<exists>c. cached st' c \<and> cacheOfSet rs c \<and> rcCluster c = cluster \<and> nvWaitForCacheSync E c \<and>
    names = map omName (filter (\<lambda>ns. selector_Matches L sel (omLabels ns))
      (concat (map (\<lambda>ob. case ob of NamespaceObject ns \<Rightarrow> [ns] | OtherObject \<Rightarrow> []) (nvStoreList E c))))"
  using assms(3)
proof (cases rule: ResolveNamespaceSelector_cases)
  case (ensured profile cfg r')
  then obtain c where "r' = Inr c" "nvWaitForCacheSync E c" "names = matchedNamespaces L sel (nvStoreList E c)" by auto
  moreover from ensured(1) \<open>r' = Inr c\<close> have "cached st' c \<and> cacheOfSet rs c \<and> rcCluster c = cluster"
    using ensureNamespaceCache_result [OF resolver_reachable_keys [OF assms(1)] assms(2)] by simp
  ultimately show ?thesis unfolding matchedNamespaces_filter by blast
qed simp

theorem ResolveNamespaceSelector_sound_witness:
  "fst sampleResolved = Inr [''apps''] \<and> (\<exists>c. cached (snd sampleResolved) c \<and> rcCluster c = ''c1'')"
  using ResolveNamespaceSelector_sound [OF resolver_reachable.init sampleSet_slashFree,
      of ref_lib sampleResolverEnv "SelectorFromValidatedSet (fmap_of_list [(''tier'', ''web'')])" "[''apps'']" "snd sampleResolved"]
    sampleResolved_run(2)
  by (cases sampleResolved) (auto simp: sampleResolved_def)

text \<open>
  The janitor stops what is not kept, and nothing else. Exactly the caches of the set in clusters
  that are not kept leave the map; in every reachable state no informer of the set runs afterwards in a cluster
  that is not kept.
\<close>

theorem StopNamespaceCaches_exact:
  assumes "resolver_reachable ok \<lparr>syState = st, syCalls = calls\<rparr>"
  shows "(\<forall>key c. fmlookup (nrCaches (StopNamespaceCaches rs keep st)) key = Some c \<longleftrightarrow>
      fmlookup (nrCaches st) key = Some c \<and> \<not> (cacheOfSet rs c \<and> rcCluster c |\<notin>| keep)) \<and>
    (\<forall>c. informerRuns (StopNamespaceCaches rs keep st) c \<longrightarrow> cacheOfSet rs c \<longrightarrow> rcCluster c |\<in>| keep)"
  using janitor_informers [OF assms] by (auto simp: StopNamespaceCaches_def stopWhere_lookup)

theorem StopNamespaceCaches_exact_witness:
  "informerRuns (snd sampleResolved) sampleCache \<and> \<not> informerRuns (StopNamespaceCaches sampleSet {||} (snd sampleResolved)) sampleCache"
  using StopNamespaceCaches_exact [OF sampleResolved_reachable, of sampleSet "{||}"] sampleResolved_run(3)
  by (auto simp: cacheOfSet_def sampleCache_def)

end
