(* ===== verification/Manager.thy ===== *)
theory Manager
  imports Program_Walk Resolver_Goroutines
begin

text \<open>
  The program as \<^verbatim>\<open>cmd/manager/main.go\<close> puts it together: a reconciler over the manager's clients whose
  namespace selector resolver and janitor are the resolver of \<^verbatim>\<open>Namespace_Resolver\<close>, and the resolver
  registered as a runnable of the manager. The environment of a reconciliation is that of the server
  and the resolver with its goroutines; between any two calls other goroutines may move. Shown: the
  invariant of the resolver holds through any sequence of reconciliations, and no informer of a set
  outlives the need for it.
\<close>

section \<open>Wiring\<close>

type_synonym 'e managed = "'e \<times> resolverSys"

text \<open>
  What \<^verbatim>\<open>main\<close> is given: the manager's client, recorder, profile list and registration calls (with
  their errors), the configuration file, the managed clusters as the resolver finds them, and
  \<open>mgMeanwhile\<close>: what everything else does after a call, to the outside and to the resolver.
\<close>

record 'e manager =
  mgLib :: lib
  mgServer :: "'e server"
  mgRecorder :: "replicaSet \<Rightarrow> string \<Rightarrow> string \<Rightarrow> string \<Rightarrow> 'e \<Rightarrow> 'e"
  mgTrackerQuery :: "placement \<Rightarrow> selector \<times> string"
  mgTrackerGroups :: "placement \<Rightarrow> go_error + placementDecision list \<Rightarrow> go_error + clusterGroups"
  mgProfiles :: "'e \<Rightarrow> profileLister"
  mgRemote :: "'e \<Rightarrow> resolverEnv"
  mgMeanwhile :: "'e \<Rightarrow> resolverSys \<Rightarrow> 'e managed"
  mgNewFromFile :: "string \<Rightarrow> go_error + accessConfig"
  mgAdd :: "go_error option"
  mgIndexField :: "go_error option"
  mgComplete :: "go_error option"

definition liftCall :: "('e \<Rightarrow> resolverSys \<Rightarrow> 'e managed) \<Rightarrow> ('e \<Rightarrow> 'a \<times> 'e) \<Rightarrow> 'e managed \<Rightarrow> 'a \<times> 'e managed" where
  "liftCall meanwhile f m = (case f (fst m) of (r, e) \<Rightarrow> (r, meanwhile e (snd m)))"

definition liftServer :: "('e \<Rightarrow> resolverSys \<Rightarrow> 'e managed) \<Rightarrow> 'e server \<Rightarrow> 'e managed server" where
  "liftServer mw S = \<lparr>
     srvGetSet = (\<lambda>k. liftCall mw (srvGetSet S k)),
     srvPatchSet = (\<lambda>a b. liftCall mw (srvPatchSet S a b)),
     srvPatchStatus = (\<lambda>a b. liftCall mw (srvPatchStatus S a b)),
     srvGetPlacement = (\<lambda>k. liftCall mw (srvGetPlacement S k)),
     srvListDecisions = (\<lambda>sel ns. liftCall mw (srvListDecisions S sel ns)),
     srvGetNamespace = (\<lambda>ns. liftCall mw (srvGetNamespace S ns)),
     srvGetMSA = (\<lambda>k. liftCall mw (srvGetMSA S k)),
     srvCreateMSA = (\<lambda>m. liftCall mw (srvCreateMSA S m)),
     srvPatchMSA = (\<lambda>a b. liftCall mw (srvPatchMSA S a b)),
     srvDeleteMSA = (\<lambda>m. liftCall mw (srvDeleteMSA S m)),
     srvListMSAs = (\<lambda>sel. liftCall mw (srvListMSAs S sel)),
     srvGetWork = (\<lambda>k. liftCall mw (srvGetWork S k)),
     srvCreateWork = (\<lambda>m. liftCall mw (srvCreateWork S m)),
     srvPatchWork = (\<lambda>a b. liftCall mw (srvPatchWork S a b)),
     srvDeleteWork = (\<lambda>m. liftCall mw (srvDeleteWork S m)),
     srvListWorks = (\<lambda>sel. liftCall mw (srvListWorks S sel))\<rparr>"

text \<open>The resolver as the reconciler's \<^verbatim>\<open>NamespaceSelectorResolver\<close> and \<^verbatim>\<open>NamespaceCacheJanitor\<close>.\<close>

definition resolverCall ::
  "'e manager \<Rightarrow> accessConfig \<Rightarrow> replicaSet \<Rightarrow> string \<Rightarrow> rbacGrant \<Rightarrow> selector \<Rightarrow> 'e managed \<Rightarrow> (go_error + string list) \<times> 'e managed" where
  "resolverCall M cfg rs clusterName grant sel m =
     (let E = (mgRemote M (fst m))\<lparr>nvLocalClient := Some (mgProfiles M (fst m)), nvAccessConfig := Some cfg\<rparr>;
          (r, st) = ResolveNamespaceSelector (mgLib M) E rs clusterName sel (syState (snd m))
      in (r, mgMeanwhile M (fst m) ((snd m)\<lparr>syState := st\<rparr>)))"

definition janitorCall :: "replicaSet \<Rightarrow> strset \<Rightarrow> 'e managed \<Rightarrow> 'e managed" where
  "janitorCall rs keepClusters m = (fst m, (snd m)\<lparr>syState := StopNamespaceCaches rs keepClusters (syState (snd m))\<rparr>)"

text \<open>
  \<^verbatim>\<open>SetupWithManager\<close> of a reconciler that has at most its resolver set: the index, the manager's
  clients for the nil fields, the channel of the resolver, and the controller.
\<close>

definition SetupWithManager :: "'e manager \<Rightarrow> accessConfig option \<Rightarrow> go_error + 'e managed reconciler \<times> resolverSys" where
  "SetupWithManager M resolver = (case mgIndexField M of
     Some err \<Rightarrow> Inl err
   | None \<Rightarrow>
      (let R = \<lparr>rLib = mgLib M, rServer = liftServer (mgMeanwhile M) (mgServer M),
              rRecorder = Some (\<lambda>obj reason action msg m. mgMeanwhile M (mgRecorder M obj reason action msg (fst m)) (snd m)),
              rResolver = map_option (resolverCall M) resolver, rJanitor = map_option (\<lambda>_. janitorCall) resolver,
              rTrackerQuery = mgTrackerQuery M, rTrackerGroups = mgTrackerGroups M\<rparr>;
           st = (if resolver = None then resolver_zero else NamespaceEvents resolver_zero)
       in case mgComplete M of Some err \<Rightarrow> Inl err | None \<Rightarrow> Inr (R, \<lparr>syState = st, syCalls = []\<rparr>)))"

text \<open>\<^verbatim>\<open>main\<close> from the flag to the reconciler; an error is logged and the process exits.\<close>

definition setupReconciler :: "'e manager \<Rightarrow> string \<Rightarrow> go_error + 'e managed reconciler \<times> resolverSys" where
  "setupReconciler M clusterProfileProviderFile =
     (if clusterProfileProviderFile = [] then SetupWithManager M None
      else case mgNewFromFile M clusterProfileProviderFile of
        Inl err \<Rightarrow> Inl err
      | Inr credentialsProvider \<Rightarrow> (case mgAdd M of
          Some err \<Rightarrow> Inl err
        | None \<Rightarrow> SetupWithManager M (Some credentialsProvider)))"

section \<open>The resolver under reconciliations\<close>

abbreviation anyCall :: "replicaSet \<Rightarrow> string \<Rightarrow> bool" where
  "anyCall \<equiv> \<lambda>_ _. True"

text \<open>Other goroutines take steps of the resolver's relation.\<close>

definition interleaves :: "'e manager \<Rightarrow> bool" where
  "interleaves M \<longleftrightarrow> (\<forall>e s. (resolver_step anyCall)\<^sup>*\<^sup>* s (snd (mgMeanwhile M e s)))"

definition keepsResolver :: "'e managed world \<Rightarrow> 'e managed world \<Rightarrow> bool" where
  "keepsResolver w w' \<longleftrightarrow> (resolver_reachable anyCall (snd (env w)) \<longrightarrow> resolver_reachable anyCall (snd (env w')))"

interpretation keep: world_preorder keepsResolver
  by unfold_locales (simp_all add: keepsResolver_def)

lemma keep_call:
  "(\<And>m. resolver_reachable anyCall (snd m) \<Longrightarrow> resolver_reachable anyCall (snd (snd (f m)))) \<Longrightarrow> keep.moves (call f ev)"
  by (simp add: keep.moves_def keepsResolver_def call_def split: prod.split) (metis snd_conv)

lemma keep_meanwhile:
  "interleaves M \<Longrightarrow> resolver_reachable anyCall s \<Longrightarrow> resolver_reachable anyCall (snd (mgMeanwhile M e s))"
  unfolding interleaves_def by (blast intro: reachable_steps)

lemma keep_liftCall:
  "interleaves M \<Longrightarrow> resolver_reachable anyCall (snd m) \<Longrightarrow> resolver_reachable anyCall (snd (snd (liftCall (mgMeanwhile M) f m)))"
  by (simp add: liftCall_def keep_meanwhile split: prod.split)

lemma ResolveNamespaceSelector_steps:
  assumes "resolver_reachable ok s" "ok rs c"
  shows "resolver_reachable ok (s\<lparr>syState := snd (ResolveNamespaceSelector L E rs c sel (syState s))\<rparr>)"
proof -
  obtain r st where run: "ResolveNamespaceSelector L E rs c sel (syState s) = (r, st)"
    by (cases "ResolveNamespaceSelector L E rs c sel (syState s)") auto
  then show ?thesis
  proof (cases rule: ResolveNamespaceSelector_cases)
    case failed
    then show ?thesis using assms(1) run by simp
  next
    case (ensured profile cfg r')
    from reachable_steps [OF ensureNamespaceCache_steps [of ok, OF assms(2) this(1), of "syCalls s"]] assms(1) run
    show ?thesis by (cases s) simp
  qed
qed

lemma keep_resolverCall:
  "interleaves M \<Longrightarrow> resolver_reachable anyCall (snd m) \<Longrightarrow> resolver_reachable anyCall (snd (snd (resolverCall M cfg rs c g sel m)))"
  using ResolveNamespaceSelector_steps [of anyCall "snd m" rs c]
  by (simp add: resolverCall_def Let_def keep_meanwhile split_beta)

lemma keep_janitorCall: "resolver_reachable anyCall (snd m) \<Longrightarrow> resolver_reachable anyCall (snd (janitorCall rs k m))"
  using resolver_reachable.step [OF _ resolver_step.janitor, of anyCall "syState (snd m)" "syCalls (snd m)" rs k]
  by (cases "snd m") (simp add: janitorCall_def)

lemma setupReconciler_cases:
  assumes "setupReconciler M file = Inr (R, s0)"
  obtains (off) "file = []" "SetupWithManager M None = Inr (R, s0)"
  | (on) cfg where "file \<noteq> []" "mgNewFromFile M file = Inr cfg" "SetupWithManager M (Some cfg) = Inr (R, s0)"
  using assms by (auto simp: setupReconciler_def split: if_splits sum.splits option.splits)

lemma SetupWithManager_fields:
  assumes "SetupWithManager M resolver = Inr (R, s0)"
  shows "rLib R = mgLib M" "rServer R = liftServer (mgMeanwhile M) (mgServer M)"
    "rRecorder R = Some (\<lambda>obj reason action msg m. mgMeanwhile M (mgRecorder M obj reason action msg (fst m)) (snd m))"
    "rResolver R = map_option (resolverCall M) resolver" "rJanitor R = map_option (\<lambda>_. janitorCall) resolver"
    "resolver_reachable anyCall s0"
  using assms resolver_reachable.step [OF resolver_reachable.init resolver_step.subscribe, of anyCall]
  by (auto simp: SetupWithManager_def Let_def resolver_reachable.init split: option.splits)

lemma SetupWithManager_calling:
  assumes "interleaves M" "SetupWithManager M resolver = Inr (R, s0)"
  shows "calling keepsResolver R"
proof unfold_locales
  note fields = SetupWithManager_fields [OF assms(2)]
  fix k a b sel ns m m' v v' rs reason action msg
  show "keep.moves (getSet R k)" "keep.moves (patchSet R a b)" "keep.moves (patchSetStatus R a b)"
    "keep.moves (getPlacement R k)" "keep.moves (listDecisions R sel ns)" "keep.moves (getNamespace R ns)"
    "keep.moves (ccGet (msaClient R) k)" "keep.moves (ccCreate (msaClient R) m)" "keep.moves (ccPatch (msaClient R) m m')"
    "keep.moves (ccGet (workClient R) k)" "keep.moves (ccCreate (workClient R) v)" "keep.moves (ccPatch (workClient R) v v')"
    "keep.moves (deleteMSA R m)" "keep.moves (deleteWork R v)" "keep.moves (listMSAs R sel)" "keep.moves (listWorks R sel)"
    unfolding getSet_def patchSet_def patchSetStatus_def getPlacement_def listDecisions_def getNamespace_def msaClient_def
      workClient_def deleteMSA_def deleteWork_def listMSAs_def listWorks_def fields liftServer_def
    by (simp_all add: keep_call keep_liftCall [OF assms(1)])
  show "keep.moves (recordWarningEvent R rs reason action msg)"
    unfolding recordWarningEvent_def fields by (simp add: keep_call keep_meanwhile [OF assms(1)])
  show "keep.moves (stopNamespaceCaches R rs keep)" for keep
    unfolding stopNamespaceCaches_def fields
    by (cases resolver) (simp_all add: keep_call keep_janitorCall keep.moves_return)
  show "keep.moves (call (f rs c g sel) ev)" if "rResolver R = Some f" for f c g ev
    using that unfolding fields by (auto simp: keep_call keep_resolverCall [OF assms(1)])
qed

section \<open>The set a reconciliation returns\<close>

text \<open>Patching an object cannot change its name, namespace or UID.\<close>

definition sameSet :: "replicaSet \<Rightarrow> replicaSet \<Rightarrow> bool" where
  "sameSet rs rs' \<longleftrightarrow> setUID rs' = setUID rs \<and> setNamespace rs' = setNamespace rs \<and> setName rs' = setName rs"

lemma sameSet_simps [simp]:
  "sameSet rs rs" "sameSet rs (rs\<lparr>setStatus := status\<rparr>)" "sameSet rs (rs\<lparr>setMeta := (setMeta rs)\<lparr>omFinalizers := fs\<rparr>\<rparr>)"
  "sameSet (rs\<lparr>setStatus := status\<rparr>) = sameSet rs" "sameSet (rs\<lparr>setMeta := (setMeta rs)\<lparr>omFinalizers := fs\<rparr>\<rparr>) = sameSet rs"
  by (simp_all add: sameSet_def fun_eq_iff)

text \<open>A cluster is kept only for a valid set with selector grants, and only when it is selected.\<close>

definition keptFor :: "replicaSet \<Rightarrow> placementResolution \<Rightarrow> replicaSet \<times> strset \<times> ctrlResult \<times> go_error option \<Rightarrow> bool" where
  "keptFor rs p = (\<lambda>(rs', keep, res). sameSet rs rs' \<and>
     (\<forall>c. c |\<in>| keep \<longrightarrow> validateRuntimeSpec rs = None \<and> selectorRBACEnabled rs \<and> c \<in> set (reClusters p)))"

locale identity_server =
  fixes S :: "'e server"
  assumes patch_identity: "fst (srvPatchSet S base s e) = Inr s' \<Longrightarrow> sameSet s s'"
    and status_identity: "fst (srvPatchStatus S base s e) = Inr s' \<Longrightarrow> sameSet s s'"
begin

lemma identity_liftServer: "identity_server (liftServer mw S)"
  by unfold_locales
    (auto simp: liftServer_def liftCall_def split_beta dest: patch_identity status_identity)

lemma yields_patchStatus:
  assumes "rServer R = S"
  shows "yields (patchStatus R rs status) (\<lambda>(rs', err). sameSet rs rs')"
proof (cases "setStatus rs = status")
  case True
  then show ?thesis by (simp add: patchStatus_def yields_return sameSet_def)
next
  case False
  have "yields (patchSetStatus R rs (rs\<lparr>setStatus := status\<rparr>)) (\<lambda>r. \<forall>s. r = Inr s \<longrightarrow> sameSet rs s)"
    unfolding patchSetStatus_def assms by (rule yields_call) (auto dest: status_identity)
  with False show ?thesis
    unfolding patchStatus_def
    by (simp, elim yields_bind) (simp add: yields_return split: sum.split)
qed

lemma yields_patchSet:
  assumes "rServer R = S"
  shows "yields (patchSet R rs s) (\<lambda>r. \<forall>s'. r = Inr s' \<longrightarrow> sameSet s s')"
  unfolding patchSet_def assms by (rule yields_call) (auto dest: patch_identity)

lemma yields_removeFinalizerStep:
  assumes "rServer R = S"
  shows "yields (removeFinalizerStep R rs) (\<lambda>(rs', res). sameSet rs rs')"
proof -
  have "yields (patchSet R rs (rs\<lparr>setMeta := (setMeta rs)\<lparr>omFinalizers := fs\<rparr>\<rparr>) \<bind> (\<lambda>r. case r of
      Inl err \<Rightarrow> return (rs\<lparr>setMeta := (setMeta rs)\<lparr>omFinalizers := fs\<rparr>\<rparr>, ctrlResult_zero, Some err)
    | Inr rs2 \<Rightarrow> return (rs2, ctrlResult_zero, None))) (\<lambda>(rs', res). sameSet rs rs')" for fs
    by (rule yields_bind [OF yields_patchSet [OF assms]]) (simp add: yields_return split: sum.split)
  then show ?thesis
    unfolding removeFinalizerStep_def split_beta Let_def by (simp add: yields_return)
qed

lemma yields_waitForCleanup:
  assumes "rServer R = S"
  shows "yields (waitForCleanup R rs a b) (\<lambda>(rs', res). sameSet rs rs')"
  unfolding waitForCleanup_def Let_def
  by (rule yields_bind [OF yields_patchStatus [OF assms]]) (auto intro!: yields_return)

lemma yields_reconcileDelete:
  assumes "rServer R = S"
  shows "yields (reconcileDelete R rs) (\<lambda>(rs', res). sameSet rs rs')"
  unfolding reconcileDelete_def deleteRemainingMSAs_def Let_def
  by (auto intro!: yields_after yields_return yields_removeFinalizerStep yields_waitForCleanup assms
      split: sum.split option.split)

lemma yields_earlyReturn:
  assumes "rServer R = S"
  shows "yields (earlyReturn R rs status reason action err) (\<lambda>(rs', res). sameSet rs rs')"
  unfolding earlyReturn_def
  by (rule yields_after, rule yields_bind [OF yields_patchStatus [OF assms]]) (auto intro!: yields_return)

lemma yields_rolloutAndApply:
  assumes "rServer R = S"
  shows "yields (rolloutAndApply R rs resolution status) (\<lambda>(rs', res). sameSet rs rs')"
  unfolding rolloutAndApply_def Let_def
  by (rule yields_after)
    (auto intro!: yields_after yields_bind [OF yields_patchStatus [OF assms]] yields_return split: sum.split)

lemma reconcileLive_keptFor:
  assumes "rServer R = S" and p: "run_state (resolvePlacementRefs R rs (setGeneration rs)) w = (p, w1)"
  shows "keptFor rs p (fst (run_state (reconcileLive R rs) w))"
proof (cases "validateRuntimeSpec rs")
  case (Some err)
  have "yields (reconcileLive R rs) (keptFor rs p)"
    unfolding reconcileLive_def Some option.case
    by (rule yields_bind [OF yields_earlyReturn [OF assms(1)]]) (auto intro!: yields_return simp: keptFor_def)
  then show ?thesis by (simp add: yields_def)
next
  case None
  define status where "status = (newStatus rs)\<lparr>stPlacements := rePlacementStatuses p,
                 stSelectedClusterCount := int32 (int (length (reClusters p)))\<rparr>"
  have early: "yields (earlyReturn R rs st reason action err \<bind> (\<lambda>(rs', res). return (rs', {||}, res))) (keptFor rs p)"
    for st reason action err
    by (rule yields_bind [OF yields_earlyReturn [OF assms(1)]]) (auto intro!: yields_return simp: keptFor_def)
  have "yields (rolloutAndApply R rs p st \<bind> (\<lambda>(rs', res).
      return (rs', if selectorRBACEnabled rs then fset_of_list (reClusters p) else {||}, res))) (keptFor rs p)" for st
    using None
    by (intro yields_bind [OF yields_rolloutAndApply [OF assms(1)]]) (auto intro!: yields_return simp: keptFor_def fset_of_list.rep_eq)
  with early p None show ?thesis
    by (auto simp: reconcileLive_def yields_def Let_def split: option.split list.split)
qed

lemma reconcileBody_keptFor:
  assumes "rServer R = S" "finalizer_library (rLib R)"
    and p: "run_state (resolvePlacementRefs R rs (setGeneration rs)) w = (p, w1)"
  shows "keptFor rs p (fst (run_state (reconcileBody R rs) w)) \<and>
    (deletionTimestamp_IsZero (setMeta rs) \<or> fst (snd (fst (run_state (reconcileBody R rs) w))) = {||})"
proof -
  have add: "yields (patchSet R rs rs1 \<bind> (\<lambda>r. case r of
       Inl err \<Rightarrow> return (rs1, {||}, ctrlResult_zero, Some err)
     | Inr rs2 \<Rightarrow> return (rs2, {||}, ctrlResult_zero, None))) (keptFor rs p)"
    if "rs1 = rs\<lparr>setMeta := (setMeta rs)\<lparr>omFinalizers := fs\<rparr>\<rparr>" for rs1 fs
    unfolding that by (rule yields_bind [OF yields_patchSet [OF assms(1)]]) (simp add: yields_return keptFor_def split: sum.split)
  have del: "yields (reconcileDelete R rs \<bind> (\<lambda>(rs', res). return (rs', {||}, res))) (\<lambda>r. keptFor rs p r \<and> fst (snd r) = {||})"
    by (intro yields_bind [OF yields_reconcileDelete [OF assms(1)]]) (auto intro!: yields_return simp: keptFor_def)
  show ?thesis
  proof (cases "deletionTimestamp_IsZero (setMeta rs)")
    case False
    then have "reconcileBody R rs = reconcileDelete R rs \<bind> (\<lambda>(rs', res). return (rs', {||}, res))"
      by (simp add: reconcileBody_def)
    with del show ?thesis by (simp only: yields_def) simp
  next
    case True
    show ?thesis
    proof (cases "finalizerName \<in> set (omFinalizers (setMeta rs))")
      case True
      with \<open>deletionTimestamp_IsZero (setMeta rs)\<close> have "reconcileBody R rs = reconcileLive R rs"
        by (simp add: reconcileBody_def finalizer_library.AddFinalizer [OF assms(2)])
      with reconcileLive_keptFor [OF assms(1) p] \<open>deletionTimestamp_IsZero (setMeta rs)\<close> show ?thesis by simp
    next
      case False
      with \<open>deletionTimestamp_IsZero (setMeta rs)\<close> have "yields (reconcileBody R rs) (keptFor rs p)"
        by (simp add: reconcileBody_def finalizer_library.AddFinalizer [OF assms(2)] Let_def) (rule add [OF refl])
      with \<open>deletionTimestamp_IsZero (setMeta rs)\<close> show ?thesis by (simp add: yields_def)
    qed
  qed
qed

end

interpretation hubIdentity: identity_server "hubServer L" for L
  by unfold_locales (auto simp: hubServer_def hubPatch_def split: option.splits prod.splits)

section \<open>Properties\<close>

text \<open>
  A manager over the concrete hub, where in every gap another goroutine resolves a selector of the
  example set.
\<close>

definition otherGoroutine :: "resolverSys \<Rightarrow> resolverSys" where
  "otherGoroutine s = s\<lparr>syState := snd (ensureNamespaceCache sampleResolverEnv sampleSet ''c1'' sampleProfile ''config'' (syState s))\<rparr>"

definition hubManager :: "hub manager" where
  "hubManager = \<lparr>mgLib = ref_lib, mgServer = hubServer ref_lib, mgRecorder = (\<lambda>_ _ _ _ h. h),
     mgTrackerQuery = rTrackerQuery (hubReconciler ref_lib), mgTrackerGroups = rTrackerGroups (hubReconciler ref_lib),
     mgProfiles = (\<lambda>_ _. Inr [sampleProfile]), mgRemote = (\<lambda>_. sampleResolverEnv), mgMeanwhile = (\<lambda>h s. (h, otherGoroutine s)),
     mgNewFromFile = (\<lambda>_. Inr \<lparr>acProviders = []\<rparr>), mgAdd = None, mgIndexField = None, mgComplete = None\<rparr>"

definition hubWired :: "hub managed reconciler \<times> resolverSys" where
  "hubWired = (case setupReconciler hubManager ''providers.json'' of Inr x \<Rightarrow> x)"

lemma hubManager_interleaves: "interleaves hubManager"
  unfolding interleaves_def
proof (intro allI)
  fix e and s :: resolverSys
  show "(resolver_step anyCall)\<^sup>*\<^sup>* s (snd (mgMeanwhile hubManager e s))"
    using ensureNamespaceCache_steps [of anyCall sampleSet "''c1''" sampleResolverEnv sampleProfile "''config''" "syState s"
        "fst (ensureNamespaceCache sampleResolverEnv sampleSet ''c1'' sampleProfile ''config'' (syState s))" _ "syCalls s"]
    by (cases s) (simp add: hubManager_def otherGoroutine_def)
qed

lemma hubWired_eq: "setupReconciler hubManager ''providers.json'' = Inr (fst hubWired, snd hubWired)"
  "snd hubWired = \<lparr>syState = NamespaceEvents resolver_zero, syCalls = []\<rparr>"
  "rServer (fst hubWired) = liftServer (\<lambda>h s. (h, otherGoroutine s)) (hubServer ref_lib)"
  by (simp_all add: hubWired_def setupReconciler_def SetupWithManager_def hubManager_def Let_def)

lemma otherGoroutine_first: "otherGoroutine \<lparr>syState = NamespaceEvents resolver_zero, syCalls = []\<rparr> = \<lparr>syState = snd sampleResolved, syCalls = []\<rparr>"
proof -
  have "ensureNamespaceCache sampleResolverEnv sampleSet ''c1'' sampleProfile ''config'' (NamespaceEvents resolver_zero) =
      ensureNamespaceCache sampleResolverEnv sampleSet ''c1'' sampleProfile ''config'' resolver_zero"
    by (simp add: ensureNamespaceCache_def lookupNamespaceCache_def NamespaceEvents_def ensureEventChannelLocked_def resolver_zero_def)
  then show ?thesis by (simp add: otherGoroutine_def sampleResolved_run(1))
qed

lemma hubGone:
  "snd (run_state (Reconcile (fst hubWired) (''fleet'', ''gone'')) \<lparr>env = (emptyHub, snd hubWired), trace = []\<rparr>) =
     \<lparr>env = (emptyHub, \<lparr>syState = snd sampleResolved, syCalls = []\<rparr>),
      trace = [GetSet (''fleet'', ''gone'') (Inl (ApiNotFound ''not found''))]\<rparr>"
  by (simp add: Reconcile_def getSet_def call_def hubWired_eq liftServer_def liftCall_def hubServer_def hubGet_def hubFind_def
      emptyHub_def otherGoroutine_first)

text \<open>
  The resolver is safe in the whole program. From the start \<^verbatim>\<open>main\<close> gives it, through any sequence
  of reconciliations of any sets, and whatever other goroutines do in between: every running informer
  belongs to a cache in the resolver's map, and at most one runs for a cluster of a set.
\<close>

theorem manager_informers_bounded:
  assumes "interleaves M" "setupReconciler M file = Inr (R, s0)"
    and "st = syState (snd (env (fold (\<lambda>req w. snd (run_state (Reconcile R req) w)) reqs \<lparr>env = (e, s0), trace = []\<rparr>)))"
  shows "(\<forall>c. informerRuns st c \<longrightarrow> (\<exists>key. fmlookup (nrCaches st) key = Some c)) \<and>
    (\<forall>c d. informerRuns st c \<longrightarrow> informerRuns st d \<longrightarrow> sameTarget c d \<longrightarrow> c = d)"
proof -
  obtain resolver where wired: "SetupWithManager M resolver = Inr (R, s0)"
    using assms(2) by (cases rule: setupReconciler_cases) auto
  note move = calling.moves_Reconcile [OF SetupWithManager_calling [OF assms(1) wired]]
  have "resolver_reachable anyCall (snd (env (fold (\<lambda>req w. snd (run_state (Reconcile R req) w)) reqs w)))"
    if "resolver_reachable anyCall (snd (env w))" for w
    using that move by (induction reqs arbitrary: w) (simp_all add: keep.moves_def keepsResolver_def)
  from this [of "\<lparr>env = (e, s0), trace = []\<rparr>"] SetupWithManager_fields(6) [OF wired]
  have "resolver_reachable anyCall (snd (env (fold (\<lambda>req w. snd (run_state (Reconcile R req) w)) reqs \<lparr>env = (e, s0), trace = []\<rparr>)))"
    by simp
  from reachable_informers [OF this] show ?thesis by (simp add: assms(3))
qed

theorem manager_informers_bounded_witness:
  "informerRuns (snd sampleResolved) sampleCache \<and> (\<exists>key. fmlookup (nrCaches (snd sampleResolved)) key = Some sampleCache)"
  using manager_informers_bounded [OF hubManager_interleaves hubWired_eq(1), of "snd sampleResolved" "[(''fleet'', ''gone'')]" emptyHub]
    sampleResolved_run(3) by (simp add: hubGone)

text \<open>
  C3: No informer outlives its need. When a reconciliation of a set ends, an informer of that set still
  runs only if the set is live and valid, has grants with a namespace selector, and its placements
  select the informer's cluster in this very reconciliation. So deleting a set, breaking its
  specification, removing its selectors or deselecting a cluster stops the informers.
\<close>

theorem Reconcile_stops_informers:
  assumes "interleaves M" "identity_server (mgServer M)" "finalizer_library (mgLib M)"
    and "setupReconciler M file = Inr (R, s0)" "file \<noteq> []" "resolver_reachable anyCall (snd (env w))"
    and "run_state (getSet R req) w = (Inr rs, w0)"
    and "run_state (resolvePlacementRefs R rs (setGeneration rs)) w0 = (p, w1)"
  shows "\<forall>c. informerRuns (syState (snd (env (snd (run_state (Reconcile R req) w))))) c \<longrightarrow> cacheOfSet rs c \<longrightarrow>
    deletionTimestamp_IsZero (setMeta rs) \<and> validateRuntimeSpec rs = None \<and> selectorRBACEnabled rs \<and>
    rcCluster c \<in> set (reClusters p)"
proof (intro allI impI)
  fix c
  assume run: "informerRuns (syState (snd (env (snd (run_state (Reconcile R req) w))))) c" and own: "cacheOfSet rs c"
  obtain cfg where wired: "SetupWithManager M (Some cfg) = Inr (R, s0)"
    using assms(4,5) by (cases rule: setupReconciler_cases) auto
  note fields = SetupWithManager_fields [OF wired]
  note calling = SetupWithManager_calling [OF assms(1) wired]
  obtain rs' keep res w2 where body: "run_state (reconcileBody R rs) w0 = ((rs', keep, res), w2)"
    by (cases "run_state (reconcileBody R rs) w0") auto
  have kept: "keptFor rs p (rs', keep, res)" "deletionTimestamp_IsZero (setMeta rs) \<or> keep = {||}"
    using identity_server.reconcileBody_keptFor [OF identity_server.identity_liftServer [OF assms(2)] fields(2) _ assms(8)]
      assms(3) by (simp_all add: fields(1) body)
  have "keepsResolver w w0" by (rule keep.movesD [OF calling.calls(1) [OF calling] assms(7)])
  moreover have "keepsResolver w0 w2" by (rule keep.movesD [OF calling.moves_reconcileBody [OF calling] body])
  ultimately have "resolver_reachable anyCall (snd (env w2))" using assms(6) by (simp add: keepsResolver_def)
  moreover have "syState (snd (env (snd (run_state (Reconcile R req) w)))) = StopNamespaceCaches rs' keep (syState (snd (env w2)))"
    by (simp add: Reconcile_def assms(7) body stopNamespaceCaches_def fields(5) call_def janitorCall_def)
  moreover have "cacheOfSet rs' c" using own kept(1) by (simp add: keptFor_def sameSet_def cacheOfSet_def)
  ultimately have "rcCluster c |\<in>| keep"
    using janitor_informers [of anyCall "syState (snd (env w2))" "syCalls (snd (env w2))" rs' keep c] run by (cases "snd (env w2)") simp
  with kept show "deletionTimestamp_IsZero (setMeta rs) \<and> validateRuntimeSpec rs = None \<and> selectorRBACEnabled rs \<and>
    rcCluster c \<in> set (reClusters p)" by (auto simp: keptFor_def)
qed

theorem Reconcile_stops_informers_witness:
  "informerRuns (snd sampleResolved) sampleCache \<and>
   \<not> informerRuns (syState (snd (env (snd (run_state (Reconcile (fst hubWired) (''fleet'', ''viewer''))
      \<lparr>env = (emptyHub\<lparr>hubSets := [sampleSet]\<rparr>, \<lparr>syState = snd sampleResolved, syCalls = []\<rparr>), trace = []\<rparr>))))) sampleCache"
proof -
  let ?w = "\<lparr>env = (emptyHub\<lparr>hubSets := [sampleSet]\<rparr>, \<lparr>syState = snd sampleResolved, syCalls = []\<rparr>), trace = []\<rparr>"
  obtain w0 where get: "run_state (getSet (fst hubWired) (''fleet'', ''viewer'')) ?w = (Inr sampleSet, w0)"
    by (simp add: getSet_def call_def hubWired_eq liftServer_def liftCall_def hubServer_def hubGet_def hubFind_def emptyHub_def)
  obtain p w1 where plc: "run_state (resolvePlacementRefs (fst hubWired) sampleSet (setGeneration sampleSet)) w0 = (p, w1)"
    by (cases "run_state (resolvePlacementRefs (fst hubWired) sampleSet (setGeneration sampleSet)) w0") auto
  have reach: "resolver_reachable anyCall (snd (env ?w))"
    using reachable_steps [OF ensureNamespaceCache_steps [where ok = anyCall, OF _ sampleResolved_run(1)] resolver_reachable.init]
    by simp
  have "\<not> selectorRBACEnabled sampleSet"
    by (simp add: selectorRBACEnabled_def sampleSet_def sampleSpec_def sampleRoleGrant_def sampleClusterGrant_def)
  moreover have "cacheOfSet sampleSet sampleCache" by (simp add: cacheOfSet_def sampleCache_def)
  ultimately show ?thesis
    using Reconcile_stops_informers [OF hubManager_interleaves _ _ hubWired_eq(1) _ reach get plc] sampleResolved_run(3)
    by (auto simp: hubManager_def hubIdentity.identity_server_axioms ref.finalizer_library_axioms)
qed

end
