(* ===== verification/Convergence.thy ===== *)
theory Convergence
  imports Children
begin

text \<open>
  Convergence of \<^const>\<open>ensureChild\<close>. The locale \<open>child_store\<close> adds to \<open>child_client\<close> what an API
  server promises about reads after writes when nobody else writes: a read returns what was
  last written, possibly in another representation that compares equal. In it, once an ensure
  call has succeeded, repeating it reads once and writes nothing.

  The locale is interpreted on the controller's own clients over the hub of
  \<^theory_text>\<open>Reference_Hub\<close>, which stores the manifests of a ManifestWork as raw JSON.
\<close>

section \<open>The interface of a store\<close>

locale child_store = child_client cc mk kind
  for cc :: "('e, 't) childClient" and mk :: "'t \<Rightarrow> child" and kind :: childKind +
  fixes ops :: "'t childSpecOps" and view :: "'e \<Rightarrow> key \<Rightarrow> 't option"
  assumes view_key: "view e k = Some x \<Longrightarrow> objectKey (ccMeta cc x) = k"
    and get_found: "view (env w) k = Some x \<Longrightarrow> \<exists>w'. run_state (ccGet cc k) w = (Inr x, w') \<and> env w' = env w"
    and get_missing: "view (env w) k = None \<Longrightarrow> \<exists>e w'. run_state (ccGet cc k) w = (Inl e, w') \<and> isNotFound e \<and> env w' = env w"
    and create_stores: "run_state (ccCreate cc d) w = (Inr x, w') \<Longrightarrow>
        view (env w') (objectKey (ccMeta cc d)) = Some x \<and> childMatches cc x d ops"
    and patch_stores: "run_state (ccPatch cc b n) w = (Inr x, w') \<Longrightarrow> objectKey (ccMeta cc n) = objectKey (ccMeta cc b) \<Longrightarrow>
        view (env w') (objectKey (ccMeta cc b)) = Some x \<and> childMatches cc x n ops"
    and apply_meta: "ccMeta cc (opApply ops x d) = ccMeta cc x"
    and apply_equal: "opEqual ops x (opApply ops y d) = opEqual ops x d"
begin

lemma childMatches_patched: "childMatches cc x (patchedChild cc y d ops) ops = childMatches cc x d ops"
  by (simp add: childMatches_def patchedChild_def apply_meta apply_equal meta_set)

lemma get_view:
  assumes "run_state (ccGet cc k) w = (Inr x, w')"
  shows "view (env w) k = Some x \<and> env w' = env w"
proof (cases "view (env w) k")
  case None
  with get_missing [of w k] assms show ?thesis by auto
next
  case (Some y)
  with get_found [of w k y] assms show ?thesis by auto
qed

text \<open>A successful ensure leaves the wanted child stored.\<close>

lemma ensureChild_stores:
  assumes run: "run_state (ensureChild L cc rs desired ops) w = (Inr x, w')"
  shows "view (env w') (objectKey (ccMeta cc desired)) = Some x \<and> childMatches cc x desired ops"
proof -
  obtain a w1 where get: "run_state (ccGet cc (objectKey (ccMeta cc desired))) w = (a, w1)"
    by (cases "run_state (ccGet cc (objectKey (ccMeta cc desired))) w") auto
  show ?thesis
  proof (cases a)
    case (Inl e)
    with run get have "run_state (ccCreate cc desired) w1 = (Inr x, w')"
      by (auto simp: ensureChild_def split: if_splits)
    then show ?thesis by (rule create_stores)
  next
    case (Inr current)
    with get have cur: "view (env w1) (objectKey (ccMeta cc desired)) = Some current"
      using get_view by fastforce
    note key = view_key [OF this]
    have "x = current \<and> w' = w1 \<and> childMatches cc current desired ops \<or>
        run_state (ccPatch cc current (patchedChild cc current desired ops)) w1 = (Inr x, w')"
      using run get Inr by (auto simp: ensureChild_def split: if_splits)
    then show ?thesis
    proof
      assume "run_state (ccPatch cc current (patchedChild cc current desired ops)) w1 = (Inr x, w')"
      from patch_stores [OF this] key show ?thesis
        by (simp add: childMatches_patched) (simp add: patchedChild_def apply_meta meta_set)
    qed (use cur in auto)
  qed
qed

lemma ensureChild_settled:
  assumes "view (env w) (objectKey (ccMeta cc desired)) = Some x" "childMatches cc x desired ops"
    and "ownedBySet L rs (omLabels (ccMeta cc desired))"
  shows "\<exists>w'. run_state (ensureChild L cc rs desired ops) w = (Inr x, w') \<and> env w' = env w \<and>
    trace w' = trace w @ [GetChild kind (objectKey (ccMeta cc desired)) (Inr (mk x))]"
proof -
  from get_found [OF assms(1)] obtain w' where
    w': "run_state (ccGet cc (objectKey (ccMeta cc desired))) w = (Inr x, w')" "env w' = env w" by blast
  have "trace w' = trace w @ [GetChild kind (objectKey (ccMeta cc desired)) (Inr (mk x))]"
    using get_emits w'(1) by (rule emitsD) simp
  moreover have "ownedBySet L rs (omLabels (ccMeta cc x))"
    using assms(2,3) by (simp add: childMatches_def)
  ultimately show ?thesis using w' assms(2) by (auto simp: ensureChild_def)
qed

lemma ensureChild_converges:
  assumes "run_state (ensureChild L cc rs desired ops) w = (Inr x, w1)"
    and "ownedBySet L rs (omLabels (ccMeta cc desired))"
  shows "\<exists>w2. run_state (ensureChild L cc rs desired ops) w1 = (Inr x, w2) \<and> env w2 = env w1 \<and>
    trace w2 = trace w1 @ [GetChild kind (objectKey (ccMeta cc desired)) (Inr (mk x))]"
  using ensureChild_settled ensureChild_stores [OF assms(1)] assms(2) by blast

end

section \<open>The hub is a store\<close>

lemma hubFind_key: "hubFind meta xs k = Some x \<Longrightarrow> objectKey (meta x) = k"
  by (auto simp: hubFind_def find_Some_iff)

lemma hubFind_append: "hubFind meta xs (objectKey (meta x)) = None \<Longrightarrow> hubFind meta (xs @ [x]) (objectKey (meta x)) = Some x"
  by (induction xs) (auto simp: hubFind_def split: if_splits)

lemma hubCreate_find:
  "hubCreate meta x xs = (Inr y, ys) \<Longrightarrow> y = x \<and> hubFind meta ys (objectKey (meta x)) = Some x"
  using hubFind_append [of meta xs x] by (auto simp: hubCreate_def split: option.splits)

lemma hubFind_replace:
  "hubFind meta xs (objectKey (meta x)) \<noteq> None \<Longrightarrow>
   hubFind meta (map (\<lambda>y. if objectKey (meta y) = objectKey (meta x) then x else y) xs) (objectKey (meta x)) = Some x"
  by (induction xs) (auto simp: hubFind_def split: if_splits)

lemma hubPatch_find:
  "hubPatch meta x xs = (Inr y, ys) \<Longrightarrow> y = x \<and> hubFind meta ys (objectKey (meta x)) = Some x"
  using hubFind_replace [of meta xs x] by (auto simp: hubPatch_def split: option.splits)

lemma rawExtensionJSON_stored:
  assumes "json_library L"
  shows "\<exists>b. rawExtensionJSON L m = Some b \<and> rawExtensionJSON L (storedManifest L m) = Some b"
proof (cases "mfRaw m = [] \<and> mfObject m \<noteq> None")
  case True
  then obtain ob b where "mfObject m = Some ob" "json_Marshal L ob = Some b" "b \<noteq> []"
    using json_library.Marshal_total [OF assms] by blast
  with True show ?thesis by (simp add: rawExtensionJSON_def storedManifest_def)
next
  case False
  then show ?thesis by (auto simp: rawExtensionJSON_def storedManifest_def split: option.splits)
qed

lemma rawExtensionsEqual_stored:
  assumes "json_library L"
  shows "rawExtensionsEqual L (storedManifest L m) m"
  using rawExtensionJSON_stored [OF assms, of m] by (auto simp: rawExtensionsEqual_def)

lemma storedWork_equal:
  assumes "json_library L"
  shows "manifestWorkSpecsEqual L (workSpec (storedWork L w)) (workSpec w)"
  using rawExtensionsEqual_stored [OF assms]
  by (simp add: manifestWorkSpecsEqual_def storedWork_def list_all2_conv_all_nth)

lemma storedWork_meta [simp]: "workMeta (storedWork L w) = workMeta w"
  by (simp add: storedWork_def)

lemma hub_msa_runs:
  "run_state (ccGet (msaClient (hubReconciler L)) k) w = (hubGet msaMeta (hubMSAs (env w)) k,
     w\<lparr>trace := trace w @ [GetChild MSAKind k (map_sum id MSA (hubGet msaMeta (hubMSAs (env w)) k))]\<rparr>)"
  "run_state (ccCreate (msaClient (hubReconciler L)) d) w = (Inr x, w') \<Longrightarrow>
     hubCreate msaMeta d (hubMSAs (env w)) = (Inr x, hubMSAs (env w'))"
  "run_state (ccPatch (msaClient (hubReconciler L)) b d) w = (Inr x, w') \<Longrightarrow>
     hubPatch msaMeta d (hubMSAs (env w)) = (Inr x, hubMSAs (env w'))"
  by (auto simp: msaClient_def call_def hubServer_def split: prod.splits)

lemma hub_work_runs:
  "run_state (ccGet (workClient (hubReconciler L)) k) w = (hubGet workMeta (hubWorks (env w)) k,
     w\<lparr>trace := trace w @ [GetChild WorkKind k (map_sum id Work (hubGet workMeta (hubWorks (env w)) k))]\<rparr>)"
  "run_state (ccCreate (workClient (hubReconciler L)) d) w = (Inr x, w') \<Longrightarrow>
     hubCreate workMeta (storedWork L d) (hubWorks (env w)) = (Inr x, hubWorks (env w'))"
  "run_state (ccPatch (workClient (hubReconciler L)) b d) w = (Inr x, w') \<Longrightarrow>
     hubPatch workMeta (storedWork L d) (hubWorks (env w)) = (Inr x, hubWorks (env w'))"
  by (auto simp: workClient_def call_def hubServer_def split: prod.splits)

interpretation hubMSA: child_store "msaClient (hubReconciler L)" MSA MSAKind msaSpecOps
  "\<lambda>e. hubFind msaMeta (hubMSAs e)" for L
proof (unfold_locales, goal_cases)
  case (4 d w x w')
  from hubCreate_find [OF hub_msa_runs(2) [OF this]] show ?case
    by (simp add: childMatches_def msaSpecOps_def)
next
  case (5 b n w x w')
  from hubPatch_find [OF hub_msa_runs(3) [OF 5(1)]] 5(2) show ?case
    by (simp add: childMatches_def msaSpecOps_def)
qed (simp_all add: hubFind_key hub_msa_runs(1) hubGet_def msaSpecOps_def)

lemma hubWork_store:
  assumes "json_library L"
  shows "child_store (workClient (hubReconciler L)) Work WorkKind (manifestWorkSpecOps L)
    (\<lambda>e. hubFind workMeta (hubWorks e))"
proof (unfold_locales, goal_cases)
  case (4 d w x w')
  from hubCreate_find [OF hub_work_runs(2) [OF this]] show ?case
    by (simp add: childMatches_def manifestWorkSpecOps_def storedWork_equal [OF assms])
next
  case (5 b n w x w')
  from hubPatch_find [OF hub_work_runs(3) [OF 5(1)]] 5(2) show ?case
    by (simp add: childMatches_def manifestWorkSpecOps_def storedWork_equal [OF assms])
qed (simp_all add: hubFind_key hub_work_runs(1) hubGet_def manifestWorkSpecOps_def)

interpretation hubWork: child_store "workClient (hubReconciler ref_lib)" Work WorkKind "manifestWorkSpecOps ref_lib"
  "\<lambda>e. hubFind workMeta (hubWorks e)"
  by (rule hubWork_store [OF ref.json_library_axioms])

section \<open>Example data\<close>

definition sampleSlice :: rbacSlice where
  "sampleSlice = \<lparr>slName = ''viewer-rbac-cluster'', slSliceType = rbacClusterSliceType, slTargetNamespace = [],
     slManifests = renderClusterGrant ref_lib sampleSet sampleClusterGrant (grantSubject sampleSet),
     slManifestsHash = ''0123456789abcdef''\<rparr>"

section \<open>Properties\<close>

text \<open>
  Ensuring converges. Against a hub that nobody else writes, once ensuring the ManifestWork
  of an RBAC slice has succeeded, ensuring it again returns the same object, reads it once and
  writes nothing, although the stored manifests are raw JSON and the wanted ones are objects.
\<close>

theorem ensureManifestWork_converges:
  assumes "json_library L" "label_library L"
    and "run_state (ensureManifestWork (hubReconciler L) rs c ref sl) w = (Inr x, w1)"
  shows "\<exists>w2. run_state (ensureManifestWork (hubReconciler L) rs c ref sl) w1 = (Inr x, w2) \<and> env w2 = env w1 \<and>
    trace w2 = trace w1 @ [GetChild WorkKind (c, slName sl) (Inr (Work x))]"
  using child_store.ensureChild_converges [OF hubWork_store [OF assms(1)]
      assms(3) [unfolded ensureManifestWork_def hubReconciler_simps(1)]]
    label_library.buildManifestWork_owned [OF assms(2)]
  by (simp add: ensureManifestWork_def)

theorem ensureManifestWork_converges_witness:
  "\<exists>x w1 w2. run_state (ensureManifestWork (hubReconciler ref_lib) sampleSet ''c1'' ''all'' sampleSlice)
       (sampleWorld emptyHub) = (Inr x, w1) \<and>
     run_state (ensureManifestWork (hubReconciler ref_lib) sampleSet ''c1'' ''all'' sampleSlice) w1 = (Inr x, w2) \<and>
     length (hubWorks (env w1)) = 1 \<and> env w2 = env w1 \<and>
     trace w2 = trace w1 @ [GetChild WorkKind (''c1'', ''viewer-rbac-cluster'') (Inr (Work x))]"
proof -
  let ?m = "ensureManifestWork (hubReconciler ref_lib) sampleSet ''c1'' ''all'' sampleSlice"
  have "\<exists>x w1. run_state ?m (sampleWorld emptyHub) = (Inr x, w1) \<and> length (hubWorks (env w1)) = 1"
    by (simp add: ensureManifestWork_def ensureChild_def hub_work_runs(1) hubGet_def hubFind_def sampleWorld_def
        emptyHub_def) (simp add: workClient_def call_def hubServer_def hubCreate_def hubFind_def)
  then obtain x w1 where run: "run_state ?m (sampleWorld emptyHub) = (Inr x, w1)" "length (hubWorks (env w1)) = 1" by blast
  from ensureManifestWork_converges [OF ref.json_library_axioms ref.label_library_axioms run(1)] run
  show ?thesis by (auto simp: sampleSlice_def)
qed

end
