(* ===== verification/Teardown.thy ===== *)
theory Teardown
  imports Manager Convergence
begin

text \<open>
  That deleting a set comes to an end. Against every server a pass of \<^const>\<open>reconcileDelete\<close> that reports no
  error either comes back later or has seen both child lists empty and given up the finalizer; and on
  a server that finishes the deletions it is asked for, the children and the finalizer go. The locale
  \<open>deleting_server\<close> is what the server promises of reads, patches and deletions, which may remove an object or only mark it;
  \<open>deleting_pauses\<close> is what may happen between two reconciliations; \<open>deleting_hub\<close> adds the reconciler with its janitor.
  They are interpreted on the concrete hub, which deletes at once, and on the program wired with its resolver to a hub
  whose objects stay terminating until an agent is done with them.
\<close>

section \<open>Not stuck\<close>

text \<open>What a pass that reports no error has achieved.\<close>

definition unstuck :: "replicaSet \<Rightarrow> replicaSet \<times> ctrlResult \<times> go_error option \<Rightarrow> api_event list \<Rightarrow> bool" where
  "unstuck rs = (\<lambda>(rs', res, err) es. case err of
     Some e \<Rightarrow> res = ctrlResult_zero
   | None \<Rightarrow> resRequeueAfter res = cleanupRequeueInterval \<or>
       ListChildren WorkKind (ownedSelector rs) (Inr []) \<in> set es \<and> ListChildren MSAKind (ownedSelector rs) (Inr []) \<in> set es \<and>
       (finalizerName \<notin> set (omFinalizers (setMeta rs)) \<or>
        PatchSet rs (withFinalizers rs (filter (\<lambda>f. f \<noteq> finalizerName) (omFinalizers (setMeta rs)))) (Inr rs') \<in> set es))"

lemma unstuck_error [simp]: "unstuck rs (rs', ctrlResult_zero, Some err) es"
  by (simp add: unstuck_def)

lemma waitForCleanup_unstuck: "emits (waitForCleanup R rs a b) (\<lambda>r es. unstuck rs r (pre @ es))"
  unfolding waitForCleanup_def Let_def patchStatus_def patchSetStatus_def
  by (auto intro!: emits_return emits_bind_call simp: unstuck_def split: sum.split)

lemma removeFinalizerStep_unstuck:
  assumes "finalizer_library (rLib R)" "ListChildren WorkKind (ownedSelector rs) (Inr []) \<in> set pre"
    "ListChildren MSAKind (ownedSelector rs) (Inr []) \<in> set pre"
  shows "emits (removeFinalizerStep R rs) (\<lambda>r es. unstuck rs r (pre @ es))"
  unfolding removeFinalizerStep_def finalizer_library.RemoveFinalizer [OF assms(1)] Let_def prod.case patchSet_def
  using assms(2,3) by (auto intro!: emits_return emits_bind_call simp: unstuck_def withFinalizers_def split: sum.split)

lemma deleteRemainingMSAs_unstuck:
  assumes "finalizer_library (rLib R)" "ListChildren WorkKind (ownedSelector rs) (Inr []) \<in> set pre"
  shows "emits (deleteRemainingMSAs R rs) (\<lambda>r es. unstuck rs r (pre @ es))"
proof -
  have rest: "emits (do { joined \<leftarrow> deleteAll (deleteMSA R) xs None;
      case joined of Some err \<Rightarrow> return (rs, ctrlResult_zero, Some err)
      | None \<Rightarrow> if length items > 0 then waitForCleanup R rs 0 (length items) else removeFinalizerStep R rs })
      (\<lambda>r es. unstuck rs r (pre @ ListChildren MSAKind (ownedSelector rs) (Inr (map MSA items)) # es))" for xs items
  proof (rule emits_bind [OF msas.deleteAll_emits])
    fix joined es
    show "emits (case joined of Some err \<Rightarrow> return (rs, ctrlResult_zero, Some err)
      | None \<Rightarrow> if length items > 0 then waitForCleanup R rs 0 (length items) else removeFinalizerStep R rs)
      (\<lambda>r es'. unstuck rs r (pre @ ListChildren MSAKind (ownedSelector rs) (Inr (map MSA items)) # es @ es'))"
      using waitForCleanup_unstuck [of R rs 0 "length items" "pre @ ListChildren MSAKind (ownedSelector rs) (Inr (map MSA items)) # es"]
        removeFinalizerStep_unstuck [OF assms(1), of rs "pre @ ListChildren MSAKind (ownedSelector rs) (Inr (map MSA items)) # es"] assms(2)
      by (auto intro!: emits_return split: option.split)
  qed
  show ?thesis
    unfolding deleteRemainingMSAs_def generatedChildListOptions_def listMSAs_def
    by (rule emits_bind_call, split sum.split) (use rest in \<open>auto simp: emits_return simp del: length_greater_0_conv\<close>)
qed

lemma reconcileDelete_unstuck:
  assumes "finalizer_library (rLib R)"
  shows "emits (reconcileDelete R rs) (unstuck rs)"
proof -
  have rest: "emits (do { joined \<leftarrow> deleteAll (deleteWork R) xs None;
      case joined of Some err \<Rightarrow> return (rs, ctrlResult_zero, Some err)
      | None \<Rightarrow> if length items > 0 then waitForCleanup R rs (length items) 0 else deleteRemainingMSAs R rs })
      (\<lambda>r es. unstuck rs r (ListChildren WorkKind (ownedSelector rs) (Inr (map Work items)) # es))" for xs items
  proof (rule emits_bind [OF works.deleteAll_emits])
    fix joined es
    show "emits (case joined of Some err \<Rightarrow> return (rs, ctrlResult_zero, Some err)
      | None \<Rightarrow> if length items > 0 then waitForCleanup R rs (length items) 0 else deleteRemainingMSAs R rs)
      (\<lambda>r es'. unstuck rs r (ListChildren WorkKind (ownedSelector rs) (Inr (map Work items)) # es @ es'))"
      using waitForCleanup_unstuck [of R rs "length items" 0 "ListChildren WorkKind (ownedSelector rs) (Inr (map Work items)) # es"]
        deleteRemainingMSAs_unstuck [OF assms, of rs "ListChildren WorkKind (ownedSelector rs) (Inr (map Work items)) # es"]
      by (auto intro!: emits_return split: option.split)
  qed
  show ?thesis
    unfolding reconcileDelete_def generatedChildListOptions_def listWorks_def
    by (rule emits_bind_call, split sum.split) (use rest in \<open>auto simp: emits_return simp del: length_greater_0_conv\<close>)
qed

section \<open>A server that finishes deletions\<close>

text \<open>A patch keeps identity, finalizers as sent, and the deletion timestamp.\<close>

definition likeSet :: "replicaSet \<Rightarrow> replicaSet \<Rightarrow> bool" where
  "likeSet rs rs' \<longleftrightarrow> sameSet rs rs' \<and> omFinalizers (setMeta rs') = omFinalizers (setMeta rs) \<and>
     omDeletionTimestamp (setMeta rs') = omDeletionTimestamp (setMeta rs)"

text \<open>
  One child kind: a deletion removes the object, marks it as terminating, or finds it gone. What is not
  marked afterwards was there before, under another key; nothing else is touched.
\<close>

locale deleted_kind =
  fixes del :: "'t \<Rightarrow> ('e, go_error option) prog" and keyOf :: "'t \<Rightarrow> key" and unmarked :: "'t \<Rightarrow> bool"
    and items :: "'e \<Rightarrow> 't list" and rest :: "'e \<Rightarrow> 'r"
  assumes del_run: "run_state (del x) w = (r, w') \<Longrightarrow> ignoreNotFound r = None \<and> rest (env w') = rest (env w) \<and>
    (\<forall>y \<in> set (items (env w')). unmarked y \<longrightarrow> y \<in> set (items (env w)) \<and> keyOf y \<noteq> keyOf x)"
begin

lemma deleteAll_run:
  "\<exists>w'. run_state (deleteAll del xs None) w = (None, w') \<and> rest (env w') = rest (env w) \<and>
     (\<forall>y \<in> set (items (env w')). unmarked y \<longrightarrow> y \<in> set (items (env w)) \<and> keyOf y \<notin> keyOf ` set xs)"
proof (induction xs arbitrary: w)
  case Nil
  show ?case by (simp add: deleteAll_def)
next
  case (Cons x xs)
  obtain r w1 where d: "run_state (del x) w = (r, w1)" by (cases "run_state (del x) w") auto
  have "run_state (deleteAll del (x # xs) None) w = run_state (deleteAll del xs None) w1"
    using del_run [OF d] by (simp add: deleteAll_def d joinDeleteErr_def)
  with Cons.IH [of w1] del_run [OF d] show ?case by auto
qed

text \<open>Deleting what is not yet under deletion leaves only objects under deletion, and nothing where there was nothing.\<close>

lemma deleteAll_marks:
  "\<exists>w'. run_state (deleteAll del (filter unmarked (items (env w))) None) w = (None, w') \<and> rest (env w') = rest (env w) \<and>
     (\<forall>y \<in> set (items (env w')). \<not> unmarked y) \<and> (items (env w) = [] \<longrightarrow> items (env w') = [])"
proof (cases "items (env w) = []")
  case True
  then show ?thesis by (simp add: deleteAll_def)
next
  case False
  with deleteAll_run [of "filter unmarked (items (env w))" w] show ?thesis by force
qed

end

text \<open>
  What the server promises about a set and its children, as \<open>stored\<close>, \<open>worksOf\<close> and \<open>msasOf\<close> see them: reads
  answer them and change nothing, deletions go as above, a patch of a stored set succeeds and
  keeps it alike, except that a set patched to have no finalizer may be gone.
\<close>

locale deleting_server =
  fixes S :: "'e server" and stored :: "'e \<Rightarrow> key \<Rightarrow> replicaSet option"
    and worksOf :: "'e \<Rightarrow> selector \<Rightarrow> manifestWork list" and msasOf :: "'e \<Rightarrow> selector \<Rightarrow> managedServiceAccount list"
  assumes get_set: "srvGetSet S k e = (r1, e') \<Longrightarrow>
      (case stored e k of None \<Rightarrow> isl r1 | Some rs \<Rightarrow> r1 = Inr rs) \<and> stored e' = stored e \<and> worksOf e' = worksOf e \<and> msasOf e' = msasOf e"
    and list_works: "srvListWorks S sel e = (r2, e') \<Longrightarrow>
      r2 = Inr (worksOf e sel) \<and> stored e' = stored e \<and> worksOf e' = worksOf e \<and> msasOf e' = msasOf e"
    and list_msas: "srvListMSAs S sel e = (r3, e') \<Longrightarrow>
      r3 = Inr (msasOf e sel) \<and> stored e' = stored e \<and> worksOf e' = worksOf e \<and> msasOf e' = msasOf e"
    and delete_work: "srvDeleteWork S v e = (r4, e') \<Longrightarrow> ignoreNotFound r4 = None \<and> stored e' = stored e \<and> msasOf e' = msasOf e \<and>
      (\<forall>y \<in> set (worksOf e' sel). deletionTimestamp_IsZero (workMeta y) \<longrightarrow>
         y \<in> set (worksOf e sel) \<and> objectKey (workMeta y) \<noteq> objectKey (workMeta v))"
    and delete_msa: "srvDeleteMSA S m e = (r4, e') \<Longrightarrow> ignoreNotFound r4 = None \<and> stored e' = stored e \<and> worksOf e' = worksOf e \<and>
      (\<forall>y \<in> set (msasOf e' sel). deletionTimestamp_IsZero (msaMeta y) \<longrightarrow>
         y \<in> set (msasOf e sel) \<and> objectKey (msaMeta y) \<noteq> objectKey (msaMeta m))"
    and patch_status: "stored e (objectKey (setMeta s)) \<noteq> None \<Longrightarrow> srvPatchStatus S b s e = (r1, e') \<Longrightarrow>
      \<exists>s'. r1 = Inr s' \<and> stored e' (objectKey (setMeta s)) = Some s' \<and> likeSet s s' \<and> worksOf e' = worksOf e \<and> msasOf e' = msasOf e"
    and patch_set: "stored e (objectKey (setMeta s)) \<noteq> None \<Longrightarrow> srvPatchSet S b s e = (r1, e') \<Longrightarrow>
      \<exists>s'. r1 = Inr s' \<and> likeSet s s' \<and> worksOf e' = worksOf e \<and> msasOf e' = msasOf e \<and>
        (stored e' (objectKey (setMeta s)) = Some s' \<or> stored e' (objectKey (setMeta s)) = None \<and> omFinalizers (setMeta s) = [])"

text \<open>The promise survives the wiring of the manager, where other goroutines move after every call.\<close>

lemma deleting_liftServer:
  assumes "deleting_server S stored worksOf msasOf" and mw: "\<And>e s. fst (mw e s) = e"
  shows "deleting_server (liftServer mw S) (\<lambda>m. stored (fst m)) (\<lambda>m. worksOf (fst m)) (\<lambda>m. msasOf (fst m))"
proof -
  have lifted: "\<exists>e1. f (fst m) = (r, e1) \<and> fst m' = e1" if "liftCall mw f m = (r, m')" for f m r m'
    using that mw by (auto simp: liftCall_def split: prod.splits)
  show ?thesis
  proof (rule deleting_server.intro, unfold liftServer_def server.simps, goal_cases)
    case 1 from lifted [OF 1] deleting_server.get_set [OF assms(1)] show ?case by metis
  next
    case 2 from lifted [OF 2] deleting_server.list_works [OF assms(1)] show ?case by metis
  next
    case 3 from lifted [OF 3] deleting_server.list_msas [OF assms(1)] show ?case by metis
  next
    case 4 from lifted [OF 4] deleting_server.delete_work [OF assms(1)] show ?case by metis
  next
    case 5 from lifted [OF 5] deleting_server.delete_msa [OF assms(1)] show ?case by metis
  next
    case 6 from lifted [OF 6(2)] deleting_server.patch_status [OF assms(1) 6(1)] show ?case by metis
  next
    case 7 from lifted [OF 7(2)] deleting_server.patch_set [OF assms(1) 7(1)] show ?case by metis
  qed
qed

text \<open>
  Between two reconciliations a pause goes by: no child appears, the set stays, under deletion, as long as it has
  the finalizer, nobody else gives or takes that, and a set that is gone stays gone. In a pause that is
  finishing the children that were terminating before it are gone after it.
\<close>

locale deleting_pauses =
  fixes stored :: "'e \<Rightarrow> key \<Rightarrow> replicaSet option"
    and worksOf :: "'e \<Rightarrow> selector \<Rightarrow> manifestWork list" and msasOf :: "'e \<Rightarrow> selector \<Rightarrow> managedServiceAccount list"
    and pause :: "bool \<Rightarrow> 'e \<Rightarrow> 'e \<Rightarrow> bool"
  assumes pause_works: "pause finishing e e' \<Longrightarrow> v \<in> set (worksOf e' sel) \<Longrightarrow>
      \<exists>u \<in> set (worksOf e sel). objectKey (workMeta u) = objectKey (workMeta v) \<and> (finishing \<longrightarrow> deletionTimestamp_IsZero (workMeta u))"
    and pause_msas: "pause finishing e e' \<Longrightarrow> m \<in> set (msasOf e' sel) \<Longrightarrow>
      \<exists>u \<in> set (msasOf e sel). objectKey (msaMeta u) = objectKey (msaMeta m) \<and> (finishing \<longrightarrow> deletionTimestamp_IsZero (msaMeta u))"
    and pause_gone: "pause finishing e e' \<Longrightarrow> stored e k = None \<Longrightarrow> stored e' k = None"
    and pause_set: "pause finishing e e' \<Longrightarrow> stored e k = Some s \<Longrightarrow> \<not> deletionTimestamp_IsZero (setMeta s) \<Longrightarrow>
      (case stored e' k of None \<Rightarrow> finalizerName \<notin> set (omFinalizers (setMeta s))
       | Some s' \<Rightarrow> sameSet s s' \<and> \<not> deletionTimestamp_IsZero (setMeta s') \<and>
           (finalizerName \<in> set (omFinalizers (setMeta s')) \<longleftrightarrow> finalizerName \<in> set (omFinalizers (setMeta s))))"

text \<open>A reconciler on such a server, whose janitor, if it has one, does not touch the set or its children.\<close>

locale deleting_hub = deleting_server "rServer R" stored worksOf msasOf + deleting_pauses stored worksOf msasOf pause
  for R :: "'e reconciler" and stored :: "'e \<Rightarrow> key \<Rightarrow> replicaSet option"
    and worksOf :: "'e \<Rightarrow> selector \<Rightarrow> manifestWork list" and msasOf :: "'e \<Rightarrow> selector \<Rightarrow> managedServiceAccount list"
    and pause :: "bool \<Rightarrow> 'e \<Rightarrow> 'e \<Rightarrow> bool" +
  assumes finalizers: "finalizer_library (rLib R)"
    and janitor: "rJanitor R = Some j \<Longrightarrow>
      stored (j s keep e) = stored e \<and> worksOf (j s keep e) = worksOf e \<and> msasOf (j s keep e) = msasOf e"

text \<open>The program as \<^verbatim>\<open>main\<close> wires it, with or without the resolver, is one when the manager's server is.\<close>

lemma wired_deleting_hub:
  assumes "setupReconciler M file = Inr (R, s0)" "\<And>e s. fst (mgMeanwhile M e s) = e"
    and "finalizer_library (mgLib M)" "deleting_server (mgServer M) stored worksOf msasOf" "deleting_pauses stored worksOf msasOf pause"
  shows "deleting_hub R (\<lambda>m. stored (fst m)) (\<lambda>m. worksOf (fst m)) (\<lambda>m. msasOf (fst m)) (\<lambda>finishing m m'. pause finishing (fst m) (fst m'))"
proof -
  obtain resolver where "SetupWithManager M resolver = Inr (R, s0)" using assms(1) by (cases rule: setupReconciler_cases) auto
  note fields = SetupWithManager_fields [OF this]
  show ?thesis
  proof (intro deleting_hub.intro deleting_hub_axioms.intro)
    show "deleting_server (rServer R) (\<lambda>m. stored (fst m)) (\<lambda>m. worksOf (fst m)) (\<lambda>m. msasOf (fst m))"
      unfolding fields(2) by (rule deleting_liftServer [OF assms(4,2)])
    show "deleting_pauses (\<lambda>m. stored (fst m)) (\<lambda>m. worksOf (fst m)) (\<lambda>m. msasOf (fst m)) (\<lambda>finishing m m'. pause finishing (fst m) (fst m'))"
      using assms(5) unfolding deleting_pauses_def by simp
    show "finalizer_library (rLib R)" using assms(3) fields(1) by simp
  qed (auto simp: fields(5) janitorCall_def)
qed

sublocale deleting_hub \<subseteq> workKind: deleted_kind "deleteWork R" "\<lambda>v. objectKey (workMeta v)"
  "\<lambda>v. deletionTimestamp_IsZero (workMeta v)" "\<lambda>e. worksOf e sel" "\<lambda>e. (stored e, msasOf e)" for sel
  using delete_work by unfold_locales (auto simp: deleteWork_def call_def split: prod.splits)

sublocale deleting_hub \<subseteq> msaKind: deleted_kind "deleteMSA R" "\<lambda>m. objectKey (msaMeta m)"
  "\<lambda>m. deletionTimestamp_IsZero (msaMeta m)" "\<lambda>e. msasOf e sel" "\<lambda>e. (stored e, worksOf e)" for sel
  using delete_msa by unfold_locales (auto simp: deleteMSA_def call_def split: prod.splits)

context deleting_hub
begin

text \<open>The set is still held by the finalizer; or it is given up, with no child left.\<close>

definition held :: "replicaSet \<Rightarrow> 'e \<Rightarrow> bool" where
  "held rs e \<longleftrightarrow> (\<exists>s. stored e (objectKey (setMeta rs)) = Some s \<and> sameSet rs s \<and> \<not> deletionTimestamp_IsZero (setMeta s) \<and>
     finalizerName \<in> set (omFinalizers (setMeta s)))"

definition released :: "replicaSet \<Rightarrow> 'e \<Rightarrow> bool" where
  "released rs e \<longleftrightarrow> worksOf e (ownedSelector rs) = [] \<and> msasOf e (ownedSelector rs) = [] \<and>
     (\<forall>s. stored e (objectKey (setMeta rs)) = Some s \<longrightarrow>
        sameSet rs s \<and> \<not> deletionTimestamp_IsZero (setMeta s) \<and> finalizerName \<notin> set (omFinalizers (setMeta s)))"

text \<open>What one reconciliation makes of the state before it.\<close>

definition advanced :: "replicaSet \<Rightarrow> 'e \<Rightarrow> 'e \<Rightarrow> bool" where
  "advanced rs e e' \<longleftrightarrow>
     (if worksOf e (ownedSelector rs) \<noteq> []
      then held rs e' \<and> (\<forall>v \<in> set (worksOf e' (ownedSelector rs)). \<not> deletionTimestamp_IsZero (workMeta v))
      else if msasOf e (ownedSelector rs) \<noteq> []
      then held rs e' \<and> worksOf e' (ownedSelector rs) = [] \<and>
        (\<forall>m \<in> set (msasOf e' (ownedSelector rs)). \<not> deletionTimestamp_IsZero (msaMeta m))
      else released rs e')"

abbreviation sees :: "'e \<Rightarrow> 'e \<Rightarrow> bool" where
  "sees e e' \<equiv> stored e' = stored e \<and> worksOf e' = worksOf e \<and> msasOf e' = msasOf e"

lemma sees_cong:
  assumes "sees e e'"
  shows "held rs e' = held rs e" "released rs e' = released rs e" "advanced rs e' = advanced rs e" "advanced rs d e' = advanced rs d e"
  using assms by (simp_all add: held_def released_def advanced_def fun_eq_iff)

lemma waitForCleanup_run:
  assumes "stored (env w) (objectKey (setMeta rs)) = Some rs"
  shows "\<exists>x w'. run_state (waitForCleanup R rs a b) w = (x, w') \<and> worksOf (env w') = worksOf (env w) \<and> msasOf (env w') = msasOf (env w) \<and>
    (\<exists>s. stored (env w') (objectKey (setMeta rs)) = Some s \<and> likeSet rs s)"
proof -
  have "\<exists>x w'. run_state (patchStatus R rs st) w = ((x, None), w') \<and> worksOf (env w') = worksOf (env w) \<and> msasOf (env w') = msasOf (env w) \<and>
      (\<exists>s. stored (env w') (objectKey (setMeta rs)) = Some s \<and> likeSet rs s)" for st
  proof (cases "setStatus rs = st")
    case True
    then show ?thesis using assms by (simp add: patchStatus_def likeSet_def)
  next
    case False
    let ?s = "rs\<lparr>setStatus := st\<rparr>"
    obtain r e' where p: "srvPatchStatus (rServer R) rs ?s (env w) = (r, e')" by (cases "srvPatchStatus (rServer R) rs ?s (env w)") auto
    with patch_status [OF _ p] assms False show ?thesis
      by (auto simp: patchStatus_def patchSetStatus_def call_def likeSet_def sameSet_def)
  qed
  note patched = this
  have "\<exists>x w'. run_state (patchStatus R rs st \<bind> (\<lambda>(rs', err). if err \<noteq> None then return (rs', ctrlResult_zero, err)
      else return (rs', \<lparr>resRequeueAfter = cleanupRequeueInterval\<rparr>, None))) w = (x, w') \<and>
      worksOf (env w') = worksOf (env w) \<and> msasOf (env w') = msasOf (env w) \<and>
      (\<exists>s. stored (env w') (objectKey (setMeta rs)) = Some s \<and> likeSet rs s)" for st
    using patched [of st] by auto
  then show ?thesis by (simp only: waitForCleanup_def Let_def)
qed

lemma removeFinalizerStep_run:
  assumes "stored (env w) (objectKey (setMeta rs)) = Some rs" "\<not> deletionTimestamp_IsZero (setMeta rs)"
    "worksOf (env w) (ownedSelector rs) = []" "msasOf (env w) (ownedSelector rs) = []"
  shows "\<exists>x w'. run_state (removeFinalizerStep R rs) w = (x, w') \<and> released rs (env w')"
proof (cases "finalizerName \<in> set (omFinalizers (setMeta rs))")
  case False
  then show ?thesis
    using assms by (simp add: removeFinalizerStep_def finalizer_library.RemoveFinalizer [OF finalizers] released_def)
next
  case True
  let ?s = "rs\<lparr>setMeta := (setMeta rs)\<lparr>omFinalizers := filter (\<lambda>f. f \<noteq> finalizerName) (omFinalizers (setMeta rs))\<rparr>\<rparr>"
  obtain r e' where p: "srvPatchSet (rServer R) rs ?s (env w) = (r, e')" by (cases "srvPatchSet (rServer R) rs ?s (env w)") auto
  obtain s' where "r = Inr s'" "likeSet ?s s'" "worksOf e' = worksOf (env w)" "msasOf e' = msasOf (env w)"
    "stored e' (objectKey (setMeta rs)) = Some s' \<or> stored e' (objectKey (setMeta rs)) = None"
    using patch_set [OF _ p] assms(1) by auto
  with True p assms show ?thesis
    by (auto simp: removeFinalizerStep_def finalizer_library.RemoveFinalizer [OF finalizers] patchSet_def call_def Let_def
        released_def likeSet_def sameSet_def deletionTimestamp_IsZero_def)
qed

lemma heldI:
  "stored e (objectKey (setMeta rs)) = Some s \<Longrightarrow> likeSet rs s \<Longrightarrow> \<not> deletionTimestamp_IsZero (setMeta rs) \<Longrightarrow>
   finalizerName \<in> set (omFinalizers (setMeta rs)) \<Longrightarrow> held rs e"
  by (simp add: held_def likeSet_def deletionTimestamp_IsZero_def)

lemma deleteRemainingMSAs_run:
  assumes "stored (env w) (objectKey (setMeta rs)) = Some rs" "\<not> deletionTimestamp_IsZero (setMeta rs)"
    "worksOf (env w) (ownedSelector rs) = []"
    "msasOf (env w) (ownedSelector rs) = [] \<or> finalizerName \<in> set (omFinalizers (setMeta rs))"
  shows "\<exists>x w'. run_state (deleteRemainingMSAs R rs) w = (x, w') \<and> advanced rs (env w) (env w')"
proof -
  let ?sel = "ownedSelector rs" and ?unmarked = "\<lambda>m. deletionTimestamp_IsZero (msaMeta m)"
  define ms where "ms = msasOf (env w) ?sel"
  obtain r e1 where list: "srvListMSAs (rServer R) ?sel (env w) = (r, e1)" by (cases "srvListMSAs (rServer R) ?sel (env w)") auto
  define w1 where "w1 = w\<lparr>env := e1, trace := trace w @ [ListChildren MSAKind ?sel (Inr (map MSA ms))]\<rparr>"
  have sees: "r = Inr ms" "sees (env w) (env w1)" using list_msas [OF list] by (simp_all add: w1_def ms_def)
  obtain w2 where w2: "run_state (deleteAll (deleteMSA R) (filter ?unmarked ms) None) w1 = (None, w2)"
    "stored (env w2) = stored (env w1)" "worksOf (env w2) = worksOf (env w1)" "\<forall>m \<in> set (msasOf (env w2) ?sel). \<not> ?unmarked m"
    "ms = [] \<longrightarrow> msasOf (env w2) ?sel = []"
    using msaKind.deleteAll_marks [of w1 ?sel] sees by (auto simp: ms_def)
  have "run_state (deleteRemainingMSAs R rs) w =
      run_state (if length ms > 0 then waitForCleanup R rs 0 (length ms) else removeFinalizerStep R rs) w2"
    using list sees(1) w2(1) by (simp add: deleteRemainingMSAs_def generatedChildListOptions_def listMSAs_def call_def w1_def)
  then show ?thesis
    using waitForCleanup_run [of w2 rs 0 "length ms"] removeFinalizerStep_run [of w2 rs] assms w2 sees heldI
    by (cases "ms = []") (auto simp: advanced_def ms_def)
qed

lemma reconcileDelete_run:
  assumes "stored (env w) (objectKey (setMeta rs)) = Some rs" "\<not> deletionTimestamp_IsZero (setMeta rs)"
    "worksOf (env w) (ownedSelector rs) = [] \<and> msasOf (env w) (ownedSelector rs) = [] \<or> finalizerName \<in> set (omFinalizers (setMeta rs))"
  shows "\<exists>x w'. run_state (reconcileDelete R rs) w = (x, w') \<and> advanced rs (env w) (env w')"
proof -
  let ?sel = "ownedSelector rs" and ?unmarked = "\<lambda>v. deletionTimestamp_IsZero (workMeta v)"
  define vs where "vs = worksOf (env w) ?sel"
  obtain r e1 where list: "srvListWorks (rServer R) ?sel (env w) = (r, e1)" by (cases "srvListWorks (rServer R) ?sel (env w)") auto
  define w1 where "w1 = w\<lparr>env := e1, trace := trace w @ [ListChildren WorkKind ?sel (Inr (map Work vs))]\<rparr>"
  have sees: "r = Inr vs" "sees (env w) (env w1)" using list_works [OF list] by (simp_all add: w1_def vs_def)
  obtain w2 where w2: "run_state (deleteAll (deleteWork R) (filter ?unmarked vs) None) w1 = (None, w2)"
    "stored (env w2) = stored (env w1)" "msasOf (env w2) = msasOf (env w1)" "\<forall>v \<in> set (worksOf (env w2) ?sel). \<not> ?unmarked v"
    "vs = [] \<longrightarrow> worksOf (env w2) ?sel = []"
    using workKind.deleteAll_marks [of w1 ?sel] sees by (auto simp: vs_def)
  have run: "run_state (reconcileDelete R rs) w =
      run_state (if length vs > 0 then waitForCleanup R rs (length vs) 0 else deleteRemainingMSAs R rs) w2"
    using list sees(1) w2(1) by (simp add: reconcileDelete_def generatedChildListOptions_def listWorks_def call_def w1_def)
  show ?thesis
  proof (cases "vs = []")
    case True
    then have "advanced rs (env w2) e' \<longleftrightarrow> advanced rs (env w) e'" for e' using w2 sees by (simp add: advanced_def vs_def)
    with True run deleteRemainingMSAs_run [of w2 rs] assms w2 sees show ?thesis by auto
  next
    case False
    with run waitForCleanup_run [of w2 rs "length vs" 0] assms w2 sees heldI show ?thesis by (auto simp: advanced_def vs_def)
  qed
qed

text \<open>One reconciliation of a set under deletion.\<close>

lemma Reconcile_advances:
  assumes "held rs (env w) \<or> released rs (env w)" "run_state (Reconcile R (objectKey (setMeta rs))) w = (r, w')"
  shows "advanced rs (env w) (env w')"
proof -
  let ?k = "objectKey (setMeta rs)"
  obtain g e1 where get: "srvGetSet (rServer R) ?k (env w) = (g, e1)" by (cases "srvGetSet (rServer R) ?k (env w)") auto
  note read = get_set [OF get]
  show ?thesis
  proof (cases "stored (env w) ?k")
    case None
    with assms(1) have "released rs (env w)" by (auto simp: held_def)
    moreover have "env w' = e1" using assms(2) get read None by (auto simp: Reconcile_def getSet_def call_def isl_def)
    ultimately show ?thesis using read sees_cong(2) [of "env w" e1 rs] by (simp add: advanced_def released_def)
  next
    case (Some rs1)
    with assms(1) have rs1: "sameSet rs rs1" "\<not> deletionTimestamp_IsZero (setMeta rs1)"
      "worksOf (env w) (ownedSelector rs) = [] \<and> msasOf (env w) (ownedSelector rs) = [] \<or> finalizerName \<in> set (omFinalizers (setMeta rs1))"
      by (auto simp: held_def released_def)
    then have same: "objectKey (setMeta rs1) = ?k" "ownedSelector rs1 = ownedSelector rs" "sameSet rs1 = sameSet rs"
      by (simp_all add: sameSet_def ownedSelector_def sourceLabels_def fun_eq_iff)
    then have adv: "advanced rs1 = advanced rs" by (simp add: advanced_def held_def released_def fun_eq_iff)
    define w1 where "w1 = w\<lparr>env := e1, trace := trace w @ [GetSet ?k (Inr rs1)]\<rparr>"
    have sees: "sees (env w) (env w1)" using read by (simp add: w1_def)
    then obtain rs2 x w2 where run: "run_state (reconcileDelete R rs1) w1 = ((rs2, x), w2)" "advanced rs (env w) (env w2)"
      using reconcileDelete_run [of w1 rs1] Some rs1 same adv sees_cong(3) [OF sees] by auto
    have "w' = snd (run_state (stopNamespaceCaches R rs2 {||}) w2)"
      using assms(2) get read Some rs1(2) run(1)
      by (auto simp: Reconcile_def getSet_def call_def reconcileBody_def w1_def split: prod.splits)
    then have "sees (env w2) (env w')"
      using janitor by (auto simp: stopNamespaceCaches_def call_def split: option.splits)
    from sees_cong(4) [OF this] run(2) show ?thesis by simp
  qed
qed

text \<open>How far the deletion has come: the works are gone, then the service accounts, then the finalizer.\<close>

definition stage :: "replicaSet \<Rightarrow> nat \<Rightarrow> 'e \<Rightarrow> bool" where
  "stage rs n e \<longleftrightarrow> released rs e \<or> n < 3 \<and> held rs e \<and> (1 \<le> n \<longrightarrow> worksOf e (ownedSelector rs) = []) \<and>
     (2 \<le> n \<longrightarrow> msasOf e (ownedSelector rs) = [])"

lemma pause_empty:
  assumes "pause finishing e e'"
  shows "worksOf e sel = [] \<or> finishing \<and> (\<forall>v \<in> set (worksOf e sel). \<not> deletionTimestamp_IsZero (workMeta v)) \<Longrightarrow> worksOf e' sel = []"
    "msasOf e sel = [] \<or> finishing \<and> (\<forall>m \<in> set (msasOf e sel). \<not> deletionTimestamp_IsZero (msaMeta m)) \<Longrightarrow> msasOf e' sel = []"
proof -
  assume "worksOf e sel = [] \<or> finishing \<and> (\<forall>v \<in> set (worksOf e sel). \<not> deletionTimestamp_IsZero (workMeta v))"
  with pause_works [OF assms, of _ sel] have "v \<notin> set (worksOf e' sel)" for v by fastforce
  then show "worksOf e' sel = []" by (metis list.set_intros(1) neq_Nil_conv)
next
  assume "msasOf e sel = [] \<or> finishing \<and> (\<forall>m \<in> set (msasOf e sel). \<not> deletionTimestamp_IsZero (msaMeta m))"
  with pause_msas [OF assms, of _ sel] have "m \<notin> set (msasOf e' sel)" for m by fastforce
  then show "msasOf e' sel = []" by (metis list.set_intros(1) neq_Nil_conv)
qed

lemma pause_keeps:
  assumes "pause finishing e e'"
  shows "held rs e \<Longrightarrow> held rs e'" "released rs e \<Longrightarrow> released rs e'"
proof -
  show "held rs e'" if "held rs e"
    using that pause_set [OF assms, of "objectKey (setMeta rs)"] unfolding held_def
    by (auto simp: sameSet_def split: option.splits)
  show "released rs e'" if "released rs e"
  proof (cases "stored e (objectKey (setMeta rs))")
    case None
    then show ?thesis using that pause_gone [OF assms None] pause_empty [OF assms] by (simp add: released_def)
  next
    case (Some s)
    then show ?thesis using that pause_set [OF assms Some] pause_empty [OF assms]
      by (auto simp: released_def sameSet_def split: option.splits)
  qed
qed

lemma stage_step:
  assumes "stage rs n (env w)" "run_state (Reconcile R (objectKey (setMeta rs))) w = (r, w')" "pause finishing (env w') e"
  shows "stage rs (if finishing then Suc n else n) e"
proof -
  have adv: "advanced rs (env w) (env w')" using Reconcile_advances [OF _ assms(2)] assms(1) by (auto simp: stage_def)
  consider (works) "worksOf (env w) (ownedSelector rs) \<noteq> []" "n = 0" "held rs (env w')"
      "\<forall>v \<in> set (worksOf (env w') (ownedSelector rs)). \<not> deletionTimestamp_IsZero (workMeta v)"
    | (msas) "n \<le> 1" "held rs (env w')" "worksOf (env w') (ownedSelector rs) = []"
      "\<forall>m \<in> set (msasOf (env w') (ownedSelector rs)). \<not> deletionTimestamp_IsZero (msaMeta m)"
    | (finalizer) "released rs (env w')"
    using adv assms(1) unfolding advanced_def stage_def by (auto simp: released_def split: if_splits)
  then show ?thesis
    using pause_keeps [OF assms(3), of rs] pause_empty [OF assms(3), of "ownedSelector rs"]
    by cases (auto simp: stage_def)
qed

end

text \<open>
  Reconciliations of a set with the pauses between them: \<open>passes R pause k n w w'\<close> when reconciliations of \<open>k\<close>, each
  with a pause after it, lead from one world to the other, and \<open>n\<close> of the pauses were finishing.
\<close>

inductive passes :: "'e reconciler \<Rightarrow> (bool \<Rightarrow> 'e \<Rightarrow> 'e \<Rightarrow> bool) \<Rightarrow> key \<Rightarrow> nat \<Rightarrow> 'e world \<Rightarrow> 'e world \<Rightarrow> bool"
  for R pause k where
  start: "passes R pause k 0 w w"
| again: "passes R pause k n w w1 \<Longrightarrow> run_state (Reconcile R k) w1 = (r, w2) \<Longrightarrow> pause finishing (env w2) e \<Longrightarrow>
    passes R pause k (if finishing then Suc n else n) w (w2\<lparr>env := e\<rparr>)"

lemma passes_stage:
  assumes "deleting_hub R stored worksOf msasOf pause" "passes R pause (objectKey (setMeta rs)) n w w'"
    "deleting_hub.stage stored worksOf msasOf rs 0 (env w)"
  shows "deleting_hub.stage stored worksOf msasOf rs n (env w')"
  using assms(2,3)
proof (induction rule: passes.induct)
  case (again n w w1 r w2 finishing e)
  then show ?case using deleting_hub.stage_step [OF assms(1)] by fastforce
qed simp

section \<open>Two hubs\<close>

text \<open>The concrete hub removes a deleted object at once.\<close>

lemma hubDelete_filter:
  assumes "hubDelete meta x xs = (r, ys)"
  shows "ignoreNotFound r = None \<and> ys = filter (\<lambda>y. objectKey (meta y) \<noteq> objectKey (meta x)) xs"
proof (cases "hubFind meta xs (objectKey (meta x))")
  case None
  then have "filter (\<lambda>y. objectKey (meta y) \<noteq> objectKey (meta x)) xs = xs"
    by (auto simp: hubFind_def find_None_iff filter_id_conv)
  with None assms show ?thesis by (auto simp: hubDelete_def ignoreNotFound_def)
qed (use assms in \<open>simp add: hubDelete_def ignoreNotFound_def\<close>)

lemma hubPatch_found:
  "hubFind meta xs (objectKey (meta x)) \<noteq> None \<Longrightarrow> hubPatch meta x xs = (r, ys) \<Longrightarrow>
   r = Inr x \<and> hubFind meta ys (objectKey (meta x)) = Some x"
  using hubFind_replace [of meta xs x] by (auto simp: hubPatch_def)

abbreviation hubStored :: "hub \<Rightarrow> key \<Rightarrow> replicaSet option" where
  "hubStored e \<equiv> hubFind setMeta (hubSets e)"

abbreviation hubWorksOf :: "hub \<Rightarrow> selector \<Rightarrow> manifestWork list" where
  "hubWorksOf e sel \<equiv> filter (\<lambda>m. selector_Matches ref_lib sel (omLabels (workMeta m))) (hubWorks e)"

abbreviation hubMSAsOf :: "hub \<Rightarrow> selector \<Rightarrow> managedServiceAccount list" where
  "hubMSAsOf e sel \<equiv> filter (\<lambda>m. selector_Matches ref_lib sel (omLabels (msaMeta m))) (hubMSAs e)"

text \<open>A finishing pause takes the terminating children away; any other changes nothing.\<close>

definition hubPause :: "bool \<Rightarrow> hub \<Rightarrow> hub \<Rightarrow> bool" where
  "hubPause finishing e e' \<longleftrightarrow> e' = (if finishing
     then e\<lparr>hubWorks := filter (\<lambda>v. deletionTimestamp_IsZero (workMeta v)) (hubWorks e),
            hubMSAs := filter (\<lambda>m. deletionTimestamp_IsZero (msaMeta m)) (hubMSAs e)\<rparr> else e)"

interpretation hubPauses: deleting_pauses hubStored hubWorksOf hubMSAsOf hubPause
  by unfold_locales (auto simp: hubPause_def split: if_splits)

interpretation hubDeletes: deleting_hub "hubReconciler ref_lib" hubStored hubWorksOf hubMSAsOf hubPause
proof (unfold_locales, unfold hubReconciler_simps, goal_cases)
  case (6 e s b r e')
  with hubPatch_found [of setMeta "hubSets e" s] show ?case
    by (cases "hubPatch setMeta s (hubSets e)") (auto simp: hubServer_def likeSet_def)
next
  case (7 e s b r e')
  with hubPatch_found [of setMeta "hubSets e" s] show ?case
    by (cases "hubPatch setMeta s (hubSets e)") (auto simp: hubServer_def likeSet_def)
qed (auto simp: hubServer_def hubGet_def hubReconciler_def ref.AddFinalizer ref.RemoveFinalizer split: prod.splits option.splits dest!: hubDelete_filter)

text \<open>
  A hub with agents: a deletion only sets the deletion timestamp, and the object stays, terminating, until
  an agent has cleaned up behind it. The program is wired to it as \<^verbatim>\<open>main\<close> does, with the resolver and its janitor.
\<close>

definition hubMark :: "('t \<Rightarrow> objectMeta) \<Rightarrow> ('t \<Rightarrow> 't) \<Rightarrow> 't \<Rightarrow> 't list \<Rightarrow> go_error option \<times> 't list" where
  "hubMark meta mark x xs = (case hubFind meta xs (objectKey (meta x)) of
     None \<Rightarrow> (Some (ApiNotFound ''not found''), xs)
   | Some _ \<Rightarrow> (None, map (\<lambda>y. if objectKey (meta y) = objectKey (meta x) then mark y else y) xs))"

definition markWork :: "manifestWork \<Rightarrow> manifestWork" where
  "markWork v = v\<lparr>workMeta := (workMeta v)\<lparr>omDeletionTimestamp := Some 6\<rparr>\<rparr>"

definition markMSA :: "managedServiceAccount \<Rightarrow> managedServiceAccount" where
  "markMSA m = m\<lparr>msaMeta := (msaMeta m)\<lparr>omDeletionTimestamp := Some 6\<rparr>\<rparr>"

definition agentServer :: "hub server" where
  "agentServer = (hubServer ref_lib)\<lparr>
     srvDeleteMSA := (\<lambda>m e. case hubMark msaMeta markMSA m (hubMSAs e) of (r, xs) \<Rightarrow> (r, e\<lparr>hubMSAs := xs\<rparr>)),
     srvDeleteWork := (\<lambda>v e. case hubMark workMeta markWork v (hubWorks e) of (r, xs) \<Rightarrow> (r, e\<lparr>hubWorks := xs\<rparr>))\<rparr>"

lemma hubMark_unmarked:
  assumes "hubMark meta mark x xs = (r, ys)" "\<And>y. \<not> deletionTimestamp_IsZero (meta (mark y))"
  shows "ignoreNotFound r = None \<and>
    (\<forall>y \<in> set ys. deletionTimestamp_IsZero (meta y) \<longrightarrow> y \<in> set xs \<and> objectKey (meta y) \<noteq> objectKey (meta x))"
  using assms by (auto simp: hubMark_def hubFind_def ignoreNotFound_def find_None_iff split: option.splits)

lemma agentServer_simps:
  "srvGetSet agentServer = srvGetSet (hubServer ref_lib)" "srvListWorks agentServer = srvListWorks (hubServer ref_lib)"
  "srvListMSAs agentServer = srvListMSAs (hubServer ref_lib)" "srvPatchStatus agentServer = srvPatchStatus (hubServer ref_lib)"
  "srvPatchSet agentServer = srvPatchSet (hubServer ref_lib)"
  by (simp_all add: agentServer_def)

interpretation agents: deleting_server agentServer hubStored hubWorksOf hubMSAsOf
proof (rule deleting_server.intro, goal_cases)
  case (4 v e r e' sel)
  with hubMark_unmarked [of workMeta markWork v "hubWorks e"] show ?case
    by (fastforce simp: agentServer_def markWork_def deletionTimestamp_IsZero_def split: prod.splits)
next
  case (5 m e r e' sel)
  with hubMark_unmarked [of msaMeta markMSA m "hubMSAs e"] show ?case
    by (fastforce simp: agentServer_def markMSA_def deletionTimestamp_IsZero_def split: prod.splits)
qed (use hubDeletes.get_set hubDeletes.list_works hubDeletes.list_msas hubDeletes.patch_status hubDeletes.patch_set
     in \<open>simp_all only: agentServer_simps hubReconciler_simps\<close>)

definition agentManager :: "hub manager" where
  "agentManager = hubManager\<lparr>mgServer := agentServer\<rparr>"

definition agentWired :: "hub managed reconciler \<times> resolverSys" where
  "agentWired = (case setupReconciler agentManager ''providers.json'' of Inr x \<Rightarrow> x)"

interpretation agentDeletes: deleting_hub "fst agentWired" "\<lambda>m. hubStored (fst m)" "\<lambda>m. hubWorksOf (fst m)" "\<lambda>m. hubMSAsOf (fst m)"
  "\<lambda>finishing m m'. hubPause finishing (fst m) (fst m')"
proof (rule wired_deleting_hub)
  show "setupReconciler agentManager ''providers.json'' = Inr (fst agentWired, snd agentWired)"
    by (simp add: agentWired_def agentManager_def setupReconciler_def SetupWithManager_def hubManager_def Let_def)
  show "fst (mgMeanwhile agentManager e s) = e" for e s by (simp add: agentManager_def hubManager_def)
  show "finalizer_library (mgLib agentManager)" by (simp add: agentManager_def hubManager_def ref.finalizer_library_axioms)
  show "deleting_server (mgServer agentManager) hubStored hubWorksOf hubMSAsOf"
    by (simp add: agentManager_def agents.deleting_server_axioms)
qed (rule hubPauses.deleting_pauses_axioms)

section \<open>Properties\<close>

text \<open>
  C11: A deletion is never stuck. Against every API server a pass over a set under deletion reports an error,
  so that it is retried, or asks to come back after the cleanup interval, or has seen both child
  lists empty and, when the set had the finalizer, a successful patch that removes it.
\<close>

theorem reconcileDelete_not_stuck:
  assumes "finalizer_library (rLib R)"
  shows "\<exists>es. trace (snd (run_state (reconcileDelete R rs) w)) = trace w @ es \<and>
    unstuck rs (fst (run_state (reconcileDelete R rs) w)) es"
  using reconcileDelete_unstuck [OF assms, of rs] by (simp add: emits_def)

text \<open>The example set under deletion, with one service account left on a cluster.\<close>

definition deletedSet :: replicaSet where
  "deletedSet = sampleSet\<lparr>setMeta := (setMeta sampleSet)\<lparr>omFinalizers := [finalizerName], omDeletionTimestamp := Some 5\<rparr>\<rparr>"

definition leftoverHub :: hub where
  "leftoverHub = emptyHub\<lparr>hubSets := [deletedSet],
     hubMSAs := [buildManagedServiceAccount ref_lib deletedSet ''c1'' ''all'']\<rparr>"

theorem reconcileDelete_not_stuck_witness:
  "\<exists>es. trace (snd (run_state (reconcileDelete (hubReconciler ref_lib) deletedSet) (sampleWorld leftoverHub))) = [] @ es \<and>
    unstuck deletedSet (fst (run_state (reconcileDelete (hubReconciler ref_lib) deletedSet) (sampleWorld leftoverHub))) es"
  using reconcileDelete_not_stuck [of "hubReconciler ref_lib" deletedSet "sampleWorld leftoverHub"] ref.finalizer_library_axioms
  by (simp add: sampleWorld_def)

text \<open>
  C7: Deletion comes to an end. A set under deletion that has the controller's finalizer is reconciled again and again, on a
  server on which a deletion removes the object or marks it as terminating; whatever children it has, terminating already
  or not, once three of the pauses between reconciliations have let the children that were terminating go,
  none is left, and the set is gone or no longer has the finalizer. Between reconciliations no children
  are added to the set, and only the controller gives or takes its finalizer. The reconciler may have the
  resolver and its janitor.
\<close>

theorem teardown_completes:
  assumes "deleting_hub R stored worksOf msasOf pause"
    and "stored (env w) (objectKey (setMeta rs)) = Some rs" "\<not> deletionTimestamp_IsZero (setMeta rs)"
    and "finalizerName \<in> set (omFinalizers (setMeta rs))"
    and "passes R pause (objectKey (setMeta rs)) n w w'" "3 \<le> n"
  shows "worksOf (env w') (ownedSelector rs) = [] \<and> msasOf (env w') (ownedSelector rs) = [] \<and>
    (case stored (env w') (objectKey (setMeta rs)) of None \<Rightarrow> True | Some rs' \<Rightarrow> finalizerName \<notin> set (omFinalizers (setMeta rs')))"
proof -
  note defs = deleting_hub.stage_def [OF assms(1)] deleting_hub.held_def [OF assms(1)] deleting_hub.released_def [OF assms(1)]
  have "deleting_hub.stage stored worksOf msasOf rs 0 (env w)" using assms(2-4) by (simp add: defs)
  from passes_stage [OF assms(1,5) this] assms(6) show ?thesis by (auto simp: defs split: option.splits)
qed

text \<open>Whenever pauses can go by, the reconciliations go on.\<close>

lemma passes_continue:
  assumes "\<And>e. \<exists>e'. pause True e e'"
  shows "\<exists>w'. passes R pause k n w w'"
proof (induction n)
  case 0
  show ?case using passes.start by blast
next
  case (Suc n)
  then obtain w1 where "passes R pause k n w w1" by blast
  moreover obtain r w2 where "run_state (Reconcile R k) w1 = (r, w2)" by fastforce
  moreover obtain e where "pause True (env w2) e" using assms by blast
  ultimately show ?case using passes.again [of R pause k n w w1 r w2 True e] by auto
qed

text \<open>A service account that is live and a work that is already terminating.\<close>

definition terminatingHub :: hub where
  "terminatingHub = leftoverHub\<lparr>hubWorks := [markWork (buildControllerAccessManifestWork ref_lib deletedSet ''c1'' ''all'')]\<rparr>"

theorem teardown_completes_witness:
  "let R = fst agentWired; k = objectKey (setMeta deletedSet); pause = (\<lambda>finishing m m'. hubPause finishing (fst m) (fst m'));
       sel = ownedSelector deletedSet
   in \<exists>w'. passes R pause k 3 \<lparr>env = (terminatingHub, snd agentWired), trace = []\<rparr> w' \<and>
     hubWorksOf (fst (env w')) sel = [] \<and> hubMSAsOf (fst (env w')) sel = [] \<and>
     (case hubStored (fst (env w')) k of None \<Rightarrow> True | Some rs' \<Rightarrow> finalizerName \<notin> set (omFinalizers (setMeta rs')))"
proof -
  let ?pause = "\<lambda>finishing m m'. hubPause finishing (fst m) (fst m')" and ?w = "\<lparr>env = (terminatingHub, snd agentWired), trace = []\<rparr>"
  have "\<exists>m'. hubPause True (fst m) (fst m')" for m :: "hub managed" by (simp add: hubPause_def)
  from passes_continue [of ?pause, OF this] obtain w' where
    "passes (fst agentWired) ?pause (objectKey (setMeta deletedSet)) 3 ?w w'" by blast
  moreover have "hubStored terminatingHub (objectKey (setMeta deletedSet)) = Some deletedSet"
    "\<not> deletionTimestamp_IsZero (setMeta deletedSet)" "finalizerName \<in> set (omFinalizers (setMeta deletedSet))"
    by (simp_all add: terminatingHub_def leftoverHub_def emptyHub_def hubFind_def deletedSet_def deletionTimestamp_IsZero_def)
  ultimately show ?thesis
    using teardown_completes [OF agentDeletes.deleting_hub_axioms, of ?w deletedSet 3 w'] by (auto simp: Let_def)
qed

end
