(* ===== verification/Status_Writes.thy ===== *)
theory Status_Writes
  imports Write_Discipline
begin

text \<open>
  Which statuses a reconciliation can write. Every status patch of \<^const>\<open>Reconcile\<close> carries a candidate: one of
  five shapes, with the plan and the result of the children among those the programs can return.
  Properties of written statuses are then shown case by case, without following the program again.
\<close>

section \<open>Candidates\<close>

definition producible :: "('s, 'a) state \<Rightarrow> 'a \<Rightarrow> bool" where
  "producible m x \<longleftrightarrow> (\<exists>w. fst (run_state m w) = x)"

lemma yields_producible: "yields m (producible m)"
  by (auto simp: yields_def producible_def)

lemma producibleD: "producible m x \<Longrightarrow> yields m Q \<Longrightarrow> Q x"
  by (auto simp: yields_def producible_def)

text \<open>The status as \<^const>\<open>reconcileLive\<close> builds it up: after the placements, when they resolved, after the plan.\<close>

definition resolvedStatus :: "replicaSet \<Rightarrow> placementResolution \<Rightarrow> replicaSetStatus" where
  "resolvedStatus rs p = (newStatus rs)\<lparr>stPlacements := rePlacementStatuses p,
     stSelectedClusterCount := int32 (int (length (reClusters p)))\<rparr>"

definition observedStatus :: "lib \<Rightarrow> replicaSet \<Rightarrow> placementResolution \<Rightarrow> replicaSetStatus" where
  "observedStatus L rs p = (setStatusCond L conditionPlacementResolved ConditionTrue reasonResolved
     ''placement refs resolved'' (setGeneration rs) (resolvedStatus rs p))\<lparr>stObservedGeneration := setGeneration rs\<rparr>"

definition plannedStatus :: "lib \<Rightarrow> replicaSet \<Rightarrow> rolloutPlan \<Rightarrow> replicaSetStatus \<Rightarrow> replicaSetStatus" where
  "plannedStatus L rs plan st = applyPlacementRolledOutCondition L (plnSummary plan) (setGeneration rs)
     (applyPlacementRolloutStatus plan (st\<lparr>stRollout := plnSummary plan\<rparr>))"

definition waitingStatus :: "lib \<Rightarrow> replicaSet \<Rightarrow> string \<Rightarrow> replicaSetStatus" where
  "waitingStatus L rs msg = setStatusCond L conditionReady ConditionFalse reasonCleanupBlocked msg (setGeneration rs)
     (setStatusCond L conditionCleanupBlocked ConditionTrue reasonWaitingForOCMCleanup msg (setGeneration rs)
       ((newStatus rs)\<lparr>stObservedGeneration := setGeneration rs\<rparr>))"

inductive candidate :: "'e reconciler \<Rightarrow> replicaSet \<Rightarrow> placementResolution \<Rightarrow> replicaSetStatus \<Rightarrow> bool"
  for R :: "'e reconciler" and rs :: replicaSet and p :: placementResolution where
  invalid: "candidate R rs p (setEarlyReturnConditions (rLib R) reasonInvalidSpec msg (setGeneration rs) (newStatus rs))"
| unavailable:
    "candidate R rs p (setEarlyReturnConditions (rLib R) reasonPlacementUnavailable msg (setGeneration rs) (resolvedStatus rs p))"
| unplanned: "candidate R rs p (applyChildResultConditions (rLib R) (childReconcileResult_zero\<lparr>crrErr := Some err\<rparr>)
      (length (reClusters p)) (setGeneration rs) (rbacEnabled rs) (observedStatus (rLib R) rs p))"
| applied: "producible (planRollout R rs p) (Inr plan) \<Longrightarrow>
    producible (reconcileChildren R rs p (plnClusters plan) (plnCleanupClusters plan) (plnStatuses plan)
      (plannedStatus (rLib R) rs plan (observedStatus (rLib R) rs p))) (result, status) \<Longrightarrow>
    candidate R rs p (finalStatus (rLib R) rs (length (reClusters p)) result status)"
| waiting: "candidate R rs p (waitingStatus (rLib R) rs msg)"

section \<open>The policy\<close>

fun statusPatch :: "(replicaSetStatus \<Rightarrow> bool) \<Rightarrow> api_event set \<Rightarrow> api_event \<Rightarrow> bool" where
  "statusPatch ok before (PatchSetStatus base new r) = ok (setStatus new)"
| "statusPatch ok before _ = True"

interpretation sane: read_policy "statusPatch ok" for ok
proof unfold_locales
  fix A B e
  assume "A \<subseteq> B" "statusPatch ok A e"
  then show "statusPatch ok B e" by (cases e) simp_all
qed simp_all

lemma justified_sane: "justified noStatusPatch A es \<Longrightarrow> justified (statusPatch ok) A es"
proof (induction es arbitrary: A)
  case (Cons e es)
  then show ?case by (cases e) simp_all
qed simp

lemma sane_quiet: "quiet.complies m \<Longrightarrow> sane.complies ok m"
  unfolding quiet.complies_emits sane.complies_emits by (erule emits_weaken) (rule justified_sane)

lemma sane_patchStatus: "candidate R rs p status \<Longrightarrow> sane.complies (candidate R rs p) (patchStatus R rs status)"
  unfolding patchStatus_def patchSetStatus_def by (intro policy_intros sane.complies_call) simp

lemma sane_reconcileDelete: "sane.complies (candidate R rs p) (reconcileDelete R rs)"
proof -
  have calls: "sane.complies (candidate R rs p) (listMSAs R sel)" "sane.complies (candidate R rs p) (listWorks R sel)" "sane.complies (candidate R rs p) (deleteMSA R m)"
    "sane.complies (candidate R rs p) (deleteWork R k)" "sane.complies (candidate R rs p) (patchSet R a b)" for sel m k a b
    by (auto simp: listMSAs_def listWorks_def deleteMSA_def deleteWork_def patchSet_def intro!: sane.complies_call)
  have wait: "sane.complies (candidate R rs p) (waitForCleanup R rs x y)" for x y
    unfolding waitForCleanup_def Let_def waitingStatus_def [symmetric] by (intro policy_intros sane_patchStatus candidate.waiting)
  show ?thesis
    unfolding reconcileDelete_def deleteRemainingMSAs_def removeFinalizerStep_def deleteAll_def
    by (intro policy_intros calls wait)
qed

lemma sane_rolloutAndApply: "sane.complies (candidate R rs p) (rolloutAndApply R rs p (observedStatus (rLib R) rs p))"
proof -
  have applied: "sane.complies (candidate R rs p) (do {
      (result, status) \<leftarrow> reconcileChildren R rs p (plnClusters plan) (plnCleanupClusters plan) (plnStatuses plan)
        (plannedStatus (rLib R) rs plan (observedStatus (rLib R) rs p));
      (rs', patchErr) \<leftarrow> patchStatus R rs (finalStatus (rLib R) rs (length (reClusters p)) result status);
      (res, err) \<leftarrow> concludeReconcile R rs' patchErr result (plnRequeueAfter plan);
      return (rs', res, err) })" if "producible (planRollout R rs p) (Inr plan)" for plan
  proof (rule sane.walk.moves_bind_yields [OF sane_quiet [OF quiet.moves_reconcileChildren] yields_producible], goal_cases)
    case (1 x)
    then obtain result status where x: "x = (result, status)" by (cases x) auto
    from candidate.applied [OF that 1 [unfolded x]] show ?case
      unfolding x prod.case concludeReconcile_def by (intro policy_intros sane_patchStatus)
  qed
  show ?thesis
    unfolding rolloutAndApply_def Let_def plannedStatus_def [symmetric]
    by (rule sane.walk.moves_bind_yields [OF sane.walk.moves_planRollout yields_producible])
      (auto intro!: policy_intros sane_patchStatus candidate.unplanned applied split: sum.split)
qed

lemma sane_earlyReturn:
  "candidate R rs p (setEarlyReturnConditions (rLib R) reason (error_text err) (setGeneration rs) status) \<Longrightarrow>
   sane.complies (candidate R rs p) (earlyReturn R rs status reason action err)"
  unfolding earlyReturn_def by (intro policy_intros sane_patchStatus)

lemma sane_reconcileLive:
  assumes "run_state (resolvePlacementRefs R rs (setGeneration rs)) w = (p, w1)"
  shows "sane.extends (candidate R rs p) w (snd (run_state (reconcileLive R rs) w))"
proof (cases "validateRuntimeSpec rs")
  case (Some err)
  have "sane.complies (candidate R rs p) (reconcileLive R rs)"
    unfolding reconcileLive_def Some option.case by (intro policy_intros sane_earlyReturn candidate.invalid)
  then show ?thesis by (simp add: sane.walk.moves_def)
next
  case None
  let ?rest = "case (reErr p, reClusters p) of
        (Some err, []) \<Rightarrow> do {
          (rs', res) \<leftarrow> earlyReturn R rs (resolvedStatus rs p) reasonPlacementUnavailable ''ResolvePlacement'' err;
          return (rs', {||}, res) }
      | _ \<Rightarrow> do {
          (rs', res) \<leftarrow> rolloutAndApply R rs p (observedStatus (rLib R) rs p);
          return (rs', if selectorRBACEnabled rs then fset_of_list (reClusters p) else {||}, res) }"
  have "sane.complies (candidate R rs p) ?rest"
    using sane_rolloutAndApply [of R rs p]
    by (auto intro!: policy_intros sane_earlyReturn candidate.unavailable split: option.split list.split)
  then have "sane.extends (candidate R rs p) w1 (snd (run_state ?rest w1))" by (simp only: sane.walk.moves_def)
  moreover have "run_state (reconcileLive R rs) w = run_state ?rest w1"
    using assms unfolding reconcileLive_def None option.case Let_def resolvedStatus_def observedStatus_def by simp
  ultimately show ?thesis
    using sane.walk.T_trans [OF sane.walk.movesD [OF sane.walk.moves_resolvePlacementRefs assms]] by (simp only:)
qed

lemma sane_reconcileBody:
  assumes "finalizer_library (rLib R)" "run_state (resolvePlacementRefs R rs (setGeneration rs)) w = (p, w1)"
  shows "sane.extends (candidate R rs p) w (snd (run_state (reconcileBody R rs) w))"
proof -
  have patch: "sane.complies (candidate R rs p) (patchSet R a b)" for a b
    by (auto simp: patchSet_def intro!: sane.complies_call)
  show ?thesis
  proof (cases "deletionTimestamp_IsZero (setMeta rs) \<and> finalizerName \<in> set (omFinalizers (setMeta rs))")
    case True
    with sane_reconcileLive [OF assms(2)] show ?thesis
      by (simp add: reconcileBody_def finalizer_library.AddFinalizer [OF assms(1)])
  next
    case False
    then have "sane.complies (candidate R rs p) (reconcileBody R rs)"
      by (auto simp: reconcileBody_def finalizer_library.AddFinalizer [OF assms(1)] Let_def
          intro!: policy_intros patch sane_reconcileDelete)
    then show ?thesis by (simp add: sane.walk.moves_def)
  qed
qed

lemma Reconcile_candidates:
  assumes "finalizer_library (rLib R)" "run_state (getSet R req) w = (Inr rs, w0)"
    and "run_state (resolvePlacementRefs R rs (setGeneration rs)) w0 = (p, w1)"
  obtains es where "trace (snd (run_state (Reconcile R req) w)) = trace w @ GetSet req (Inr rs) # es"
    "\<And>base new r. PatchSetStatus base new r \<in> set es \<Longrightarrow> candidate R rs p (setStatus new)"
proof -
  obtain x w2 where body: "run_state (reconcileBody R rs) w0 = (x, w2)" by (cases "run_state (reconcileBody R rs) w0") auto
  let ?stop = "case x of (rs', keep, res) \<Rightarrow> State_Monad.bind (stopNamespaceCaches R rs' keep) (\<lambda>_. return res)"
  have "sane.complies (candidate R rs p) ?stop" by (intro policy_intros)
  then have "sane.extends (candidate R rs p) w2 (snd (run_state ?stop w2))" by (simp only: sane.walk.moves_def)
  moreover have "sane.extends (candidate R rs p) w0 w2" using sane_reconcileBody [OF assms(1,3)] by (simp add: body)
  ultimately have "sane.extends (candidate R rs p) w0 (snd (run_state ?stop w2))" by (rule sane.walk.T_trans [rotated])
  moreover have "trace w0 = trace w @ [GetSet req (Inr rs)]"
    using assms(2) by (auto simp: getSet_def call_def split: prod.splits)
  moreover have "run_state (Reconcile R req) w = run_state ?stop w2" by (simp add: Reconcile_def assms(2) body)
  ultimately obtain es where es: "trace (snd (run_state (Reconcile R req) w)) = trace w @ GetSet req (Inr rs) # es"
    "justified (statusPatch (candidate R rs p)) {} es"
    by (auto simp: sane.extends_def simp del: justified.simps)
  show thesis
    by (rule that [OF es(1)]) (use sane.justified_member [OF es(2)] in fastforce)
qed

end
