(* ===== verification/Rollout_Bounds.thy ===== *)
theory Rollout_Bounds
  imports Program_Walk
begin

text \<open>
  The counters of a rollout plan (\<^verbatim>\<open>planRollout\<close>): whatever the server and the rollout handler answer, each
  summary of a plan counts within its total, and carries the conditions of the stored status on.
\<close>

section \<open>Summaries\<close>

text \<open>A summary whose counters are within its total.\<close>

definition rolloutWithin :: "rolloutSummary \<Rightarrow> bool" where
  "rolloutWithin s \<longleftrightarrow> 0 \<le> roUpdating s \<and> roUpdating s \<le> roTotal s \<and> 0 \<le> roSucceeded s \<and> roSucceeded s \<le> roTotal s \<and>
     0 \<le> roFailed s \<and> roFailed s \<le> roTotal s \<and> 0 \<le> roTimedOut s \<and> roTimedOut s \<le> roTotal s"

lemma newRolloutSummary_within:
  assumes "u |\<subseteq>| D" "t |\<subseteq>| D" "fmdom m |\<subseteq>| D" "fcard D \<le> N" "N < 2 ^ 30"
  shows "rolloutWithin (newRolloutSummary L (int N) u t m prev g)"
proof -
  have card: "fcard u \<le> N" "fcard t \<le> N" "fcard (fmdom m) \<le> N"
    using assms fcard_mono [of _ D] by (meson le_trans)+
  have status: "fcard (statusClusters u t m s) \<le> N" for s
  proof -
    have "statusClusters u t m s |\<subseteq>| fmdom m" by (auto simp: statusClusters_def)
    from fcard_mono [OF this] card(3) show ?thesis by simp
  qed
  have "fcard t + fcard (statusClusters u t m TimeOut) = fcard (t |\<union>| statusClusters u t m TimeOut)"
    by (rule fcard_disjoint [symmetric]) (auto simp: statusClusters_def counted_def)
  also have "\<dots> \<le> fcard D" by (rule fcard_mono) (use assms(2,3) in \<open>auto simp: statusClusters_def\<close>)
  finally have "fcard t + fcard (statusClusters u t m TimeOut) \<le> N" using assms(4) by simp
  moreover have "fcard t + fcard (fmdom m) < 2 ^ 31" "fcard u < 2 ^ 31" using card assms(5) by simp_all
  note newRolloutSummary_fields [OF this, of L "int N" prev g]
  ultimately show ?thesis using card status by (simp add: rolloutWithin_def)
qed

text \<open>
  The summaries a plan consists of: over clusters \<open>D\<close> that are not more than the total, with the
  conditions of the stored status as previous ones.
\<close>

definition previousRollout :: "replicaSet \<Rightarrow> condition list \<Rightarrow> bool" where
  "previousRollout rs prev \<longleftrightarrow> prev = rolloutConditions (stRollout (setStatus rs)) \<or> (\<exists>key. prev = placementRolloutConditions rs key)"

inductive planned :: "lib \<Rightarrow> replicaSet \<Rightarrow> rolloutSummary \<Rightarrow> bool" for L rs where
  "u |\<subseteq>| D \<Longrightarrow> t |\<subseteq>| D \<Longrightarrow> fmdom m |\<subseteq>| D \<Longrightarrow> fcard D \<le> N \<Longrightarrow> N < 2 ^ 30 \<Longrightarrow> previousRollout rs prev \<Longrightarrow>
   planned L rs (newRolloutSummary L (int N) u t m prev (setGeneration rs))"

lemma planned_within: "planned L rs s \<Longrightarrow> rolloutWithin s"
  by (induction rule: planned.induct) (rule newRolloutSummary_within)

definition planInv :: "lib \<Rightarrow> replicaSet \<Rightarrow> strset \<Rightarrow> planAcc \<Rightarrow> bool" where
  "planInv L rs C acc \<longleftrightarrow> paRollout acc |\<subseteq>| C \<and> paTimeout acc |\<subseteq>| C \<and> fmdom (plnStatuses (paPlan acc)) |\<subseteq>| C \<and>
     (\<forall>key s. fmlookup (plnPlacementRollouts (paPlan acc)) key = Some s \<longrightarrow> planned L rs s)"

lemma putStatuses_dom: "fmdom m |\<subseteq>| D \<Longrightarrow> \<forall>c \<in> set cs. crClusterName c |\<in>| D \<Longrightarrow> fmdom (putStatuses cs m) |\<subseteq>| D"
  unfolding putStatuses_def by (induction cs arbitrary: m) auto

lemma putNames_sub: "S |\<subseteq>| D \<Longrightarrow> \<forall>c \<in> set cs. crClusterName c |\<in>| D \<Longrightarrow> putNames cs S |\<subseteq>| D"
  unfolding putNames_def by (induction cs arbitrary: S) auto

lemma yields_clusterStatusesLoop:
  "fmdom st |\<subseteq>| C \<Longrightarrow> fmdom rst |\<subseteq>| D \<Longrightarrow> \<forall>c \<in> set cs. c |\<in>| C \<and> c |\<in>| D \<Longrightarrow>
   yields (clusterStatusesLoop R rs p cs st rst ex)
     (\<lambda>r. \<forall>st' rst' ex'. r = Inr (st', rst', ex') \<longrightarrow> fmdom st' |\<subseteq>| C \<and> fmdom rst' |\<subseteq>| D)"
proof (induction cs arbitrary: st rst ex)
  case (Cons c cs)
  have "yields (clusterStatusesLoop R rs p cs (fmupd c x st) (fmupd c x rst) (ex @ [x]))
     (\<lambda>r. \<forall>st' rst' ex'. r = Inr (st', rst', ex') \<longrightarrow> fmdom st' |\<subseteq>| C \<and> fmdom rst' |\<subseteq>| D)" for x
    by (rule Cons.IH) (use Cons.prems in auto)
  then show ?case by (auto intro!: yields_after yields_return split: option.split)
qed (auto intro!: yields_return)

lemma previousRollout_intros: "previousRollout rs (placementRolloutConditions rs key)" "previousRollout rs (rolloutConditions (stRollout (setStatus rs)))"
  by (auto simp: previousRollout_def)

lemma yields_planStep:
  assumes L: "sdk_library (rLib R)" and sub: "sdk_GetClusters (rLib R) (fmget (reClusterGroupsByRef p) (prName ref)) |\<subseteq>| C"
    and C: "fcard C < 2 ^ 30" and inv: "planInv (rLib R) rs C acc"
  shows "yields (planStep R rs p ref acc) (\<lambda>r. \<forall>acc'. r = Inr acc' \<longrightarrow> planInv (rLib R) rs C acc')"
proof (cases "fmget (reClusterGroupsByRef p) (prName ref) = []")
  case True
  have "planned (rLib R) rs (newRolloutSummary (rLib R) 0 {||} {||} fmempty (placementRolloutConditions rs (prName ref)) (setGeneration rs))"
    using planned.intros [of "{||}" "{||}" "{||}" fmempty 0 rs "placementRolloutConditions rs (prName ref)" "rLib R"] previousRollout_intros(1) by simp
  with True inv show ?thesis
    by (auto simp: planStep_def Let_def planInv_def intro!: yields_return split: if_splits)
next
  case False
  let ?groups = "fmget (reClusterGroupsByRef p) (prName ref)"
  let ?D = "sdk_GetClusters (rLib R) ?groups"
  have "fcard ?D < 2 ^ 30" using fcard_mono [OF sub] C by simp
  then have size: "int32 (int (fcard ?D)) = int (fcard ?D)" by (simp add: int32_of_nat)
  have step: "planInv (rLib R) rs C (acc\<lparr>paPlan := (paPlan acc)\<lparr>
        plnStatuses := putStatuses (rrClustersTimeOut res) (putStatuses (rrClustersToRollout res) st),
        plnCleanupClusters := cleanup,
        plnPlacementRollouts := fmupd (prName ref) (newRolloutSummary (rLib R) (int32 (int (fcard ?D)))
          (putNames (rrClustersToRollout res) {||}) (putNames (rrClustersTimeOut res) {||})
          (putStatuses (rrClustersTimeOut res) (putStatuses (rrClustersToRollout res) rst))
          (placementRolloutConditions rs (prName ref)) (setGeneration rs)) (plnPlacementRollouts (paPlan acc)),
        plnAvailableDecisionGroups := avail, plnRequeueAfter := after\<rparr>,
      paRollout := putNames (rrClustersToRollout res) (paRollout acc), paTimeout := putNames (rrClustersTimeOut res) (paTimeout acc)\<rparr>)"
    if "sdk_GetRolloutCluster (rLib R) ?groups noop strategy ex = Inr res" "fmdom st |\<subseteq>| C" "fmdom rst |\<subseteq>| ?D"
    for res st rst ex noop strategy cleanup avail after
  proof -
    have D: "\<forall>c \<in> set (rrClustersToRollout res). crClusterName c |\<in>| ?D" "\<forall>c \<in> set (rrClustersTimeOut res). crClusterName c |\<in>| ?D"
      using sdk_library.rollout_selected [OF L that(1)] by auto
    then have C': "\<forall>c \<in> set (rrClustersToRollout res). crClusterName c |\<in>| C" "\<forall>c \<in> set (rrClustersTimeOut res). crClusterName c |\<in>| C"
      using sub by auto
    have "planned (rLib R) rs (newRolloutSummary (rLib R) (int (fcard ?D)) (putNames (rrClustersToRollout res) {||})
        (putNames (rrClustersTimeOut res) {||}) (putStatuses (rrClustersTimeOut res) (putStatuses (rrClustersToRollout res) rst))
        (placementRolloutConditions rs (prName ref)) (setGeneration rs))"
      by (rule planned.intros [of _ ?D])
        (use D that(3) previousRollout_intros(1) \<open>fcard ?D < 2 ^ 30\<close> in \<open>simp_all add: putNames_sub putStatuses_dom\<close>)
    then show ?thesis
      using inv C' that(2) by (simp add: planInv_def size putNames_sub putStatuses_dom)
  qed
  have "fmdom (plnStatuses (paPlan acc)) |\<subseteq>| C" using inv by (simp add: planInv_def)
  from yields_clusterStatusesLoop [where R = R and rs = rs and p = p and ex = "[]" and rst = fmempty and D = ?D and
      cs = "sorted_list_of_fset ?D", OF this] sub
  have loop: "yields (clusterStatusesLoop R rs p (sorted_list_of_fset ?D) (plnStatuses (paPlan acc)) fmempty [])
     (\<lambda>r. \<forall>st' rst' ex'. r = Inr (st', rst', ex') \<longrightarrow> fmdom st' |\<subseteq>| C \<and> fmdom rst' |\<subseteq>| ?D)"
    by (auto simp: sorted_list_of_fset.rep_eq)
  show ?thesis
    unfolding planStep_def Let_def using False
    by (cases "sdk_NewRolloutHandler (rLib R) ?groups";
        simp, intro yields_bind [OF loop]; simp add: yields_return step split: sum.split prod.split)
qed

lemma yields_planLoop:
  assumes L: "sdk_library (rLib R)" and C: "fcard C < 2 ^ 30"
  shows "\<forall>ref \<in> set refs. sdk_GetClusters (rLib R) (fmget (reClusterGroupsByRef p) (prName ref)) |\<subseteq>| C \<Longrightarrow>
    planInv (rLib R) rs C acc \<Longrightarrow> yields (planLoop R rs p refs acc) (\<lambda>r. \<forall>acc'. r = Inr acc' \<longrightarrow> planInv (rLib R) rs C acc')"
proof (induction refs arbitrary: acc)
  case (Cons ref refs)
  have "yields (planStep R rs p ref acc) (\<lambda>r. \<forall>acc'. r = Inr acc' \<longrightarrow> planInv (rLib R) rs C acc')"
    by (rule yields_planStep [OF L _ C Cons.prems(2)]) (use Cons.prems(1) in simp)
  with Cons show ?case by (auto intro!: yields_bind yields_return split: sum.split)
qed (simp add: yields_return)

definition planOK :: "lib \<Rightarrow> replicaSet \<Rightarrow> rolloutPlan \<Rightarrow> bool" where
  "planOK L rs plan \<longleftrightarrow> (\<forall>key s. fmlookup (plnPlacementRollouts plan) key = Some s \<longrightarrow> planned L rs s) \<and>
     (\<forall>s. plnSummary plan = Some s \<longrightarrow> planned L rs s)"

lemma yields_planRollout:
  assumes L: "sdk_library (rLib R)" and n: "length (reClusters p) < 2 ^ 30"
    and sub: "\<forall>ref \<in> set (spPlacementRefs (setSpec rs)).
      sdk_GetClusters (rLib R) (fmget (reClusterGroupsByRef p) (prName ref)) |\<subseteq>| fset_of_list (reClusters p)"
  shows "yields (planRollout R rs p) (\<lambda>r. \<forall>plan. r = Inr plan \<longrightarrow> planOK (rLib R) rs plan)"
proof -
  let ?C = "fset_of_list (reClusters p)"
  have card: "fcard ?C \<le> length (reClusters p)" by (simp add: fcard.rep_eq fset_of_list.rep_eq card_length)
  have total: "int32 (int (length (reClusters p))) = int (length (reClusters p))" using n by (simp add: int32_of_nat)
  have zero: "planInv (rLib R) rs ?C plan_zero" by (simp add: planInv_def plan_zero_def)
  have conclude: "planOK (rLib R) rs ((paPlan acc)\<lparr>plnClusters := cs, plnSummary := Some (newRolloutSummary (rLib R)
      (int32 (int (length (reClusters p)))) (paRollout acc) (paTimeout acc) (plnStatuses (paPlan acc))
      (rolloutConditions (stRollout (setStatus rs))) (setGeneration rs))\<rparr>)" if "planInv (rLib R) rs ?C acc" for acc cs
    using that card n unfolding total
    by (auto simp: planOK_def planInv_def previousRollout_def intro!: planned.intros [of _ ?C])
  show ?thesis
    unfolding planRollout_def
    by (rule yields_bind [OF yields_planLoop [OF L _ sub zero]])
      (use card n in \<open>auto intro!: yields_return conclude split: sum.split\<close>)
qed

end
