(* ===== verification/Status_Bounds.thy ===== *)
theory Status_Bounds
  imports Status_Writes Rollout_Bounds
begin

text \<open>
  The counters of the status. A summary adds up what is desired before what is found, so that through
  every loop of \<^const>\<open>reconcileChildren\<close> the found ones stay within the desired ones, in the summary of the set
  and in that of each placement, and the ready clusters within the selected ones; the counters of a
  rollout stay within its total. The counters are \<^verbatim>\<open>int32\<close>: the lemmas carry the bounds that exclude
  wrap-around, up to the candidates for a status.
\<close>

section \<open>Summaries\<close>

text \<open>
  A summary with \<open>k\<close> objects still to be looked at and at most \<open>b\<close> desired.
\<close>

definition sumOK :: "nat \<Rightarrow> nat \<Rightarrow> summary \<Rightarrow> bool" where
  "sumOK k b s \<longleftrightarrow> 0 \<le> suApplied s \<and> suApplied s \<le> suTotal s \<and> 0 \<le> suAvailable s \<and> suAvailable s \<le> suTotal s \<and>
     0 \<le> suDegraded s \<and> suDegraded s \<le> suTotal s \<and> 0 \<le> suProgressing s \<and> suProgressing s \<le> suTotal s \<and>
     0 \<le> suUpdated s \<and> suUpdated s \<le> suTotal s \<and> suTotal s + int k \<le> suDesiredTotal s \<and> suDesiredTotal s \<le> int b"

lemma ensureSummary_Some [simp]: "ensureSummary (Some s) = s" "ensureSummary None = summary_zero"
  by (simp_all add: ensureSummary_def)

lemma sumOK_zero: "sumOK 0 b summary_zero"
  by (simp add: sumOK_def summary_zero_def)

lemma sumOK_mono: "sumOK k b s \<Longrightarrow> j \<le> k \<Longrightarrow> b \<le> c \<Longrightarrow> sumOK j c s"
  unfolding sumOK_def by linarith

lemma int32_small: "0 \<le> n \<Longrightarrow> n \<le> int b \<Longrightarrow> b < 2 ^ 31 \<Longrightarrow> int32 n = n"
  by (rule int32_id) (simp add: int32_range_def)

lemma sumOK_addDesired:
  assumes "sumOK 0 b s" "b + k < 2 ^ 31"
  shows "sumOK k (b + k) (addDesired (int32 (int k)) s)"
proof -
  have "int32 (int k) = int k" using assms(2) by (simp add: int32_of_nat)
  moreover have "add32 (suDesiredTotal s) (int k) = suDesiredTotal s + int k"
    using assms by (intro int32_small [of _ "b + k"]) (auto simp: sumOK_def)
  ultimately show ?thesis using assms(1) by (simp add: sumOK_def addDesired_def)
qed

lemma sumOK_addSummary:
  assumes "sumOK (Suc k) b s" "b < 2 ^ 31"
  shows "sumOK k b (addSummary s (summarizeManifestWork L work h))"
proof -
  have small: "add32 x y = x + y" if "0 \<le> x" "x \<le> suTotal s" "y = 0 \<or> y = 1" for x y
    using that assms by (intro int32_small [of _ b]) (auto simp: sumOK_def)
  have "add32 (suDesiredTotal s) 0 = suDesiredTotal s"
    using assms int32_small [of "suDesiredTotal s" b] by (simp add: sumOK_def)
  moreover have "0 \<le> suTotal s" using assms(1) by (simp add: sumOK_def)
  ultimately show ?thesis
    using assms(1) by (simp add: sumOK_def addSummary_def summarizeManifestWork_def Let_def small)
qed

text \<open>The placements a list of references leads to. Each is reached once.\<close>

definition targets :: "(string, nat) fmap \<Rightarrow> string list \<Rightarrow> nat set" where
  "targets idx keys = {i. \<exists>key \<in> set keys. fmlookup idx key = Some i}"

definition goodKeys :: "(string, nat) fmap \<Rightarrow> string list \<Rightarrow> bool" where
  "goodKeys idx keys \<longleftrightarrow> distinct keys \<and>
     (\<forall>k \<in> set keys. \<forall>l \<in> set keys. \<forall>i. fmlookup idx k = Some i \<longrightarrow> fmlookup idx l = Some i \<longrightarrow> k = l)"

text \<open>
  The summary of the set and those of the placements: \<open>k\<close> objects to come for the set and the
  placements \<open>T\<close>, none for the others.
\<close>

definition slotOK :: "nat set \<Rightarrow> nat \<Rightarrow> nat \<Rightarrow> replicaSetStatus \<Rightarrow> bool" where
  "slotOK T k b st \<longleftrightarrow> sumOK k b (ensureSummary (stSummary st)) \<and>
     (\<forall>i < length (stPlacements st). sumOK (if i \<in> T then k else 0) b (ensureSummary (psSummary (stPlacements st ! i))))"

lemma slotOK_mono: "slotOK T k b st \<Longrightarrow> j \<le> k \<Longrightarrow> b \<le> c \<Longrightarrow> slotOK T j c st"
  unfolding slotOK_def by (auto intro: sumOK_mono)

lemma slotOK_none: "slotOK T 0 b st \<longleftrightarrow> slotOK {} 0 b st"
  by (simp add: slotOK_def)

text \<open>What the loops leave of a status: everything but the counts.\<close>

definition clearCounts :: "replicaSetStatus \<Rightarrow> replicaSetStatus" where
  "clearCounts st = st\<lparr>stSummary := None, stControllerAccess := map_option (\<lambda>a. a\<lparr>caReadyClusterCount := 0\<rparr>) (stControllerAccess st),
     stPlacements := map (\<lambda>p. p\<lparr>psSummary := None\<rparr>) (stPlacements st)\<rparr>"

lemma clearCounts_bumpPlacement [simp]: "clearCounts (bumpPlacement f idx key st) = clearCounts st"
proof (cases "fmlookup idx key")
  case (Some i)
  have "map (psSummary_update (\<lambda>_. None)) (xs[i := (xs ! i)\<lparr>psSummary := x\<rparr>]) = map (psSummary_update (\<lambda>_. None)) xs"
    for xs :: "placementStatus list" and x
    by (cases "i < length xs") (auto simp: list_eq_iff_nth_eq nth_list_update)
  with Some show ?thesis by (simp add: bumpPlacement_def clearCounts_def)
qed (simp add: bumpPlacement_def)

lemma bumpPlacement_other [simp]:
  "stSummary (bumpPlacement f idx key st) = stSummary st" "stControllerAccess (bumpPlacement f idx key st) = stControllerAccess st"
  "stSelectedClusterCount (bumpPlacement f idx key st) = stSelectedClusterCount st"
  "length (stPlacements (bumpPlacement f idx key st)) = length (stPlacements st)"
  by (simp_all add: bumpPlacement_def split: option.split)

lemma fold_bumpPlacement_other [simp]:
  "stSummary (fold (bumpPlacement f idx) keys st) = stSummary st"
  "stControllerAccess (fold (bumpPlacement f idx) keys st) = stControllerAccess st"
  "stSelectedClusterCount (fold (bumpPlacement f idx) keys st) = stSelectedClusterCount st"
  "length (stPlacements (fold (bumpPlacement f idx) keys st)) = length (stPlacements st)"
  "clearCounts (fold (bumpPlacement f idx) keys st) = clearCounts st"
  by (induction keys arbitrary: st) simp_all

lemma fold_bumpPlacement_summary:
  assumes "goodKeys idx keys" "i < length (stPlacements st)"
  shows "psSummary (stPlacements (fold (bumpPlacement f idx) keys st) ! i) =
    (if i \<in> targets idx keys then Some (f (ensureSummary (psSummary (stPlacements st ! i)))) else psSummary (stPlacements st ! i))"
  using assms
proof (induction keys arbitrary: st)
  case (Cons key keys)
  have good: "goodKeys idx keys" using Cons.prems(1) by (simp add: goodKeys_def)
  have apart: "i \<notin> targets idx keys" if "fmlookup idx key = Some i"
    using that Cons.prems(1) by (auto simp: goodKeys_def targets_def)
  have here: "psSummary (stPlacements (bumpPlacement f idx key st) ! i) =
      (if fmlookup idx key = Some i then Some (f (ensureSummary (psSummary (stPlacements st ! i)))) else psSummary (stPlacements st ! i))"
    using Cons.prems(2) by (auto simp: bumpPlacement_def nth_list_update split: option.split)
  have "i \<in> targets idx (key # keys) \<longleftrightarrow> fmlookup idx key = Some i \<or> i \<in> targets idx keys" by (auto simp: targets_def)
  with Cons.IH [OF good, of "bumpPlacement f idx key st"] Cons.prems(2) here apart show ?case by auto
qed (simp add: targets_def)

lemma bumpSummaries_simps [simp]:
  "stSummary (bumpSummaries f keys idx st) = Some (f (ensureSummary (stSummary st)))"
  "stControllerAccess (bumpSummaries f keys idx st) = stControllerAccess st"
  "stSelectedClusterCount (bumpSummaries f keys idx st) = stSelectedClusterCount st"
  "length (stPlacements (bumpSummaries f keys idx st)) = length (stPlacements st)"
  "clearCounts (bumpSummaries f keys idx st) = clearCounts st"
  by (simp_all add: bumpSummaries_def) (simp add: clearCounts_def)

lemma bumpSummaries_placement:
  "goodKeys idx keys \<Longrightarrow> i < length (stPlacements st) \<Longrightarrow>
   ensureSummary (psSummary (stPlacements (bumpSummaries f keys idx st) ! i)) =
     (if i \<in> targets idx keys then f (ensureSummary (psSummary (stPlacements st ! i))) else ensureSummary (psSummary (stPlacements st ! i)))"
  by (simp add: bumpSummaries_def fold_bumpPlacement_summary ensureSummary_def)

lemma slotOK_bump:
  assumes "goodKeys idx keys" "T = targets idx keys"
  shows "slotOK T 0 b st \<Longrightarrow> b + k < 2 ^ 31 \<Longrightarrow> slotOK T k (b + k) (bumpSummaries (addDesired (int32 (int k))) keys idx st)"
    and "slotOK T (Suc j) b st \<Longrightarrow> b < 2 ^ 31 \<Longrightarrow>
      slotOK T j b (bumpSummaries (\<lambda>s. addSummary s (summarizeManifestWork L work h)) keys idx st)"
  using assms sumOK_mono [of 0 b _ 0 "b + k"]
  by (auto simp: slotOK_def bumpSummaries_placement sumOK_addDesired sumOK_addSummary)

section \<open>One cluster\<close>

definition accessOK :: "nat \<Rightarrow> nat \<Rightarrow> replicaSetStatus \<Rightarrow> bool" where
  "accessOK n a st \<longleftrightarrow> stSelectedClusterCount st = int n \<and> (case stControllerAccess st of None \<Rightarrow> True
     | Some x \<Rightarrow> caDesiredClusterCount x = int n \<and> 0 \<le> caReadyClusterCount x \<and> caReadyClusterCount x \<le> int a)"

lemma accessOK_bump [simp]: "accessOK n a (bumpSummaries f keys idx st) = accessOK n a st"
  by (simp add: accessOK_def)

text \<open>
  At most \<open>r\<close> clusters ready and \<open>a\<close> with controller access; a summary with \<open>k\<close> objects to come and at
  most \<open>b\<close> desired.
\<close>

definition accOK :: "replicaSetStatus \<Rightarrow> nat set \<Rightarrow> nat \<Rightarrow> nat \<Rightarrow> nat \<Rightarrow> nat \<Rightarrow> nat \<Rightarrow> childAcc \<Rightarrow> bool" where
  "accOK F T n r k b a acc \<longleftrightarrow> 0 \<le> crrReady (kaResult acc) \<and> crrReady (kaResult acc) \<le> int r \<and>
     slotOK T k b (kaStatus acc) \<and> clearCounts (kaStatus acc) = F \<and> accessOK n a (kaStatus acc)"

lemma accOK_mono: "accOK F T n r k b a acc \<Longrightarrow> r \<le> r' \<Longrightarrow> k' \<le> k \<Longrightarrow> b \<le> b' \<Longrightarrow> a \<le> a' \<Longrightarrow> accOK F T n r' k' b' a' acc"
  unfolding accOK_def accessOK_def by (auto intro: slotOK_mono split: option.splits)

lemma accOK_none: "accOK F T n r 0 b a acc \<longleftrightarrow> accOK F {} n r 0 b a acc"
  using slotOK_none [of T b] by (simp add: accOK_def)

lemma accOK_simps [simp]:
  "accOK F T n r k b a (snd (noteEnsured f x acc)) = accOK F T n r k b a (snd acc)"
  "accOK F T n r k b a (insertWorkName c name acc1) = accOK F T n r k b a acc1"
  "accOK F T n r k b a (acc1\<lparr>kaWorkNames := m\<rparr>) = accOK F T n r k b a acc1"
  "accOK F T n r k b a (acc1\<lparr>kaResult := recordErr err (kaResult acc1)\<rparr>) = accOK F T n r k b a acc1"
  by (simp_all add: accOK_def noteEnsured_def insertWorkName_def split: sum.split)

lemma accOK_bumpAccess:
  assumes "accOK F T n r k b a acc" "Suc a < 2 ^ 31"
  shows "accOK F T n r k b (Suc a) (acc\<lparr>kaStatus := bumpAccessReady (kaStatus acc)\<rparr>)"
proof -
  have "add32 x 1 = x + 1" if "0 \<le> x" "x \<le> int a" for x
    using that assms(2) by (intro int32_small [of _ "Suc a"]) auto
  with assms(1) show ?thesis
    by (auto simp: accOK_def slotOK_def accessOK_def clearCounts_def bumpAccessReady_def split: option.splits)
qed

lemma accOK_bumpReady:
  assumes "accOK F T n r k b a acc" "Suc r < 2 ^ 31"
  shows "accOK F T n (Suc r) k b a (bumpReady acc)"
proof -
  have "add32 (crrReady (kaResult acc)) 1 = crrReady (kaResult acc) + 1"
    using assms by (intro int32_small [of _ "Suc r"]) (auto simp: accOK_def)
  with assms(1) show ?thesis by (simp add: accOK_def bumpReady_def)
qed

lemma accOK_bump:
  assumes "goodKeys idx keys" "T = targets idx keys"
  shows "accOK F T n r 0 b a acc \<Longrightarrow> b + k < 2 ^ 31 \<Longrightarrow>
     accOK F T n r k (b + k) a (acc\<lparr>kaStatus := bumpSummaries (addDesired (int32 (int k))) keys idx (kaStatus acc)\<rparr>)"
    and "accOK F T n r (Suc j) b a acc \<Longrightarrow> b < 2 ^ 31 \<Longrightarrow>
     accOK F T n r j b a (acc\<lparr>kaStatus := bumpSummaries (\<lambda>s. addSummary s (summarizeManifestWork L work h)) keys idx (kaStatus acc)\<rparr>)"
  using slotOK_bump [OF assms] by (auto simp: accOK_def)

lemma yields_ensureAccess:
  assumes "accOK F T n r k b a acc" "Suc a < 2 ^ 31"
  shows "yields (ensureAccess R rs c ref acc) (\<lambda>x. accOK F T n r k b (Suc a) (snd x))"
proof -
  have weak: "accOK F T n r k b (Suc a) acc" by (rule accOK_mono [OF assms(1)]) simp_all
  have bump: "accOK F T n r k b (Suc a) (x\<lparr>kaStatus := bumpAccessReady (kaStatus x)\<rparr>)" if "accOK F T n r k b a x" for x
    by (rule accOK_bumpAccess [OF that assms(2)])
  show ?thesis
    unfolding ensureAccess_def Let_def
    by (auto intro!: yields_after yields_return bump simp: assms(1) weak)
qed

lemma yields_ensureSlice:
  assumes keys: "goodKeys idx keys" "T = targets idx keys" and "accOK F T n r (Suc j) b a (snd acc)" "b < 2 ^ 31"
  shows "yields (ensureSlice R rs c ref keys idx sl acc) (\<lambda>x. accOK F T n r j b a (snd x))"
proof -
  have weak: "accOK F T n r j b a (snd acc)" by (rule accOK_mono [OF assms(3)]) simp_all
  have bump: "accOK F T n r j b a (x\<lparr>kaStatus := bumpSummaries (\<lambda>s. addSummary s (summarizeManifestWork (rLib R) work h)) keys idx (kaStatus x)\<rparr>)"
    if "accOK F T n r (Suc j) b a x" for x work h
    by (rule accOK_bump(2) [OF keys that assms(4)])
  show ?thesis
    unfolding ensureSlice_def Let_def
    by (auto intro!: yields_after yields_return bump simp: assms(3) weak split: sum.split)
qed

lemma yields_ensureRBAC:
  assumes keys: "goodKeys idx keys" "T = targets idx keys" and "accOK F T n r 0 b a (snd acc)" "b + B < 2 ^ 31" and slices: "yields (desiredRBACSlices R rs c) (\<lambda>x. length (fst x) \<le> B)"
  shows "yields (ensureRBAC R rs c ref keys idx acc) (\<lambda>x. accOK F T n r 0 (b + B) a (snd x))"
proof (cases "rbacEnabled rs")
  case False
  then show ?thesis
    using accOK_mono [OF assms(3), of r 0 "b + B" a] by (simp add: ensureRBAC_def yields_return)
next
  case True
  have loop: "yields (mfold (ensureSlice R rs c ref keys idx) sls acc2) (\<lambda>x. accOK F T n r 0 (b + B) a (snd x))"
    if len: "length sls \<le> B" and acc2: "accOK F T n r (length sls) (b + length sls) a (snd acc2)" for sls acc2
  proof -
    have "yields (mfold (ensureSlice R rs c ref keys idx) sls acc2)
        (\<lambda>x. accOK F T n r (length sls - length sls) (b + length sls) a (snd x))"
    proof (rule yields_mfold [where I = "\<lambda>xs x. accOK F T n r (length sls - length xs) (b + length sls) a (snd x)"])
      fix xs x ys and acc :: "bool \<times> childAcc"
      assume "sls = xs @ x # ys" "accOK F T n r (length sls - length xs) (b + length sls) a (snd acc)"
      then show "yields (ensureSlice R rs c ref keys idx x acc)
          (\<lambda>y. accOK F T n r (length sls - length (xs @ [x])) (b + length sls) a (snd y))"
        using yields_ensureSlice [OF keys, of F n r "length ys" "b + length sls" a acc] len assms(4) by simp
    qed (use acc2 in simp)
    then show ?thesis by (rule yields_weaken) (use len in \<open>auto elim: accOK_mono\<close>)
  qed
  have bump: "accOK F T n r k (b + k) a (x\<lparr>kaStatus := bumpSummaries (addDesired (int32 (int k))) keys idx (kaStatus x)\<rparr>)"
    if "accOK F T n r 0 b a x" "k \<le> B" for x k
    by (rule accOK_bump(1) [OF keys that(1)]) (use that(2) assms(4) in simp)
  have "accOK F T n r k (b + k) a (x\<lparr>kaResult := recordErr e (kaResult x),
      kaStatus := bumpSummaries (addDesired (int32 (int k))) keys idx (kaStatus x)\<rparr>)" if "accOK F T n r 0 b a x" "k \<le> B" for x k e
    using bump [of "x\<lparr>kaResult := recordErr e (kaResult x)\<rparr>" k] that by simp
  then show ?thesis
    unfolding ensureRBAC_def Let_def using True
    by (auto intro!: yields_bind [OF slices] loop bump simp: assms(3) split: option.split)
qed

lemma yields_rolloutCluster:
  assumes keys: "goodKeys idx keys" "T = targets idx keys" and "accOK F T n r 0 b a acc" "b + B < 2 ^ 31" "Suc a < 2 ^ 31" "Suc r < 2 ^ 31"
    and slices: "yields (desiredRBACSlices R rs c) (\<lambda>x. length (fst x) \<le> B)"
  shows "yields (rolloutCluster R rs c ref keys idx acc) (accOK F T n (Suc r) 0 (b + B) (Suc a))"
proof -
  have weak: "accOK F T n (Suc r) 0 (b + B) (Suc a) x" if "accOK F T n r 0 b' a' x" "b' \<le> b + B" "a' \<le> Suc a" for x a' b'
    by (rule accOK_mono [OF that(1)]) (use that in simp_all)
  have bump: "accOK F T n (Suc r) 0 (b + B) (Suc a) (bumpReady x)" if "accOK F T n r 0 (b + B) (Suc a) x" for x
    by (rule accOK_bumpReady [OF that assms(6)])
  have rbac: "yields (ensureRBAC R rs c ref keys idx (noteEnsured f x acc1)) (\<lambda>y. accOK F T n r 0 (b + B) (Suc a) (snd y))"
    if "accOK F T n r 0 b (Suc a) (snd acc1)" for acc1 x and f :: "managedServiceAccount \<Rightarrow> bool"
    by (rule yields_ensureRBAC [OF keys _ assms(4) slices]) (use that in simp)
  have children: "yields (do { acc1 \<leftarrow> ensureAccess R rs c ref acc; x \<leftarrow> ensureManagedServiceAccount R rs c ref;
      acc2 \<leftarrow> ensureRBAC R rs c ref keys idx (noteEnsured (managedServiceAccountReady (rLib R)) x acc1);
      return (if fst acc2 then bumpReady (snd acc2) else snd acc2) }) (accOK F T n (Suc r) 0 (b + B) (Suc a))"
    by (rule yields_bind [OF yields_ensureAccess [OF assms(3,5)]], rule yields_after, rule yields_bind [OF rbac])
      (auto intro!: yields_return bump weak)
  show ?thesis
    unfolding rolloutCluster_def
    by (rule yields_after) (auto intro!: yields_return children weak [OF assms(3)] split: option.split)
qed

text \<open>The same without the counts of ready clusters, for the clusters outside the rollout window.\<close>

definition aggOK :: "replicaSetStatus \<Rightarrow> nat set \<Rightarrow> nat \<Rightarrow> nat \<Rightarrow> nat \<Rightarrow> nat \<Rightarrow> replicaSetStatus \<Rightarrow> bool" where
  "aggOK F T n k b a st \<longleftrightarrow> slotOK T k b st \<and> clearCounts st = F \<and> accessOK n a st"

lemma aggOK_mono: "aggOK F T n k b a st \<Longrightarrow> j \<le> k \<Longrightarrow> b \<le> c \<Longrightarrow> aggOK F T n j c a st"
  unfolding aggOK_def by (auto intro: slotOK_mono)

lemma yields_aggregateExistingSlice:
  assumes keys: "goodKeys idx keys" "T = targets idx keys" and "aggOK F T n (Suc j) b a st" "b < 2 ^ 31"
  shows "yields (aggregateExistingSlice R rs c ref keys idx sl st) (aggOK F T n j b a)"
proof -
  have "aggOK F T n j b a st" using assms(3) by (rule aggOK_mono) simp_all
  then show ?thesis
    unfolding aggregateExistingSlice_def Let_def using assms slotOK_bump(2) [OF keys]
    by (auto simp: aggOK_def intro!: yields_after yields_return split: sum.split)
qed

lemma yields_aggregateExisting:
  assumes keys: "goodKeys idx keys" "T = targets idx keys" and st: "aggOK F T n 0 b a st" and small: "b + B < 2 ^ 31"
    and slices: "yields (desiredRBACSlices R rs c) (\<lambda>x. length (fst x) \<le> B)"
  shows "yields (aggregateExistingRBACSummary R rs c ref keys idx st) (aggOK F T n 0 (b + B) a)"
proof (cases "rbacEnabled rs")
  case False
  then show ?thesis
    using aggOK_mono [OF st, of 0 "b + B"] by (simp add: aggregateExistingRBACSummary_def yields_return)
next
  case True
  have loop: "yields (mfold (aggregateExistingSlice R rs c ref keys idx) sls st2) (aggOK F T n 0 (b + B) a)"
    if len: "length sls \<le> B" and st2: "aggOK F T n (length sls) (b + length sls) a st2" for sls st2
  proof -
    have "yields (mfold (aggregateExistingSlice R rs c ref keys idx) sls st2)
        (aggOK F T n (length sls - length sls) (b + length sls) a)"
    proof (rule yields_mfold [where I = "\<lambda>xs. aggOK F T n (length sls - length xs) (b + length sls) a"])
      fix xs x ys st'
      assume "sls = xs @ x # ys" "aggOK F T n (length sls - length xs) (b + length sls) a st'"
      then show "yields (aggregateExistingSlice R rs c ref keys idx x st')
          (aggOK F T n (length sls - length (xs @ [x])) (b + length sls) a)"
        using yields_aggregateExistingSlice [OF keys, of F n "length ys" "b + length sls" a st'] len small by simp
    qed (use st2 in simp)
    then show ?thesis by (rule yields_weaken) (use len in \<open>auto elim: aggOK_mono\<close>)
  qed
  have bump: "aggOK F T n k (b + k) a (bumpSummaries (addDesired (int32 (int k))) keys idx st)" if "k \<le> B" for k
    using st slotOK_bump(1) [OF keys, of b st k] that small by (auto simp: aggOK_def)
  show ?thesis
    unfolding aggregateExistingRBACSummary_def using True
    by (auto intro!: yields_bind [OF slices] loop bump)
qed

lemma yields_clusterStep:
  assumes keys: "goodKeys idx (fmget (reClusterPlacementRefs res) c)"
    and "accOK F {} n r 0 b a acc" "b + B < 2 ^ 31" "Suc a < 2 ^ 31" "Suc r < 2 ^ 31"
    and slices: "yields (desiredRBACSlices R rs c) (\<lambda>x. length (fst x) \<le> B)"
  shows "yields (clusterStep R rs res rollout statuses idx c acc) (accOK F {} n (Suc r) 0 (b + B) (Suc a))"
proof -
  define acc1 where "acc1 = acc\<lparr>kaWorkNames := fmupd c {||} (kaWorkNames acc)\<rparr>"
  define acc2 where "acc2 = (if selectorRBACEnabled rs
    then (bumpReady acc1)\<lparr>kaStatus := bumpAccessReady (kaStatus (bumpReady acc1))\<rparr> else bumpReady acc1)"
  let ?T = "targets idx (fmget (reClusterPlacementRefs res) c)"
  have acc1: "accOK F ?T n r 0 b a acc1" using assms(2) accOK_none [of F ?T] by (simp add: acc1_def)
  have ready: "accOK F ?T n (Suc r) 0 b a (bumpReady acc1)" by (rule accOK_bumpReady [OF acc1 assms(5)])
  have acc2: "accOK F ?T n (Suc r) 0 b (Suc a) acc2"
    using accOK_bumpAccess [OF ready assms(4)] accOK_mono [OF ready, of "Suc r" 0 b "Suc a"] by (simp add: acc2_def)
  have weak: "accOK F ?T n (Suc r) 0 (b + B) (Suc a) acc1" by (rule accOK_mono [OF acc1]) simp_all
  have "yields (do { status \<leftarrow> aggregateExistingRBACSummary R rs c ref (fmget (reClusterPlacementRefs res) c) idx (kaStatus acc2);
      return (acc2\<lparr>kaStatus := status\<rparr>) }) (accOK F ?T n (Suc r) 0 (b + B) (Suc a))" for ref
    using acc2 by (intro yields_bind [OF yields_aggregateExisting [OF keys refl _ assms(3) slices]])
      (auto intro!: yields_return simp: accOK_def aggOK_def)
  then have "yields (clusterStep R rs res rollout statuses idx c acc) (accOK F ?T n (Suc r) 0 (b + B) (Suc a))"
    using weak yields_rolloutCluster [OF keys refl acc1 assms(3-5) slices]
    by (simp add: clusterStep_def Let_def acc1_def [symmetric] acc2_def [symmetric] yields_return)
  then show ?thesis by (rule yields_weaken) (simp only: accOK_none [of F ?T])
qed

section \<open>All clusters\<close>

text \<open>Every cluster needs at most \<open>B\<close> slices, whatever the resolver and the server answer.\<close>

definition slicesBounded :: "'e reconciler \<Rightarrow> replicaSet \<Rightarrow> nat \<Rightarrow> bool" where
  "slicesBounded R rs B \<longleftrightarrow> (\<forall>c. yields (desiredRBACSlices R rs c) (\<lambda>x. length (fst x) \<le> B))"

lemma indexPlacementsByKey_lookup:
  assumes "fmlookup (indexPlacementsByKey ps) k = Some i"
  shows "i < length ps \<and> psName (ps ! i) = k"
proof -
  have "fmlookup (fold (\<lambda>i idx. fmupd (psName (ps ! i)) i idx) js idx) k = Some i \<Longrightarrow>
      fmlookup idx k = Some i \<or> i \<in> set js \<and> psName (ps ! i) = k" for js idx
    by (induction js arbitrary: idx) (force split: if_splits)+
  from this [of "[0..<length ps]" fmempty] assms show ?thesis by (simp add: indexPlacementsByKey_def)
qed

lemma goodKeys_index: "distinct keys \<Longrightarrow> goodKeys (indexPlacementsByKey ps) keys"
  using indexPlacementsByKey_lookup [of ps] by (auto simp: goodKeys_def)

lemma yields_clusters:
  assumes B: "slicesBounded R rs B" "n * B < 2 ^ 31" "n < 2 ^ 31" and n: "length cs = n"
    and keys: "\<And>c. goodKeys idx (fmget (reClusterPlacementRefs res) c)" and acc: "accOK F {} n 0 0 0 0 acc"
  shows "yields (mfold (clusterStep R rs res rollout statuses idx) cs acc) (accOK F {} n n 0 (n * B) n)"
proof -
  have "yields (mfold (clusterStep R rs res rollout statuses idx) cs acc) (accOK F {} n (length cs) 0 (length cs * B) (length cs))"
  proof (rule yields_mfold [where I = "\<lambda>xs. accOK F {} n (length xs) 0 (length xs * B) (length xs)"])
    fix xs x ys and acc :: childAcc
    assume cs: "cs = xs @ x # ys" and inv: "accOK F {} n (length xs) 0 (length xs * B) (length xs) acc"
    have le: "Suc (length xs) \<le> n" using cs n by simp
    then have "Suc (length xs) * B \<le> n * B" by (rule mult_le_mono1)
    with B(2) have small: "length xs * B + B < 2 ^ 31" by simp
    have "Suc (length xs) < 2 ^ 31" using le B(3) by simp
    from yields_clusterStep [where R = R and rs = rs and c = x and rollout = rollout and statuses = statuses, OF keys inv small this this]
    show "yields (clusterStep R rs res rollout statuses idx x acc)
        (accOK F {} n (length (xs @ [x])) 0 (length (xs @ [x]) * B) (length (xs @ [x])))"
      using B(1) by (simp add: slicesBounded_def add.commute)
  qed (use acc in simp)
  then show ?thesis by (simp add: n)
qed

text \<open>What the children leave: the counts within their bounds, the rest as it was.\<close>

definition childrenOK :: "lib \<Rightarrow> replicaSet \<Rightarrow> replicaSetStatus \<Rightarrow> nat \<Rightarrow> nat \<Rightarrow> childReconcileResult \<times> replicaSetStatus \<Rightarrow> bool" where
  "childrenOK L rs st n b = (\<lambda>(result, st'). 0 \<le> crrReady result \<and> crrReady result \<le> int n \<and>
     (\<exists>st0. st' = concludeControllerAccess L rs st0 \<and> slotOK {} 0 b st0 \<and> accessOK n n st0 \<and>
        clearCounts st0 = clearCounts (initControllerAccess rs n st)))"

lemma yields_reconcileChildren:
  assumes B: "slicesBounded R rs B" "n * B < 2 ^ 31" "n < 2 ^ 31" and n: "length (reClusters resolution) = n"
    and keys: "\<And>c. distinct (fmget (reClusterPlacementRefs resolution) c)"
    and st: "stSummary st = None" "stControllerAccess st = None" "stSelectedClusterCount st = int n"
      "\<forall>p \<in> set (stPlacements st). psSummary p = None"
  shows "yields (reconcileChildren R rs resolution names cleanup statuses st) (childrenOK (rLib R) rs st n (n * B))"
proof -
  let ?acc = "\<lparr>kaResult = childReconcileResult_zero, kaStatus = initControllerAccess rs n st, kaWorkNames = fmempty\<rparr>"
  have init: "accOK (clearCounts (initControllerAccess rs n st)) {} n 0 0 0 0 ?acc"
    using B(3) by (simp add: accOK_def slotOK_def accessOK_def initControllerAccess_def st sumOK_zero
        childReconcileResult_zero_def int32_of_nat)
  have finish: "childrenOK (rLib R) rs st n (n * B) (result, concludeControllerAccess (rLib R) rs (kaStatus acc))"
    if "accOK (clearCounts (initControllerAccess rs n st)) {} n n 0 (n * B) n acc" "crrReady result = crrReady (kaResult acc)" for acc result
    using that by (auto simp: childrenOK_def accOK_def)
  show ?thesis
    unfolding reconcileChildren_def Let_def n
    by (rule yields_bind [OF yields_clusters [OF B n goodKeys_index [OF keys] init]])
      (auto intro!: yields_after yields_return finish)
qed

section \<open>Placements\<close>

text \<open>The status of a placement as resolved: nothing counted but some of the selected clusters \<open>C\<close>.\<close>

definition freshPlacement :: "strset \<Rightarrow> placementStatus \<Rightarrow> bool" where
  "freshPlacement C q \<longleftrightarrow> psSummary q = None \<and> psRollout q = None \<and>
     (\<exists>D. D |\<subseteq>| C \<and> psSelectedClusterCount q = int32 (int (fcard D)))"

lemma freshPlacement_mono: "freshPlacement C q \<Longrightarrow> C |\<subseteq>| C' \<Longrightarrow> freshPlacement C' q"
  unfolding freshPlacement_def by (meson order_trans)

lemma noteResolved_fresh:
  assumes "\<forall>q \<in> set (rePlacementStatuses (fst acc)). freshPlacement (snd acc) q" "psSummary st = None" "psRollout st = None"
  shows "\<forall>q \<in> set (rePlacementStatuses (fst (noteResolved L g ref pl groups st err acc))).
    freshPlacement (snd (noteResolved L g ref pl groups st err acc)) q"
proof -
  have len: "length (sorted_list_of_fset D) = fcard D" for D :: strset
    using length_filter_fset [of "\<lambda>_. True" D] by simp
  have "D |\<subseteq>| E |\<union>| fset_of_list (sorted_list_of_fset D)" for D E :: strset
    by (auto simp: sorted_list_of_fset.rep_eq fset_of_list.rep_eq)
  with assms show ?thesis
    by (auto simp: noteResolved_def Let_def len intro: freshPlacement_mono)
      (auto simp: freshPlacement_def len split: option.split)
qed

lemma yields_resolvePlacementRefs:
  "yields (resolvePlacementRefs R rs g) (\<lambda>p. \<forall>q \<in> set (rePlacementStatuses p). freshPlacement (fset_of_list (reClusters p)) q)"
proof -
  have one: "yields (resolvePlacementRef R rs ref g prev) (\<lambda>(pl, groups, st, err). psSummary st = None \<and> psRollout st = None)" for ref prev
    unfolding resolvePlacementRef_def Let_def
    by (rule yields_after) (auto intro!: yields_return simp: placementStatus_new_def split: prod.split)
  have step: "yields (resolveStep R rs g ref acc) (\<lambda>acc. \<forall>q \<in> set (rePlacementStatuses (fst acc)). freshPlacement (snd acc) q)"
    if "\<forall>q \<in> set (rePlacementStatuses (fst acc)). freshPlacement (snd acc) q" for ref acc
    unfolding resolveStep_def
    by (rule yields_bind [OF one], clarsimp simp only: prod.case) (rule yields_return, rule noteResolved_fresh, use that in simp_all)
  have loop: "yields (mfold (resolveStep R rs g) refs (resolution_zero, {||}))
      (\<lambda>acc. \<forall>q \<in> set (rePlacementStatuses (fst acc)). freshPlacement (snd acc) q)" for refs
    by (rule yields_mfold) (simp_all add: resolution_zero_def step)
  have "fset_of_list (sorted_list_of_fset D) = D" for D :: strset
    by (auto simp: fset_of_list.rep_eq sorted_list_of_fset.rep_eq)
  then show ?thesis
    unfolding resolvePlacementRefs_def by (intro yields_bind [OF loop] yields_return) simp
qed

section \<open>Written statuses\<close>

text \<open>Nothing counted exceeds what it is counted among, for the set and for each placement.\<close>

definition summaryConsistent :: "summary \<Rightarrow> bool" where
  "summaryConsistent s \<longleftrightarrow> 0 \<le> suApplied s \<and> suApplied s \<le> suTotal s \<and> 0 \<le> suAvailable s \<and> suAvailable s \<le> suTotal s \<and>
     0 \<le> suDegraded s \<and> suDegraded s \<le> suTotal s \<and> 0 \<le> suProgressing s \<and> suProgressing s \<le> suTotal s \<and>
     0 \<le> suUpdated s \<and> suUpdated s \<le> suTotal s \<and> suTotal s \<le> suDesiredTotal s"

definition optionally :: "('a \<Rightarrow> bool) \<Rightarrow> 'a option \<Rightarrow> bool" where
  "optionally P x = (case x of None \<Rightarrow> True | Some a \<Rightarrow> P a)"

lemma optionally_simps [simp]: "optionally P None" "optionally P (Some a) = P a"
  by (simp_all add: optionally_def)

definition countersOK :: "replicaSetStatus \<Rightarrow> bool" where
  "countersOK st \<longleftrightarrow> 0 \<le> stReadyClusterCount st \<and> stReadyClusterCount st \<le> stSelectedClusterCount st \<and>
     optionally summaryConsistent (stSummary st) \<and> optionally rolloutWithin (stRollout st) \<and>
     optionally (\<lambda>a. 0 \<le> caReadyClusterCount a \<and> caReadyClusterCount a \<le> caDesiredClusterCount a) (stControllerAccess st) \<and>
     (\<forall>q \<in> set (stPlacements st). 0 \<le> psSelectedClusterCount q \<and> psSelectedClusterCount q \<le> stSelectedClusterCount st \<and>
        optionally summaryConsistent (psSummary q) \<and> optionally rolloutWithin (psRollout q))"

lemma sumOK_consistent: "sumOK k b s \<Longrightarrow> summaryConsistent s"
  unfolding sumOK_def summaryConsistent_def by linarith

lemma countersOK_cong:
  "stReadyClusterCount st = stReadyClusterCount st' \<Longrightarrow> stSelectedClusterCount st = stSelectedClusterCount st' \<Longrightarrow>
   stSummary st = stSummary st' \<Longrightarrow> stControllerAccess st = stControllerAccess st' \<Longrightarrow> stRollout st = stRollout st' \<Longrightarrow>
   stPlacements st = stPlacements st' \<Longrightarrow> countersOK st = countersOK st'"
  by (simp add: countersOK_def)

lemma countersOK_conditions [simp]:
  "countersOK (setStatusCond L t s r m g st) = countersOK st"
  "countersOK (setNotDeletingCondition L g st) = countersOK st"
  "countersOK (setEarlyReturnConditions L reason msg g st) = countersOK st"
  "countersOK (applyChildResultConditions L result n g remote st) = countersOK st"
  "countersOK (finalStatus L rs k result st) = countersOK (st\<lparr>stReadyClusterCount := crrReady result\<rparr>)"
  by (simp_all add: setNotDeletingCondition_def setEarlyReturnConditions_def applyChildResultConditions_def finalStatus_def Let_def
      countersOK_cong [of "setStatusCond L t s r m g st" st for L t s r m g st] split: option.split)

text \<open>A resolution of \<open>n\<close> clusters.\<close>

definition resolvedOK :: "lib \<Rightarrow> replicaSet \<Rightarrow> nat \<Rightarrow> placementResolution \<Rightarrow> bool" where
  "resolvedOK L rs n p \<longleftrightarrow> length (reClusters p) = n \<and> (\<forall>q \<in> set (rePlacementStatuses p). freshPlacement (fset_of_list (reClusters p)) q) \<and>
     map psName (rePlacementStatuses p) = map prName (spPlacementRefs (setSpec rs)) \<and>
     (\<forall>c. distinct (fmget (reClusterPlacementRefs p) c)) \<and>
     (\<forall>ref \<in> set (spPlacementRefs (setSpec rs)).
        sdk_GetClusters L (fmget (reClusterGroupsByRef p) (prName ref)) |\<subseteq>| fset_of_list (reClusters p))"

lemma resolvePlacementRefs_resolvedOK:
  assumes "distinct (map prName (spPlacementRefs (setSpec rs)))" "run_state (resolvePlacementRefs R rs g) w = (p, w')"
  shows "resolvedOK (rLib R) rs (length (reClusters p)) p"
proof -
  from resolvePlacementRefs_emits [OF assms(1)] assms(2)
  have ok: "resolutionOK (rLib R) (spPlacementRefs (setSpec rs)) p" by (rule emitsD)
  have "distinct (map prName (filter P (spPlacementRefs (setSpec rs))))" for P
    using assms(1) by (rule distinct_map_filter)
  with ok yieldsD [OF yields_resolvePlacementRefs assms(2)] show ?thesis
    by (auto simp: resolvedOK_def resolutionOK_def selects_def fset_of_list.rep_eq)
qed

lemma freshPlacement_selected:
  assumes "freshPlacement (fset_of_list cs) q" "length cs = n" "n < 2 ^ 30"
  shows "0 \<le> psSelectedClusterCount q" "psSelectedClusterCount q \<le> int n"
proof -
  obtain D where D: "D |\<subseteq>| fset_of_list cs" "psSelectedClusterCount q = int32 (int (fcard D))"
    using assms(1) by (auto simp: freshPlacement_def)
  have "fcard (fset_of_list cs) \<le> length cs" by (simp add: fcard.rep_eq fset_of_list.rep_eq card_length)
  with fcard_mono [OF D(1)] assms(2) have "fcard D \<le> n" by simp
  then show "0 \<le> psSelectedClusterCount q" "psSelectedClusterCount q \<le> int n"
    using assms(3) by (simp_all add: D(2) int32_of_nat)
qed

text \<open>The status before the children: the clusters are counted and the rollout is planned.\<close>

definition preparedStatus :: "lib \<Rightarrow> replicaSet \<Rightarrow> nat \<Rightarrow> replicaSetStatus \<Rightarrow> bool" where
  "preparedStatus L rs n st \<longleftrightarrow> stReadyClusterCount st = 0 \<and> stSummary st = None \<and> stControllerAccess st = None \<and>
     stSelectedClusterCount st = int n \<and> optionally (planned L rs) (stRollout st) \<and>
     (\<forall>q \<in> set (stPlacements st). psSummary q = None \<and> 0 \<le> psSelectedClusterCount q \<and> psSelectedClusterCount q \<le> int n \<and>
        optionally (planned L rs) (psRollout q))"

lemma optionally_mono: "optionally P x \<Longrightarrow> (\<And>a. P a \<Longrightarrow> Q a) \<Longrightarrow> optionally Q x"
  by (cases x) simp_all

lemma preparedStatus_counters: "preparedStatus L rs n st \<Longrightarrow> countersOK st"
  unfolding preparedStatus_def countersOK_def by (auto intro: optionally_mono [OF _ planned_within])

lemma resolved_prepared:
  assumes "resolvedOK L rs n p" "n < 2 ^ 30"
  shows "preparedStatus L rs n (resolvedStatus rs p)" "preparedStatus L rs n (observedStatus L' rs p)"
proof -
  have "0 \<le> psSelectedClusterCount q" "psSelectedClusterCount q \<le> int n" "psSummary q = None" "psRollout q = None"
    if "q \<in> set (rePlacementStatuses p)" for q
    using freshPlacement_selected [of "reClusters p" q n] that assms by (auto simp: resolvedOK_def freshPlacement_def)
  moreover have "int32 (int (length (reClusters p))) = int n" using assms by (simp add: resolvedOK_def int32_of_nat)
  ultimately show "preparedStatus L rs n (resolvedStatus rs p)"
    by (simp add: preparedStatus_def resolvedStatus_def newStatus_def)
  then show "preparedStatus L rs n (observedStatus L' rs p)"
    by (simp add: preparedStatus_def observedStatus_def setStatusCond_def)
qed

lemma planned_prepared:
  assumes "preparedStatus L rs n st" "planOK L rs plan"
  shows "preparedStatus L rs n (plannedStatus L rs plan st)"
proof -
  have "optionally (planned L rs) (plnSummary plan)" "optionally (planned L rs) (fmlookup (plnPlacementRollouts plan) key)" for key
    using assms(2) by (auto simp: planOK_def optionally_def split: option.split)
  with assms(1) have "preparedStatus L rs n (applyPlacementRolloutStatus plan (st\<lparr>stRollout := plnSummary plan\<rparr>))"
    by (simp add: preparedStatus_def applyPlacementRolloutStatus_def)
  then show ?thesis
    by (auto simp: plannedStatus_def applyPlacementRolledOutCondition_def preparedStatus_def setStatusCond_def split: option.split)
qed

text \<open>What two statuses with the same rest have in common.\<close>

lemma clearCounts_eqD:
  assumes "clearCounts st = clearCounts st'"
  shows "stRollout st = stRollout st'" "stConditions st = stConditions st'" "stObservedGeneration st = stObservedGeneration st'"
    "map psName (stPlacements st) = map psName (stPlacements st')"
    "map_option caConditions (stControllerAccess st) = map_option caConditions (stControllerAccess st')"
    "\<And>q. q \<in> set (stPlacements st) \<Longrightarrow> \<exists>q' \<in> set (stPlacements st'). q = q'\<lparr>psSummary := psSummary q\<rparr>"
proof -
  have eqs: "map (\<lambda>p. p\<lparr>psSummary := None\<rparr>) (stPlacements st) = map (\<lambda>p. p\<lparr>psSummary := None\<rparr>) (stPlacements st')"
    "map_option (\<lambda>a. a\<lparr>caReadyClusterCount := 0\<rparr>) (stControllerAccess st) = map_option (\<lambda>a. a\<lparr>caReadyClusterCount := 0\<rparr>) (stControllerAccess st')"
    using arg_cong [OF assms, of stPlacements] arg_cong [OF assms, of stControllerAccess] by (simp_all add: clearCounts_def)
  show "stRollout st = stRollout st'" "stConditions st = stConditions st'" "stObservedGeneration st = stObservedGeneration st'"
    using arg_cong [OF assms, of stRollout] arg_cong [OF assms, of stConditions] arg_cong [OF assms, of stObservedGeneration]
    by (simp_all add: clearCounts_def)
  show "map psName (stPlacements st) = map psName (stPlacements st')"
    using arg_cong [OF eqs(1), of "map psName"] by (simp add: comp_def)
  show "map_option caConditions (stControllerAccess st) = map_option caConditions (stControllerAccess st')"
    using arg_cong [OF eqs(2), of "map_option caConditions"] by (simp add: option.map_comp comp_def)
  fix q
  assume "q \<in> set (stPlacements st)"
  with arg_cong [OF eqs(1), of set] obtain q' where q': "q' \<in> set (stPlacements st')" "q\<lparr>psSummary := None\<rparr> = q'\<lparr>psSummary := None\<rparr>"
    by auto
  from q'(2) have "q = q'\<lparr>psSummary := psSummary q\<rparr>" by (cases q, cases q') simp
  with q' show "\<exists>q' \<in> set (stPlacements st'). q = q'\<lparr>psSummary := psSummary q\<rparr>" by blast
qed

lemma initControllerAccess_other [simp]:
  "stRollout (initControllerAccess rs n st) = stRollout st" "stConditions (initControllerAccess rs n st) = stConditions st"
  "stObservedGeneration (initControllerAccess rs n st) = stObservedGeneration st" "stPlacements (initControllerAccess rs n st) = stPlacements st"
  by (simp_all add: initControllerAccess_def)

lemma concludeControllerAccess_other [simp]:
  "stSummary (concludeControllerAccess L rs st) = stSummary st" "stRollout (concludeControllerAccess L rs st) = stRollout st"
  "stSelectedClusterCount (concludeControllerAccess L rs st) = stSelectedClusterCount st"
  "stPlacements (concludeControllerAccess L rs st) = stPlacements st" "stConditions (concludeControllerAccess L rs st) = stConditions st"
  "stObservedGeneration (concludeControllerAccess L rs st) = stObservedGeneration st"
  "accessOK n a (concludeControllerAccess L rs st) = accessOK n a st"
  by (auto simp: concludeControllerAccess_def accessOK_def split: option.splits)

lemma childrenOK_counters:
  assumes "preparedStatus L' rs n st" "childrenOK L rs st n b (result, st')"
  shows "countersOK (st'\<lparr>stReadyClusterCount := crrReady result\<rparr>)"
proof -
  from assms(2) obtain st0 where st0: "st' = concludeControllerAccess L rs st0" "slotOK {} 0 b st0" "accessOK n n st0"
    "clearCounts st0 = clearCounts (initControllerAccess rs n st)" and ready: "0 \<le> crrReady result" "crrReady result \<le> int n"
    by (auto simp: childrenOK_def)
  have "accessOK n n st'" using st0 by simp
  then have access: "stSelectedClusterCount st' = int n"
    "optionally (\<lambda>a. 0 \<le> caReadyClusterCount a \<and> caReadyClusterCount a \<le> caDesiredClusterCount a) (stControllerAccess st')"
    by (auto simp: accessOK_def optionally_def split: option.splits)
  have consistent: "optionally summaryConsistent x" if "sumOK 0 b (ensureSummary x)" for x
    using sumOK_consistent that by (cases x) auto
  have rollout: "optionally rolloutWithin (stRollout st')"
    using assms(1) clearCounts_eqD(1) [OF st0(4)] by (auto simp: st0(1) preparedStatus_def intro: optionally_mono [OF _ planned_within])
  have placement: "0 \<le> psSelectedClusterCount q \<and> psSelectedClusterCount q \<le> int n \<and>
      optionally summaryConsistent (psSummary q) \<and> optionally rolloutWithin (psRollout q)" if "q \<in> set (stPlacements st')" for q
  proof -
    have q: "q \<in> set (stPlacements st0)" using that st0(1) by simp
    from clearCounts_eqD(6) [OF st0(4) q] obtain q' where q': "q' \<in> set (stPlacements st)" "q = q'\<lparr>psSummary := psSummary q\<rparr>" by auto
    then have "psSelectedClusterCount q = psSelectedClusterCount q'" "psRollout q = psRollout q'"
      by (metis placementStatus.select_convs(2) placementStatus.surjective placementStatus.update_convs(3),
          metis placementStatus.select_convs(4) placementStatus.surjective placementStatus.update_convs(3))
    moreover have "optionally summaryConsistent (psSummary q)"
      using q st0(2) by (intro consistent) (auto simp: slotOK_def in_set_conv_nth)
    ultimately show ?thesis
      using assms(1) q'(1) by (auto simp: preparedStatus_def intro: optionally_mono [OF _ planned_within])
  qed
  have "optionally summaryConsistent (stSummary st')" using st0 by (intro consistent) (simp add: slotOK_def)
  with access rollout placement ready show ?thesis by (simp add: countersOK_def)
qed

lemma countersOK_new [simp]: "countersOK (newStatus rs)" "countersOK ((newStatus rs)\<lparr>stObservedGeneration := g\<rparr>)"
  by (simp_all add: countersOK_def newStatus_def)

text \<open>What a bounded reconciliation applies: the last shape of a candidate, with all that is known of it.\<close>

lemma applied_children:
  assumes L: "sdk_library (rLib R)" and B: "slicesBounded R rs B" "n * B < 2 ^ 31" "n < 2 ^ 30" and p: "resolvedOK (rLib R) rs n p"
    and plan: "producible (planRollout R rs p) (Inr plan)"
    and children: "producible (reconcileChildren R rs p (plnClusters plan) (plnCleanupClusters plan) (plnStatuses plan)
      (plannedStatus (rLib R) rs plan (observedStatus (rLib R) rs p))) x"
  shows "planOK (rLib R) rs plan" "preparedStatus (rLib R) rs n (plannedStatus (rLib R) rs plan (observedStatus (rLib R) rs p))"
    "childrenOK (rLib R) rs (plannedStatus (rLib R) rs plan (observedStatus (rLib R) rs p)) n (n * B) x"
proof -
  show ok: "planOK (rLib R) rs plan"
    using producibleD [OF plan yields_planRollout [OF L]] p B(3) by (simp add: resolvedOK_def)
  show prep: "preparedStatus (rLib R) rs n (plannedStatus (rLib R) rs plan (observedStatus (rLib R) rs p))"
    by (rule planned_prepared [OF resolved_prepared(2) [OF p B(3)] ok])
  show "childrenOK (rLib R) rs (plannedStatus (rLib R) rs plan (observedStatus (rLib R) rs p)) n (n * B) x"
    by (rule producibleD [OF children yields_reconcileChildren [OF B(1,2)]])
      (use B(3) p prep in \<open>simp_all add: resolvedOK_def preparedStatus_def\<close>)
qed

lemma candidate_counters:
  assumes "sdk_library (rLib R)" "slicesBounded R rs B" "n * B < 2 ^ 31" "n < 2 ^ 30" "resolvedOK (rLib R) rs n p" "candidate R rs p st"
  shows "countersOK st"
  using assms(6)
proof cases
  case (applied plan result status)
  note known = applied_children [OF assms(1-5) applied(2,3)]
  from childrenOK_counters [OF known(2,3)] applied(1) show ?thesis by simp
qed (use preparedStatus_counters [OF resolved_prepared(1) [OF assms(5,4)]] preparedStatus_counters [OF resolved_prepared(2) [OF assms(5,4)]]
  in \<open>simp_all add: waitingStatus_def\<close>)

lemma Reconcile_counters:
  assumes "finalizer_library (rLib R)" "sdk_library (rLib R)" "run_state (getSet R req) w = (Inr rs, w0)"
    and "distinct (map prName (spPlacementRefs (setSpec rs)))"
    and "slicesBounded R rs B" "n * B < 2 ^ 31" "n < 2 ^ 30"
    and "run_state (resolvePlacementRefs R rs (setGeneration rs)) w0 = (p, w1)" "length (reClusters p) = n"
  shows "\<exists>es. trace (snd (run_state (Reconcile R req) w)) = trace w @ GetSet req (Inr rs) # es \<and>
    (\<forall>base new r. PatchSetStatus base new r \<in> set es \<longrightarrow> countersOK (setStatus new))"
proof -
  have "resolvedOK (rLib R) rs n p" using resolvePlacementRefs_resolvedOK [OF assms(4,8)] assms(9) by simp
  note counters = candidate_counters [OF assms(2,5-7) this]
  obtain es where
    "trace (snd (run_state (Reconcile R req) w)) = trace w @ GetSet req (Inr rs) # es"
    "\<And>base new r. PatchSetStatus base new r \<in> set es \<Longrightarrow> candidate R rs p (setStatus new)"
    by (rule Reconcile_candidates [OF assms(1,3,8)]) blast
  with counters show ?thesis by blast
qed

end
