(* ===== verification/Label_Validity.thy ===== *)
theory Label_Validity
  imports Children
begin

text \<open>
  Whether the labels of generated objects are label values at all. Kubernetes admits values of at
  most 63 characters from a small alphabet; the controller writes names of sets and placements, grant
  ids and hashes into labels (\<^verbatim>\<open>metadata.go\<close>, \<^verbatim>\<open>rbac.go\<close>). The lemmas decide when they are valid,
  and show that a specification can pass every validation and still give labels that are not.
\<close>

definition labelAlnum :: "char \<Rightarrow> bool" where
  "labelAlnum c \<longleftrightarrow> c \<in> set (''0123456789abcdefghijklmnopqrstuvwxyz'' @ ''ABCDEFGHIJKLMNOPQRSTUVWXYZ'')"

definition validLabelValue :: "string \<Rightarrow> bool" where
  "validLabelValue v \<longleftrightarrow> v = [] \<or> length v \<le> 63 \<and> labelAlnum (hd v) \<and> labelAlnum (last v) \<and>
     list_all (\<lambda>c. labelAlnum c \<or> c \<in> set ''-_.'') v"

definition labelsValid :: "kv \<Rightarrow> bool" where
  "labelsValid m \<longleftrightarrow> fmpred (\<lambda>k v. validLabelValue v) m"

lemma labelsValidI: "(\<And>k v. fmlookup m k = Some v \<Longrightarrow> validLabelValue v) \<Longrightarrow> labelsValid m"
  by (simp add: labelsValid_def fmpred_iff)

lemma labelsValidD: "labelsValid m \<Longrightarrow> fmlookup m k = Some v \<Longrightarrow> validLabelValue v"
  by (auto simp: labelsValid_def fmpred_iff)

lemma labelsValid_upd: "labelsValid (fmupd k v m) \<longleftrightarrow> validLabelValue v \<and> labelsValid (fmdrop k m)"
  by (auto simp: labelsValid_def fmpred_iff)

lemma labelsValid_drop: "labelsValid m \<Longrightarrow> labelsValid (fmdrop k m)"
  by (auto simp: labelsValid_def fmpred_iff split: if_splits)

lemma constants_valid [simp]: "validLabelValue controllerName" "validLabelValue ''true''"
  by (simp_all add: validLabelValue_def controllerName_def labelAlnum_def)

lemma hex_alnum: "list_all labelAlnum ''0123456789abcdef''"
  by (simp add: labelAlnum_def)

lemma stableHash_valid [simp]: "validLabelValue (stableHash v)"
proof -
  have "labelAlnum c" if "c \<in> set (stableHash v)" for c
    using that stableHash_chars [of v] hex_alnum unfolding list_all_iff by blast
  moreover have "stableHash v \<noteq> []" by (metis length_stableHash list.size(3) zero_neq_numeral)
  ultimately show ?thesis by (auto simp: validLabelValue_def list_all_iff)
qed

text \<open>The three values every generated object carries.\<close>

definition sourceValid :: "replicaSet \<Rightarrow> bool" where
  "sourceValid rs \<longleftrightarrow> validLabelValue (setName rs) \<and> validLabelValue (setNamespace rs) \<and> validLabelValue (setUID rs)"

lemma sourceLabels_valid: "labelsValid (sourceLabels rs) \<longleftrightarrow> sourceValid rs"
proof
  assume "labelsValid (sourceLabels rs)"
  from labelsValidD [OF this] show "sourceValid rs"
    using sourceLabels_lookup [of rs] unfolding sourceValid_def by blast
next
  assume "sourceValid rs"
  then show "labelsValid (sourceLabels rs)"
    by (auto simp: labelsValid_def fmpred_iff sourceLabels_def sourceValid_def fmlookup_of_list map_of_Cons_code split: if_splits)
qed

context label_library
begin

lemma labelsValid_Merge: "labelsValid (sanitizedMetadata a) \<Longrightarrow> labelsValid b \<Longrightarrow> labelsValid (labels_Merge L (sanitizedMetadata a) b)"
  by (auto intro!: labelsValidI simp: Merge_lookup dest: labelsValidD split: option.splits)

lemma childLabels_validI:
  assumes "sourceValid rs" "validLabelValue ref" "labelsValid (sanitizedMetadata extra)"
  shows "labelsValid (childLabels L rs ref extra)"
proof -
  have "labelsValid (fmupd labelPlacementRefName ref (sourceLabels rs))"
    using assms by (simp add: labelsValid_upd labelsValid_drop sourceLabels_valid)
  from labelsValid_Merge [OF assms(3) this] show ?thesis
    by (simp add: childLabels_def Let_def labelsValid_upd labelsValid_drop split: option.split)
qed

lemma childLabels_validD:
  assumes "labelsValid (childLabels L rs ref extra)"
  shows "sourceValid rs" "validLabelValue ref" "labelsValid (sanitizedMetadata extra)"
proof -
  have "labelsValid (sourceLabels rs)"
    using labelsValidD [OF assms] childLabels_owned [of rs ref extra] by (auto intro!: labelsValidI simp: ownedBySet_iff)
  then show "sourceValid rs" by (simp add: sourceLabels_valid)
  show "validLabelValue ref"
    by (rule labelsValidD [OF assms, of labelPlacementRefName])
      (simp add: childLabels_lookup_reserved reservedChildMetadataKeys_def)
  show "labelsValid (sanitizedMetadata extra)"
    using labelsValidD [OF assms childLabels_lookup_user]
    by (auto intro!: labelsValidI simp: sanitizedMetadata_lookup split: if_splits)
qed

end

section \<open>Properties\<close>

text \<open>
  C27: Labels are well formed exactly when their sources are. The labels of a generated child are valid
  label values if and only if the set's name, namespace and UID, the name of the placement
  reference and the user's labels that are kept are. The labels of a rendered RBAC object are valid when
  these, the grant's id and labels and the namespace are.
\<close>

theorem generated_labels_valid:
  assumes "label_library L"
  shows "(labelsValid (childLabels L rs ref extra) \<longleftrightarrow>
      sourceValid rs \<and> validLabelValue ref \<and> labelsValid (sanitizedMetadata extra)) \<and>
    (sourceValid rs \<and> validLabelValue (gID g) \<and> labelsValid (sanitizedMetadata (gmLabels (gMetadata g))) \<and>
       validLabelValue ns \<longrightarrow> labelsValid (rbacObjectLabels L rs g ns))"
proof (intro conjI impI)
  show "labelsValid (childLabels L rs ref extra) \<longleftrightarrow>
      sourceValid rs \<and> validLabelValue ref \<and> labelsValid (sanitizedMetadata extra)"
    using label_library.childLabels_validI [OF assms] label_library.childLabels_validD [OF assms] by blast
  assume "sourceValid rs \<and> validLabelValue (gID g) \<and> labelsValid (sanitizedMetadata (gmLabels (gMetadata g))) \<and> validLabelValue ns"
  with label_library.labelsValid_Merge [OF assms, of "gmLabels (gMetadata g)" "sourceLabels rs"]
  show "labelsValid (rbacObjectLabels L rs g ns)"
    by (simp add: rbacObjectLabels_def Let_def labelsValid_upd labelsValid_drop sourceLabels_valid)
qed

lemma sampleLabels_valid:
  "sourceValid sampleSet \<and> validLabelValue ''all'' \<and> labelsValid (sanitizedMetadata (fmap_of_list [(''team'', ''blue'')]))"
  by code_simp

theorem generated_labels_valid_witness:
  "labelsValid (childLabels ref_lib sampleSet ''all'' (fmap_of_list [(''team'', ''blue'')]))"
  using generated_labels_valid [OF ref.label_library_axioms, of sampleSet "''all''" "fmap_of_list [(''team'', ''blue'')]"]
    sampleLabels_valid by simp

text \<open>A set that refers to a placement with a name of 64 characters.\<close>

definition longRef :: string where
  "longRef = replicate 64 (CHR ''p'')"

definition longRefSet :: replicaSet where
  "longRefSet = clusterOnlySet\<lparr>setSpec := (setSpec clusterOnlySet)\<lparr>spPlacementRefs :=
     [\<lparr>prName = longRef, prRolloutStrategy = \<lparr>rsType = [], rsSettings = []\<rparr>\<rparr>]\<rparr>\<rparr>"

text \<open>
  Valid placement names can give invalid labels. A reference to a placement with a name of 64
  characters, within the 253 the API admits, passes the runtime validation, but the
  ManagedServiceAccounts generated for it carry a label value that is too long, so that no API
  server that checks labels accepts them.
\<close>

theorem long_placement_name_invalid_label:
  assumes "label_library L"
  shows "validateRuntimeSpec longRefSet = None \<and> map prName (spPlacementRefs (setSpec longRefSet)) = [longRef] \<and>
    length longRef \<le> 253 \<and> \<not> labelsValid (omLabels (msaMeta (buildManagedServiceAccount L longRefSet c longRef)))"
proof -
  have "validateRuntimeSpec longRefSet = None"
    by (simp add: longRefSet_def longRef_def clusterOnlySet_def sampleSpec_def validateRuntimeSpec_def sampleClusterGrant_def
        sampleRule_def validateGrantMetadata_def validateGrantObjectNames_def defaultRolloutStrategy_def StrategyAll_def
        StrategyProgressive_def StrategyProgressivePerGroup_def namespaceModes_def Let_def)
  moreover have "\<not> validLabelValue longRef" by (simp add: validLabelValue_def longRef_def)
  ultimately show ?thesis
    using label_library.childLabels_validD(2) [OF assms]
    by (auto simp: buildManagedServiceAccount_def Let_def longRefSet_def longRef_def)
qed

theorem long_placement_name_invalid_label_witness:
  "\<not> labelsValid (omLabels (msaMeta (buildManagedServiceAccount ref_lib longRefSet ''c1'' longRef)))"
  using long_placement_name_invalid_label [OF ref.label_library_axioms, of "''c1''"] by simp

end
