(* ===== verification/Admission.thy ===== *)
theory Admission
  imports Label_Validity Status
begin

text \<open>
  What the API server checks before the controller sees a set: the kubebuilder markers and CEL rules of
  \<^verbatim>\<open>managedserviceaccountreplicaset_types.go\<close>, type by type, as predicates on the decoded objects. An optional
  field is present when it is not the zero value: the markers reject empty strings and lists that are
  present. The lemmas compare admission with the runtime validation, the API defaults with those in the
  code, and the promises of the API comments with what becomes of user metadata; a message of
  the status with the limit of its field; and the name of the template with the name of the
  controller's own account.
\<close>

section \<open>Names\<close>

definition dnsAlnum :: "char \<Rightarrow> bool" where
  "dnsAlnum c \<longleftrightarrow> c \<in> set ''0123456789abcdefghijklmnopqrstuvwxyz''"

text \<open>The markers \<^verbatim>\<open>MinLength=1\<close>, \<^verbatim>\<open>MaxLength=63\<close> and \<^verbatim>\<open>Pattern=^[a-z0-9]([-a-z0-9]*[a-z0-9])?$\<close>.\<close>

definition dnsName :: "string \<Rightarrow> bool" where
  "dnsName s \<longleftrightarrow> s \<noteq> [] \<and> length s \<le> 63 \<and> dnsAlnum (hd s) \<and> dnsAlnum (last s) \<and>
     list_all (\<lambda>c. dnsAlnum c \<or> c = CHR ''-'') s"

text \<open>Lengths are in code points: the bytes of the string that do not continue one.\<close>

definition codePoints :: "string \<Rightarrow> nat" where
  "codePoints s = length (filter (\<lambda>c. (of_char c :: nat) div 64 \<noteq> 2) s)"

section \<open>Markers\<close>

definition admitsPlacementRef :: "placementRef \<Rightarrow> bool" where
  "admitsPlacementRef ref \<longleftrightarrow> 1 \<le> codePoints (prName ref) \<and> codePoints (prName ref) \<le> 253 \<and>
     rsType (prRolloutStrategy ref) \<in> {StrategyAll, StrategyProgressive, StrategyProgressivePerGroup}"

definition admitsTemplateMetadata :: "templateMetadata \<Rightarrow> bool" where
  "admitsTemplateMetadata m \<longleftrightarrow> dnsName (tmName m) \<and> dnsName (tmNamespace m) \<and>
     fcard (fmdom (tmLabels m)) \<le> 32 \<and> fcard (fmdom (tmAnnotations m)) \<le> 32"

definition admitsTemplateSpec :: "templateSpec \<Rightarrow> bool" where
  "admitsTemplateSpec s \<longleftrightarrow> (case tsTTLSecondsAfterCreation s of None \<Rightarrow> True | Some n \<Rightarrow> n \<ge> 1)"

definition admitsNamespaceIterator :: "namespaceIterator \<Rightarrow> bool" where
  "admitsNamespaceIterator it \<longleftrightarrow> (niName it = [] \<or> dnsName (niName it)) \<and>
     distinct (niNames it) \<and> list_all dnsName (niNames it)"

definition admitsGrantMetadata :: "rbacGrantMetadata \<Rightarrow> bool" where
  "admitsGrantMetadata m \<longleftrightarrow> dnsName (gmName m) \<and> fcard (fmdom (gmLabels m)) \<le> 32 \<and> fcard (fmdom (gmAnnotations m)) \<le> 32"

text \<open>The two CEL rules of \<^verbatim>\<open>RBACGrant\<close>.\<close>

definition grantTypeRule :: "rbacGrant \<Rightarrow> bool" where
  "grantTypeRule g \<longleftrightarrow> (if gType g = ''ClusterRole'' then gForEachNamespace g = None else gForEachNamespace g \<noteq> None)"

definition grantModeRule :: "rbacGrant \<Rightarrow> bool" where
  "grantModeRule g \<longleftrightarrow> (case gForEachNamespace g of None \<Rightarrow> True
     | Some it \<Rightarrow> (if niName it \<noteq> [] then 1 else 0) + (if niNames it \<noteq> [] then 1 else 0) +
         (if niSelector it \<noteq> None then 1 else 0) = (1 :: int))"

definition admitsGrant :: "rbacGrant \<Rightarrow> bool" where
  "admitsGrant g \<longleftrightarrow> dnsName (gID g) \<and> gType g \<in> {RBACGrantTypeRole, RBACGrantTypeClusterRole} \<and>
     (case gForEachNamespace g of None \<Rightarrow> True | Some it \<Rightarrow> admitsNamespaceIterator it) \<and>
     admitsGrantMetadata (gMetadata g) \<and> 1 \<le> length (gRules g) \<and> length (gRules g) \<le> 32 \<and>
     grantTypeRule g \<and> grantModeRule g"

text \<open>\<^verbatim>\<open>self.grants.all(g, self.grants.exists_one(h, h.id == g.id))\<close>, and the list is a map keyed by id.\<close>

definition admitsRBAC :: "rbacSpec \<Rightarrow> bool" where
  "admitsRBAC r \<longleftrightarrow> length (rbGrants r) \<le> 128 \<and> list_all admitsGrant (rbGrants r) \<and>
     list_all (\<lambda>g. length (filter (\<lambda>h. gID h = gID g) (rbGrants r)) = 1) (rbGrants r)"

definition admitsSpec :: "replicaSetSpec \<Rightarrow> bool" where
  "admitsSpec s \<longleftrightarrow> 1 \<le> length (spPlacementRefs s) \<and> length (spPlacementRefs s) \<le> 16 \<and>
     distinct (map prName (spPlacementRefs s)) \<and> list_all admitsPlacementRef (spPlacementRefs s) \<and>
     admitsTemplateMetadata (tplMetadata (spTemplate s)) \<and> admitsTemplateSpec (tplSpec (spTemplate s)) \<and>
     (case spRBAC s of None \<Rightarrow> True | Some r \<Rightarrow> admitsRBAC r)"

text \<open>The keys named by the CEL rules of the root type.\<close>

definition templateRuleKeys :: "string list" where
  "templateRuleKeys = [''app.kubernetes.io/managed-by'', ''app.kubernetes.io/part-of'', ''authentication.appthrust.io/set-name'',
     ''authentication.appthrust.io/set-namespace'', ''authentication.appthrust.io/set-uid'',
     ''authentication.appthrust.io/placement-ref-name'']"

definition grantRuleKeys :: "string list" where
  "grantRuleKeys = [''app.kubernetes.io/managed-by'', ''app.kubernetes.io/part-of'', ''authentication.appthrust.io/set-name'',
     ''authentication.appthrust.io/set-namespace'', ''authentication.appthrust.io/set-uid'',
     ''authentication.appthrust.io/placement-ref-name'', ''authentication.appthrust.io/grant-id'',
     ''authentication.appthrust.io/slice-type'', ''authentication.appthrust.io/target-namespace'',
     ''authentication.appthrust.io/target-namespace-hash'', ''authentication.appthrust.io/spec-hash'',
     ''authentication.open-cluster-management.io/sync-to-clusterprofile'']"

definition avoidsKeys :: "string list \<Rightarrow> kv \<Rightarrow> bool" where
  "avoidsKeys ks m \<longleftrightarrow> list_all (\<lambda>k. fmlookup m k = None) ks"

definition admitsSet :: "replicaSet \<Rightarrow> bool" where
  "admitsSet rs \<longleftrightarrow> admitsSpec (setSpec rs) \<and>
     avoidsKeys templateRuleKeys (tmLabels (setTemplateMetadata rs)) \<and>
     avoidsKeys templateRuleKeys (tmAnnotations (setTemplateMetadata rs)) \<and>
     list_all (\<lambda>g. avoidsKeys grantRuleKeys (gmLabels (gMetadata g))) (setGrants rs) \<and>
     list_all (\<lambda>g. avoidsKeys grantRuleKeys (gmAnnotations (gMetadata g))) (setGrants rs)"

text \<open>
  The markers \<^verbatim>\<open>default\<close>: a strategy that is absent, or without a type, gets the type \<^verbatim>\<open>All\<close>; \<^verbatim>\<open>rotation.enabled\<close>
  is filled in when \<^verbatim>\<open>rotation\<close> itself is in the request, which the decoded object does not tell.
\<close>

definition apiDefaults :: "bool \<Rightarrow> replicaSet \<Rightarrow> replicaSet" where
  "apiDefaults rotationPresent rs = rs\<lparr>setSpec := (setSpec rs)\<lparr>
     spPlacementRefs := map (\<lambda>ref. ref\<lparr>prRolloutStrategy := (let s = prRolloutStrategy ref in
       if rsType s = [] then s\<lparr>rsType := ''All''\<rparr> else s)\<rparr>) (spPlacementRefs (setSpec rs)),
     spTemplate := (spTemplate (setSpec rs))\<lparr>tplSpec := (setTemplateSpec rs)\<lparr>tsRotation :=
       (let r = tsRotation (setTemplateSpec rs) in
        if rotationPresent \<and> rotEnabled r = None then r\<lparr>rotEnabled := Some True\<rparr> else r)\<rparr>\<rparr>\<rparr>\<rparr>"

section \<open>Admission and validation\<close>

lemma dnsName_label: "dnsName s \<Longrightarrow> validLabelValue s"
proof -
  assume s: "dnsName s"
  have "labelAlnum c" if "dnsAlnum c" for c using that by (auto simp: dnsAlnum_def labelAlnum_def)
  with s show ?thesis by (auto simp: dnsName_def validLabelValue_def list_all_iff)
qed

lemma exists_one_distinct:
  "list_all (\<lambda>g. length (filter (\<lambda>h. f h = f g) gs) = 1) gs \<longleftrightarrow> distinct (map f gs)"
proof (induction gs)
  case (Cons g gs)
  have "length (filter (\<lambda>h. f h = f g) gs) = 0 \<longleftrightarrow> f g \<notin> f ` set gs"
    by (auto simp: filter_empty_conv image_iff)
  with Cons show ?case by (auto simp: list_all_iff filter_empty_conv image_iff)
qed simp

lemma reserved_keys:
  "set grantRuleKeys = set reservedGrantMetadataKeys"
  "set templateRuleKeys \<subseteq> set reservedChildMetadataKeys"
  by (simp_all add: grantRuleKeys_def templateRuleKeys_def reservedGrantMetadataKeys_def reservedChildMetadataKeys_def key_defs)

lemma admitsGrant_valid:
  assumes "admitsGrant g" "avoidsKeys grantRuleKeys (gmLabels (gMetadata g))" "avoidsKeys grantRuleKeys (gmAnnotations (gMetadata g))"
  shows "grantValid g"
proof -
  have "gType g = RBACGrantTypeRole \<and> namespaceModes g = 1 \<or> gType g = RBACGrantTypeClusterRole \<and> namespaceModes g = 0"
    using assms(1) by (auto simp: admitsGrant_def grantTypeRule_def grantModeRule_def namespaceModes_def
        RBACGrantTypeRole_def RBACGrantTypeClusterRole_def split: option.splits if_splits)
  then show ?thesis
    using assms by (auto simp: grantValid_def admitsGrant_def admitsGrantMetadata_def dnsName_def avoidsKeys_def
        list_all_iff reserved_keys)
qed

lemma codePoints_empty [simp]: "codePoints [] = 0"
  by (simp add: codePoints_def)

lemma admitsSet_grants:
  assumes "admitsSet rs"
  shows "\<forall>g \<in> set (setGrants rs). grantValid g" "distinct (map gID (setGrants rs))"
proof -
  show "distinct (map gID (setGrants rs))"
    using assms by (auto simp: admitsSet_def admitsSpec_def admitsRBAC_def setGrants_def exists_one_distinct [unfolded One_nat_def] split: option.splits)
  have "list_all admitsGrant (setGrants rs)"
    using assms by (auto simp: admitsSet_def admitsSpec_def admitsRBAC_def setGrants_def split: option.splits)
  with assms show "\<forall>g \<in> set (setGrants rs). grantValid g"
    by (auto simp: admitsSet_def list_all_iff intro!: admitsGrant_valid)
qed

section \<open>Failures in a message\<close>

lemma strings_Join_snoc: "ps \<noteq> [] \<Longrightarrow> strings_Join (ps @ [p]) sep = strings_Join ps sep @ sep @ p"
  by (induction ps sep rule: strings_Join.induct) simp_all

lemma strings_Join_length:
  "length (strings_Join ps sep) = sum_list (map length ps) + (length ps - 1) * length sep"
  by (induction ps sep rule: strings_Join.induct) simp_all

lemma crrErr_recordErr:
  "map_option error_text (crrErr (recordErr e r)) = (if isChildConflict e then map_option error_text (crrErr r)
     else Some (case crrErr r of None \<Rightarrow> error_text e | Some x \<Rightarrow> error_text x @ [CHR 0x0A] @ error_text e))"
  by (simp add: recordErr_def errors_Join_def List.map_filter_def split: option.split)

lemma recordErr_text:
  "map_option error_text (crrErr (fold recordErr errs childReconcileResult_zero)) =
     (if filter (\<lambda>e. \<not> isChildConflict e) errs = [] then None
      else Some (strings_Join (map error_text (filter (\<lambda>e. \<not> isChildConflict e) errs)) [CHR 0x0A]))"
proof (induction errs rule: rev_induct)
  case Nil
  show ?case by (simp add: childReconcileResult_zero_def)
next
  case (snoc e errs)
  then show ?case
    by (cases "crrErr (fold recordErr errs childReconcileResult_zero)")
      (auto simp: crrErr_recordErr strings_Join_snoc split: if_splits)
qed

lemma avoids_reserved:
  assumes "label_library L" "avoidsKeys grantRuleKeys (gmLabels (gMetadata g))" "avoidsKeys grantRuleKeys (gmAnnotations (gMetadata g))"
  shows "fmlookup (gmLabels (gMetadata g)) k = Some v \<Longrightarrow> fmlookup (rbacObjectLabels L rs g ns) k = Some v"
    and "fmlookup (gmAnnotations (gMetadata g)) k = Some v \<Longrightarrow> fmlookup (rbacObjectAnnotations L rs g ns) k = Some v"
proof -
  have avoids: "k \<notin> set reservedGrantMetadataKeys" if "avoidsKeys grantRuleKeys m" "fmlookup m k = Some v" for m
    using that by (auto simp: avoidsKeys_def list_all_iff reserved_keys)
  have keep: "fmlookup (labels_Merge L (sanitizedMetadata m) n) k = Some v"
    if "avoidsKeys grantRuleKeys m" "fmlookup m k = Some v" "fmdom' n \<subseteq> set reservedGrantMetadataKeys" for m n
  proof -
    have "k \<notin> set reservedGrantMetadataKeys" by (rule avoids [OF that(1,2)])
    moreover from this that(3) have "fmlookup n k = None" by (intro fmdom'_notD) blast
    ultimately show ?thesis
      using that(2) by (simp add: label_library.Merge_lookup [OF assms(1)] sanitizedMetadata_lookup reservedGrantMetadataKeys_def)
  qed
  have source: "fmdom' (sourceLabels rs) \<subseteq> set reservedGrantMetadataKeys" "fmdom' (sourceAnnotations rs) \<subseteq> set reservedGrantMetadataKeys"
    by (auto simp: sourceLabels_def sourceAnnotations_def reservedGrantMetadataKeys_def reservedChildMetadataKeys_def)
  show "fmlookup (rbacObjectLabels L rs g ns) k = Some v" if "fmlookup (gmLabels (gMetadata g)) k = Some v"
    using keep [OF assms(2) that source(1)] avoids [OF assms(2) that]
    by (auto simp: rbacObjectLabels_def Let_def reservedGrantMetadataKeys_def reservedChildMetadataKeys_def)
  show "fmlookup (rbacObjectAnnotations L rs g ns) k = Some v" if "fmlookup (gmAnnotations (gMetadata g)) k = Some v"
    using keep [OF assms(3) that source(2)] avoids [OF assms(3) that]
    by (auto simp: rbacObjectAnnotations_def Let_def reservedGrantMetadataKeys_def reservedChildMetadataKeys_def key_defs)
qed

section \<open>Properties\<close>

text \<open>
  C21: What validation adds to admission. For a set the API server admits, the runtime validation fails
  exactly when two ClusterRole grants have one name, or two Role grants one name in one fixed namespace;
  every other check of it repeats a marker or a rule of the API.
\<close>

theorem admitted_validation:
  assumes "admitsSet rs"
  shows "validateRuntimeSpec rs = None \<longleftrightarrow>
    distinct (clusterRoleNames (setGrants rs)) \<and> distinct (concat (map fixedRoleKeys (setGrants rs)))"
proof -
  have "spPlacementRefs (setSpec rs) \<noteq> []" "tmName (setTemplateMetadata rs) \<noteq> []" "tmNamespace (setTemplateMetadata rs) \<noteq> []"
    "\<forall>ref \<in> set (spPlacementRefs (setSpec rs)). prName ref \<noteq> [] \<and>
       rsType (prRolloutStrategy ref) \<in> {[], StrategyAll, StrategyProgressive, StrategyProgressivePerGroup}"
    using assms by (auto simp: admitsSet_def admitsSpec_def admitsTemplateMetadata_def dnsName_def list_all_iff admitsPlacementRef_def)
  with admitsSet_grants [OF assms] show ?thesis
    unfolding validateRuntimeSpec_None runtimeSpecValid_def by blast
qed

text \<open>The example set, stored with its defaults and with a template label whose key is reserved.\<close>

definition admittedSet :: replicaSet where
  "admittedSet = apiDefaults True (sampleSet\<lparr>setSpec := (sampleSpec [sampleRoleGrant, sampleClusterGrant])\<lparr>spTemplate :=
     (spTemplate (setSpec sampleSet))\<lparr>tplMetadata := (setTemplateMetadata sampleSet)\<lparr>tmLabels :=
       fmap_of_list [(''team'', ''blue''), (labelGrantID, ''mine'')]\<rparr>\<rparr>\<rparr>\<rparr>)"

lemma admittedSet_admitted: "admitsSet admittedSet"
  by code_simp

theorem admitted_validation_witness: "validateRuntimeSpec admittedSet = None"
  unfolding admitted_validation [OF admittedSet_admitted] by code_simp

text \<open>
  C29: What becomes of the metadata of an admitted set. Every label and annotation of a grant appears
  unchanged on the RBAC objects rendered for it. A label of the template appears unchanged on the
  generated ManagedServiceAccounts unless its key is one of five that the controller reserves and the
  rules of the API do not name: such a label is admitted and dropped without an error.
\<close>

theorem admitted_metadata:
  assumes "label_library L" "admitsSet rs"
  shows "(\<forall>g \<in> set (setGrants rs). \<forall>k v ns.
      (fmlookup (gmLabels (gMetadata g)) k = Some v \<longrightarrow> fmlookup (rbacObjectLabels L rs g ns) k = Some v) \<and>
      (fmlookup (gmAnnotations (gMetadata g)) k = Some v \<longrightarrow> fmlookup (rbacObjectAnnotations L rs g ns) k = Some v)) \<and>
    (\<forall>k v c ref. fmlookup (tmLabels (setTemplateMetadata rs)) k = Some v \<longrightarrow>
      fmlookup (omLabels (msaMeta (buildManagedServiceAccount L rs c ref))) k =
        (if k \<in> {labelGrantID, labelSliceType, labelTargetNamespace, labelTargetNamespaceHash, annotationSpecHash}
         then None else Some v))"
proof (intro conjI ballI allI impI)
  fix k v c ref
  assume look: "fmlookup (tmLabels (setTemplateMetadata rs)) k = Some v"
  then have "k \<notin> set templateRuleKeys"
    using assms(2) by (auto simp: admitsSet_def avoidsKeys_def list_all_iff)
  then have reserved: "k \<in> set reservedChildMetadataKeys \<longleftrightarrow>
      k \<in> {labelGrantID, labelSliceType, labelTargetNamespace, labelTargetNamespaceHash, annotationSpecHash}"
    by (auto simp: templateRuleKeys_def reservedChildMetadataKeys_def key_defs)
  have dropped: "fmlookup (childLabels L rs ref m) k = None"
    if "k \<in> {labelGrantID, labelSliceType, labelTargetNamespace, labelTargetNamespaceHash, annotationSpecHash}" for m
    using that by (auto simp: childLabels_def Let_def label_library.Merge_lookup [OF assms(1)] sanitizedMetadata_lookup
        sourceLabels_def reservedChildMetadataKeys_def key_defs split: option.split)
  show "fmlookup (omLabels (msaMeta (buildManagedServiceAccount L rs c ref))) k =
      (if k \<in> {labelGrantID, labelSliceType, labelTargetNamespace, labelTargetNamespaceHash, annotationSpecHash}
       then None else Some v)"
    using dropped label_library.childLabels_lookup_user [OF assms(1), of k "tmLabels (setTemplateMetadata rs)" v] look reserved
    by (auto simp: buildManagedServiceAccount_def Let_def)
qed (use assms in \<open>auto simp: admitsSet_def list_all_iff intro: avoids_reserved\<close>)

theorem admitted_metadata_witness:
  "fmlookup (omLabels (msaMeta (buildManagedServiceAccount ref_lib admittedSet ''c1'' ''all''))) ''team'' = Some ''blue'' \<and>
   fmlookup (omLabels (msaMeta (buildManagedServiceAccount ref_lib admittedSet ''c1'' ''all''))) labelGrantID = None"
proof -
  have "fmlookup (tmLabels (setTemplateMetadata admittedSet)) ''team'' = Some ''blue''"
    "fmlookup (tmLabels (setTemplateMetadata admittedSet)) labelGrantID = Some ''mine''"
    by (simp_all add: admittedSet_def apiDefaults_def sampleSpec_def labelGrantID_def)
  with admitted_metadata [OF ref.label_library_axioms admittedSet_admitted] show ?thesis
    by (simp add: key_defs)
qed

text \<open>
  The defaults of the API and of the code agree. Whether or not the API server has filled in the
  rollout strategies and the rotation, the validation gives the same verdict, the placement references have
  the same strategies and the generated ManagedServiceAccounts are the same.
\<close>

theorem api_defaults_agree:
  "validateRuntimeSpec (apiDefaults p rs) = validateRuntimeSpec rs \<and>
   map (\<lambda>ref. (prName ref, defaultRolloutStrategy (prRolloutStrategy ref))) (spPlacementRefs (setSpec (apiDefaults p rs))) =
     map (\<lambda>ref. (prName ref, defaultRolloutStrategy (prRolloutStrategy ref))) (spPlacementRefs (setSpec rs)) \<and>
   buildManagedServiceAccount L (apiDefaults p rs) c ref = buildManagedServiceAccount L rs c ref"
proof -
  have default: "defaultRolloutStrategy (if rsType s = [] then s\<lparr>rsType := ''All''\<rparr> else s) = defaultRolloutStrategy s" for s
    by (simp add: defaultRolloutStrategy_def StrategyAll_def)
  have refs: "validatePlacementRefs (map (\<lambda>ref. ref\<lparr>prRolloutStrategy := (let s = prRolloutStrategy ref in
      if rsType s = [] then s\<lparr>rsType := ''All''\<rparr> else s)\<rparr>) xs) = validatePlacementRefs xs" for xs
    by (induction xs) (auto simp: Let_def default defaultRolloutStrategy_def StrategyAll_def)
  have "validateRuntimeSpec (apiDefaults p rs) = validateRuntimeSpec rs"
    by (simp add: validateRuntimeSpec_def apiDefaults_def refs split: option.split)
  moreover have "buildManagedServiceAccount L (apiDefaults p rs) c ref = buildManagedServiceAccount L rs c ref"
    by (simp add: buildManagedServiceAccount_def apiDefaults_def childLabels_def childAnnotations_def sourceLabels_def
        sourceAnnotations_def Let_def)
  ultimately show ?thesis by (simp add: apiDefaults_def default Let_def comp_def)
qed

text \<open>
  C30: The message of a failed pass. When clusters fail, whatever conflicts there are besides, the Ready
  condition of the status says so in a message that has the text of every failure on a line of its own;
  its length grows with the number of failures and is not limited.
\<close>

theorem failure_message_exact:
  assumes "condition_library L" "failures = filter (\<lambda>e. \<not> isChildConflict e) errs" "failures \<noteq> []"
  shows "\<exists>msg. statusView L (applyChildResultConditions L (fold recordErr errs childReconcileResult_zero) n g remote st) conditionReady =
      Some (ConditionFalse, reasonApplyFailed, msg, g) \<and>
    msg = strings_Join (map error_text failures) [CHR 0x0A] \<and>
    length msg = sum_list (map (length \<circ> error_text) failures) + (length failures - 1)"
proof -
  obtain err where "crrErr (fold recordErr errs childReconcileResult_zero) = Some err"
    "error_text err = strings_Join (map error_text failures) [CHR 0x0A]"
    using recordErr_text [of errs] assms(2,3) by auto
  then show ?thesis
    by (simp add: applyChildResultConditions_def Let_def condition_library.statusView_setStatusCond [OF assms(1)]
        condition_types strings_Join_length comp_def)
qed

text \<open>Twelve hundred clusters without a namespace: more than the 32768 characters the field admits.\<close>

theorem failure_message_exact_witness:
  "\<exists>msg. statusView ref_lib (applyChildResultConditions ref_lib
      (fold recordErr (replicate 1200 (ApiNotFound ''namespaces \"cluster\" not found'')) childReconcileResult_zero)
      1200 1 True sampleStatus) conditionReady = Some (ConditionFalse, reasonApplyFailed, msg, 1) \<and> 32768 < length msg"
proof -
  let ?errs = "replicate 1200 (ApiNotFound ''namespaces \"cluster\" not found'')"
  have "filter (\<lambda>e. \<not> isChildConflict e) ?errs = ?errs" by (rule filter_True) simp
  moreover have "?errs \<noteq> []" by simp
  ultimately obtain msg where "statusView ref_lib (applyChildResultConditions ref_lib (fold recordErr ?errs childReconcileResult_zero)
      1200 1 True sampleStatus) conditionReady = Some (ConditionFalse, reasonApplyFailed, msg, 1)"
    "length msg = sum_list (map (length \<circ> error_text) ?errs) + (length ?errs - 1)"
    using failure_message_exact [OF ref.condition_library_axioms, of ?errs ?errs 1200 1 True sampleStatus] by auto
  then show ?thesis by (auto simp: sum_list_replicate)
qed

text \<open>A set whose template has the name of the account the controller generates for itself.\<close>

definition collidingSet :: replicaSet where
  "collidingSet = admittedSet\<lparr>setSpec := (setSpec admittedSet)\<lparr>
     spTemplate := \<lparr>tplMetadata = (setTemplateMetadata admittedSet)\<lparr>tmName := ''viewer-controller-access''\<rparr>,
       tplSpec = (setTemplateSpec admittedSet)\<lparr>tsTTLSecondsAfterCreation := Some 3600\<rparr>\<rparr>,
     spRBAC := Some \<lparr>rbGrants = [sampleRoleGrant\<lparr>gForEachNamespace := Some \<lparr>niName = [], niNames = [],
       niSelector = Some \<lparr>lsMatchLabels = fmempty, lsMatchExpressions = []\<rparr>\<rparr>\<rparr>]\<rparr>\<rparr>\<rparr>"

text \<open>Ensuring one account where an account like another, owned one is stored: it is patched.\<close>

lemma ensure_overwrites:
  assumes "run_state (ccGet (msaClient R) (objectKey (msaMeta new))) w = (Inr x, w1)" "childMatches (msaClient R) x old msaSpecOps"
    and "ownedBySet L rs (omLabels (msaMeta old))" "msaSpecOf old \<noteq> msaSpecOf new"
  shows "run_state (ensureChild L (msaClient R) rs new msaSpecOps) w =
    run_state (ccPatch (msaClient R) x (patchedChild (msaClient R) x new msaSpecOps)) w1"
  using assms by (simp add: ensureChild_def childMatches_def msaSpecOps_def)

text \<open>
  C28: Two accounts under one name. The name of the template is not compared with that of the
  controller's own account. A set can be admitted and valid and want two accounts under one key:
  where the server has the one, ensuring the other patches it, in both directions and so again in every
  reconciliation.
\<close>

theorem access_account_collides:
  assumes "label_library (rLib R)"
  shows "admitsSet collidingSet \<and> validateRuntimeSpec collidingSet = None \<and> selectorRBACEnabled collidingSet \<and>
    (let cc = msaClient R; own = buildManagedServiceAccount (rLib R) collidingSet c ref;
         access = buildControllerAccessManagedServiceAccount (rLib R) collidingSet c ref
     in objectKey (msaMeta own) = objectKey (msaMeta access) \<and>
        (\<forall>x w w1. run_state (ccGet cc (objectKey (msaMeta own))) w = (Inr x, w1) \<longrightarrow>
          (childMatches cc x own msaSpecOps \<longrightarrow> run_state (ensureControllerAccessManagedServiceAccount R collidingSet c ref) w =
             run_state (ccPatch cc x (patchedChild cc x access msaSpecOps)) w1) \<and>
          (childMatches cc x access msaSpecOps \<longrightarrow> run_state (ensureManagedServiceAccount R collidingSet c ref) w =
             run_state (ccPatch cc x (patchedChild cc x own msaSpecOps)) w1)))"
proof -
  let ?own = "buildManagedServiceAccount (rLib R) collidingSet c ref"
    and ?access = "buildControllerAccessManagedServiceAccount (rLib R) collidingSet c ref"
  have "admitsSet collidingSet" "validateRuntimeSpec collidingSet = None" "selectorRBACEnabled collidingSet" by code_simp+
  moreover have "controllerAccessManagedServiceAccountName collidingSet = tmName (setTemplateMetadata collidingSet)"
    "tsTTLSecondsAfterCreation (setTemplateSpec collidingSet) = Some 3600" by code_simp+
  then have key: "objectKey (msaMeta ?own) = objectKey (msaMeta ?access)" and spec: "msaSpecOf ?own \<noteq> msaSpecOf ?access"
    by (simp_all add: Let_def buildManagedServiceAccount_def buildControllerAccessManagedServiceAccount_def)
  have owned: "ownedBySet (rLib R) collidingSet (omLabels (msaMeta ?own))" "ownedBySet (rLib R) collidingSet (omLabels (msaMeta ?access))"
    by (simp_all add: Let_def buildManagedServiceAccount_def buildControllerAccessManagedServiceAccount_def
        label_library.childLabels_owned [OF assms])
  note overwrites = ensure_overwrites [OF _ _ owned(1) spec] ensure_overwrites [OF _ _ owned(2) spec [symmetric]]
  ultimately show ?thesis
    unfolding Let_def ensureManagedServiceAccount_def ensureControllerAccessManagedServiceAccount_def
    by (intro conjI allI impI key overwrites) (simp_all add: key)
qed

theorem access_account_collides_witness:
  "let own = buildManagedServiceAccount ref_lib collidingSet ''c1'' ''all'';
       access = buildControllerAccessManagedServiceAccount ref_lib collidingSet ''c1'' ''all''; cc = msaClient (hubReconciler ref_lib)
   in admitsSet collidingSet \<and> validateRuntimeSpec collidingSet = None \<and>
      run_state (ensureControllerAccessManagedServiceAccount (hubReconciler ref_lib) collidingSet ''c1'' ''all'')
        (sampleWorld (emptyHub\<lparr>hubMSAs := [own]\<rparr>)) =
      run_state (ccPatch cc own (patchedChild cc own access msaSpecOps))
        (snd (run_state (ccGet cc (objectKey (msaMeta own))) (sampleWorld (emptyHub\<lparr>hubMSAs := [own]\<rparr>))))"
proof -
  let ?own = "buildManagedServiceAccount ref_lib collidingSet ''c1'' ''all''" and ?cc = "msaClient (hubReconciler ref_lib)"
  let ?w = "sampleWorld (emptyHub\<lparr>hubMSAs := [?own]\<rparr>)"
  obtain w1 where "run_state (ccGet ?cc (objectKey (msaMeta ?own))) ?w = (Inr ?own, w1)"
    by (simp add: msaClient_def call_def hubServer_def hubGet_def hubFind_def sampleWorld_def emptyHub_def)
  moreover have "childMatches ?cc ?own ?own msaSpecOps" by (simp add: childMatches_def msaSpecOps_def)
  ultimately show ?thesis
    using access_account_collides [of "hubReconciler ref_lib" "''c1''" "''all''"] ref.label_library_axioms
    by (simp add: Let_def)
qed

end
