(* ===== verification/Status_Admission.thy ===== *)
theory Status_Admission
  imports Status_Bounds Admission
begin

text \<open>
  The markers of the status types of \<^verbatim>\<open>managedserviceaccountreplicaset_types.go\<close>, as predicates, and that every
  status the controller writes satisfies them. Lists of conditions are maps keyed by type, with a
  limit; the controller only ever sets its own types, and whether a list stays within its limit depends
  on that. The markers of \<^verbatim>\<open>metav1.Condition\<close> itself are in another package.
\<close>

section \<open>Markers of the status\<close>

text \<open>\<^verbatim>\<open>MaxItems\<close>, \<^verbatim>\<open>listType=map\<close>, \<^verbatim>\<open>listMapKey=type\<close>\<close>

definition admitsConditions :: "nat \<Rightarrow> condition list \<Rightarrow> bool" where
  "admitsConditions maxItems cs \<longleftrightarrow> length cs \<le> maxItems \<and> distinct (map cType cs)"

definition admitsSummary :: "summary \<Rightarrow> bool" where
  "admitsSummary s \<longleftrightarrow> suDesiredTotal s \<ge> 0 \<and> suTotal s \<ge> 0 \<and> suApplied s \<ge> 0 \<and> suAvailable s \<ge> 0 \<and> suDegraded s \<ge> 0 \<and>
     suProgressing s \<ge> 0 \<and> suUpdated s \<ge> 0"

definition admitsRolloutSummary :: "rolloutSummary \<Rightarrow> bool" where
  "admitsRolloutSummary s \<longleftrightarrow> roTotal s \<ge> 0 \<and> roUpdating s \<ge> 0 \<and> roSucceeded s \<ge> 0 \<and> roFailed s \<ge> 0 \<and> roTimedOut s \<ge> 0 \<and>
     admitsConditions 4 (roConditions s)"

definition admitsControllerAccess :: "controllerAccessStatus \<Rightarrow> bool" where
  "admitsControllerAccess a \<longleftrightarrow> caDesiredClusterCount a \<ge> 0 \<and> caReadyClusterCount a \<ge> 0 \<and> admitsConditions 8 (caConditions a)"

definition admitsPlacementStatus :: "placementStatus \<Rightarrow> bool" where
  "admitsPlacementStatus q \<longleftrightarrow> psSelectedClusterCount q \<ge> 0 \<and> optionally admitsSummary (psSummary q) \<and>
     optionally admitsRolloutSummary (psRollout q) \<and> admitsConditions 8 (psConditions q)"

definition admitsStatus :: "replicaSetStatus \<Rightarrow> bool" where
  "admitsStatus st \<longleftrightarrow> stObservedGeneration st \<ge> 0 \<and> stSelectedClusterCount st \<ge> 0 \<and> stReadyClusterCount st \<ge> 0 \<and>
     optionally admitsSummary (stSummary st) \<and> optionally admitsRolloutSummary (stRollout st) \<and>
     optionally admitsControllerAccess (stControllerAccess st) \<and>
     length (stPlacements st) \<le> 16 \<and> distinct (map psName (stPlacements st)) \<and> list_all admitsPlacementStatus (stPlacements st) \<and>
     admitsConditions 8 (stConditions st)"

section \<open>The controller's own conditions\<close>

text \<open>A list with each of the types \<open>T\<close> at most once, and no other.\<close>

definition ownTypes :: "string list \<Rightarrow> condition list \<Rightarrow> bool" where
  "ownTypes T cs \<longleftrightarrow> distinct (map cType cs) \<and> cType ` set cs \<subseteq> set T"

definition topTypes :: "string list" where
  "topTypes = [conditionPlacementResolved, conditionManagedServiceAccountsReady, conditionRemotePermissionsApplied,
     conditionCleanupBlocked, conditionReady, conditionPlacementRolledOut]"

definition ownConditions :: "replicaSetStatus \<Rightarrow> bool" where
  "ownConditions st \<longleftrightarrow> ownTypes topTypes (stConditions st) \<and>
     optionally (\<lambda>a. ownTypes [conditionReady] (caConditions a)) (stControllerAccess st) \<and>
     optionally (\<lambda>s. ownTypes [conditionProgressing] (roConditions s)) (stRollout st) \<and>
     (\<forall>q \<in> set (stPlacements st). ownTypes [conditionPlacementResolved, conditionPlacementEmpty] (psConditions q) \<and>
        optionally (\<lambda>s. ownTypes [conditionProgressing] (roConditions s)) (psRollout q))"

lemma ownTypes_admits:
  assumes "ownTypes T cs" "length T \<le> n"
  shows "admitsConditions n cs"
proof -
  have "length cs = card (cType ` set cs)" using assms(1) distinct_card [of "map cType cs"] by (simp add: ownTypes_def)
  also have "\<dots> \<le> card (set T)" using assms(1) by (intro card_mono) (simp_all add: ownTypes_def)
  also have "\<dots> \<le> length T" by (rule card_length)
  finally show ?thesis using assms by (simp add: admitsConditions_def ownTypes_def)
qed

lemma ownTypes_nil [simp]: "ownTypes T []"
  by (simp add: ownTypes_def)

text \<open>What \<^verbatim>\<open>SetStatusCondition\<close> and \<^verbatim>\<open>RemoveStatusCondition\<close> do to the types of a list.\<close>

locale condition_lists =
  fixes L :: lib
  assumes set_types: "map cType (meta_SetStatusCondition L cs c) =
      (if cType c \<in> cType ` set cs then map cType cs else map cType cs @ [cType c])"
    and remove_types: "map cType (meta_RemoveStatusCondition L cs t) = filter (\<lambda>x. x \<noteq> t) (map cType cs)"
begin

lemma ownTypes_set: "ownTypes T cs \<Longrightarrow> t \<in> set T \<Longrightarrow> ownTypes T (setCondition L cs t s reason msg g)"
proof -
  assume cs: "ownTypes T cs" and t: "t \<in> set T"
  let ?new = "setCondition L cs t s reason msg g"
  have "map cType ?new = (if t \<in> cType ` set cs then map cType cs else map cType cs @ [t])"
    by (simp add: setCondition_def set_types)
  then have "distinct (map cType ?new) \<and> set (map cType ?new) \<subseteq> set T"
    using cs t by (auto simp: ownTypes_def)
  then show ?thesis by (simp add: ownTypes_def)
qed

lemma ownTypes_remove: "ownTypes T cs \<Longrightarrow> ownTypes T (meta_RemoveStatusCondition L cs t)"
proof -
  assume cs: "ownTypes T cs"
  let ?new = "meta_RemoveStatusCondition L cs t"
  have "distinct (map cType ?new) \<and> set (map cType ?new) \<subseteq> set T"
    unfolding remove_types using cs by (auto simp: ownTypes_def)
  then show ?thesis by (simp add: ownTypes_def)
qed

lemma ownTypes_topTypes:
  "ownTypes topTypes (stConditions st) \<Longrightarrow> t \<in> set topTypes \<Longrightarrow> ownTypes topTypes (stConditions (setStatusCond L t s reason msg g st))"
  by (simp add: setStatusCond_def ownTypes_set)

end

lemma ref_set_types: "map cType (ref_set cs c) = (if cType c \<in> cType ` set cs then map cType cs else map cType cs @ [cType c])"
  by (induction cs) auto

interpretation refLists: condition_lists ref_lib
  by unfold_locales (simp_all add: ref_lib_def ref_set_types filter_map comp_def)

abbreviation ownPlacement :: "condition list \<Rightarrow> bool" where
  "ownPlacement \<equiv> ownTypes [conditionPlacementResolved, conditionPlacementEmpty]"

section \<open>Conditions of what is written\<close>

text \<open>Setting conditions of the set leaves the rest of a status.\<close>

definition sameRest :: "replicaSetStatus \<Rightarrow> replicaSetStatus \<Rightarrow> bool" where
  "sameRest st st' \<longleftrightarrow> st\<lparr>stConditions := [], stReadyClusterCount := 0\<rparr> = st'\<lparr>stConditions := [], stReadyClusterCount := 0\<rparr>"

lemma sameRest_simps [simp]:
  "sameRest st st" "sameRest (setStatusCond L t s reason msg g st) st' = sameRest st st'"
  "sameRest (st\<lparr>stReadyClusterCount := k\<rparr>) st' = sameRest st st'"
  by (simp_all add: sameRest_def setStatusCond_def)

lemma sameRest_conditions [simp]:
  "sameRest (setNotDeletingCondition L g st) st" "sameRest (setEarlyReturnConditions L reason msg g st) st"
  "sameRest (applyChildResultConditions L result n g remote st) st" "sameRest (finalStatus L rs k result st) st"
  "sameRest (applyPlacementRolledOutCondition L summ g st) st"
  by (simp_all add: setNotDeletingCondition_def setEarlyReturnConditions_def applyChildResultConditions_def finalStatus_def
      applyPlacementRolledOutCondition_def Let_def split: option.split)

lemma sameRestD:
  assumes "sameRest st st'"
  shows "stObservedGeneration st = stObservedGeneration st'" "stPlacements st = stPlacements st'" "stRollout st = stRollout st'"
    "stControllerAccess st = stControllerAccess st'"
  using assms by (cases st, cases st', simp add: sameRest_def)+

lemma ownConditions_sameRest:
  "sameRest st st' \<Longrightarrow> ownConditions st' \<Longrightarrow> ownTypes topTypes (stConditions st) \<Longrightarrow> ownConditions st"
  by (simp add: ownConditions_def sameRestD)

lemma previousRollout_own:
  assumes "ownConditions (setStatus rs)" "previousRollout rs prev"
  shows "ownTypes [conditionProgressing] prev"
proof -
  have "ownTypes [conditionProgressing] (rolloutConditions x)" if "optionally (\<lambda>s. ownTypes [conditionProgressing] (roConditions s)) x" for x
    using that by (cases x) (simp_all add: rolloutConditions_def)
  with assms show ?thesis
    by (auto simp: previousRollout_def placementRolloutConditions_def ownConditions_def find_Some_iff split: option.split)
qed

context condition_lists
begin

lemma top_in: "conditionPlacementResolved \<in> set topTypes" "conditionManagedServiceAccountsReady \<in> set topTypes"
  "conditionRemotePermissionsApplied \<in> set topTypes" "conditionCleanupBlocked \<in> set topTypes" "conditionReady \<in> set topTypes"
  "conditionPlacementRolledOut \<in> set topTypes"
  by (simp_all add: topTypes_def)

lemmas ownTypes_steps = ownTypes_topTypes [OF _ top_in(1)] ownTypes_topTypes [OF _ top_in(2)] ownTypes_topTypes [OF _ top_in(3)]
  ownTypes_topTypes [OF _ top_in(4)] ownTypes_topTypes [OF _ top_in(5)] ownTypes_topTypes [OF _ top_in(6)]

lemma ownTypes_early:
  "ownTypes topTypes (stConditions st) \<Longrightarrow> ownTypes topTypes (stConditions (setNotDeletingCondition L g st))"
  "ownTypes topTypes (stConditions st) \<Longrightarrow> ownTypes topTypes (stConditions (setEarlyReturnConditions L reason msg g st))"
  by (simp_all add: setNotDeletingCondition_def setEarlyReturnConditions_def ownTypes_steps)

lemma ownTypes_child:
  "ownTypes topTypes (stConditions st) \<Longrightarrow> ownTypes topTypes (stConditions (applyChildResultConditions L result n g remote st))"
  by (simp add: applyChildResultConditions_def Let_def ownTypes_steps split: option.split)

lemma ownTypes_final:
  assumes "ownTypes topTypes (stConditions st)"
  shows "ownTypes topTypes (stConditions (finalStatus L rs k result st))"
proof -
  have "ownTypes topTypes (stConditions (applyChildResultConditions L result k g remote (st\<lparr>stReadyClusterCount := r\<rparr>)))" for g remote r
    by (rule ownTypes_child) (use assms in simp)
  then show ?thesis by (simp add: finalStatus_def Let_def ownTypes_steps ownTypes_early)
qed

lemma ownTypes_planned:
  assumes "ownTypes topTypes (stConditions st)"
  shows "ownTypes topTypes (stConditions (plannedStatus L rs plan st))"
proof -
  have "ownTypes topTypes (stConditions (applyPlacementRolledOutCondition L summ g st'))"
    if "ownTypes topTypes (stConditions st')" for summ g st'
    using that by (simp add: applyPlacementRolledOutCondition_def ownTypes_steps split: option.split)
  with assms show ?thesis by (simp add: plannedStatus_def applyPlacementRolloutStatus_def)
qed

lemma planned_own:
  assumes "ownConditions (setStatus rs)" "planned L rs s"
  shows "ownTypes [conditionProgressing] (roConditions s)"
  using assms(2)
proof cases
  case (1 u D t m N prev)
  have "roConditions (countStatuses n u t m prev) = prev" for n
    by (simp add: countStatuses_def fold_countStatus_other)
  then show ?thesis
    using previousRollout_own [OF assms(1) 1(7)] unfolding 1(1) by (simp add: newRolloutSummary_def Let_def ownTypes_set)
qed

text \<open>The conditions of placements: those of the stored status, with two types set or removed.\<close>

lemma previousByKey_own:
  assumes "ownConditions (setStatus rs)"
  shows "ownPlacement (fmget (previousByKey rs) key)"
proof -
  have "ownPlacement (fmget (fold (\<lambda>q m. fmupd (psName q) (psConditions q) m) qs m) key)"
    if "\<forall>q \<in> set qs. ownPlacement (psConditions q)" "ownPlacement (fmget m key)" for qs m
    using that by (induction qs arbitrary: m) (auto simp: fmget_def)
  from this [of "stPlacements (setStatus rs)" fmempty] assms show ?thesis
    by (simp add: previousByKey_def ownConditions_def fmget_def)
qed

lemma resolveStep_own:
  assumes "rLib R = L" "ownConditions (setStatus rs)" "\<forall>q \<in> set (rePlacementStatuses (fst acc)). ownPlacement (psConditions q)"
  shows "yields (resolveStep R rs g ref acc) (\<lambda>acc. \<forall>q \<in> set (rePlacementStatuses (fst acc)). ownPlacement (psConditions q))"
proof -
  have one: "yields (resolvePlacementRef R rs ref g prev) (\<lambda>(pl, groups, st, err). ownPlacement (psConditions st))" if "ownPlacement prev" for prev
    unfolding resolvePlacementRef_def Let_def assms(1)
    by (rule yields_after) (use that in \<open>auto intro!: yields_return ownTypes_set simp: placementStatus_new_def split: prod.split\<close>)
  have note1: "\<forall>q \<in> set (rePlacementStatuses (fst (noteResolved L g ref pl groups st err acc))). ownPlacement (psConditions q)"
    if "ownPlacement (psConditions st)" for pl groups st err
    using assms(3) that by (auto simp: noteResolved_def Let_def ownTypes_set ownTypes_remove split: option.split)
  show ?thesis
    unfolding resolveStep_def assms(1)
    by (rule yields_bind [OF one [OF previousByKey_own [OF assms(2)]]]) (auto intro!: yields_return dest: note1)
qed

lemma resolvePlacementRefs_own:
  assumes "rLib R = L" "ownConditions (setStatus rs)"
  shows "yields (resolvePlacementRefs R rs g) (\<lambda>p. \<forall>q \<in> set (rePlacementStatuses p). ownPlacement (psConditions q))"
proof -
  have "yields (mfold (resolveStep R rs g) refs (resolution_zero, {||}))
      (\<lambda>acc. \<forall>q \<in> set (rePlacementStatuses (fst acc)). ownPlacement (psConditions q))" for refs
    by (rule yields_mfold) (simp_all add: resolution_zero_def resolveStep_own [OF assms])
  then show ?thesis unfolding resolvePlacementRefs_def by (rule yields_bind) (simp add: yields_return)
qed

lemma resolvedStatus_own:
  assumes "ownConditions (setStatus rs)" "\<forall>q \<in> set (rePlacementStatuses p). ownPlacement (psConditions q)"
    "\<forall>q \<in> set (rePlacementStatuses p). psRollout q = None"
  shows "ownConditions (resolvedStatus rs p)" "ownConditions (observedStatus L rs p)"
proof -
  show resolved: "ownConditions (resolvedStatus rs p)"
    using assms by (simp add: ownConditions_def resolvedStatus_def newStatus_def)
  then have "ownTypes topTypes (stConditions (setStatusCond L conditionPlacementResolved s reason msg g (resolvedStatus rs p)))" for s reason msg g
    by (intro ownTypes_steps) (simp add: ownConditions_def)
  with resolved show "ownConditions (observedStatus L rs p)"
    by (simp add: ownConditions_def observedStatus_def setStatusCond_def)
qed

lemma plannedStatus_own:
  assumes "ownConditions (setStatus rs)" "planOK L rs plan" "ownConditions st" "stControllerAccess st = None"
  shows "ownConditions (plannedStatus L rs plan st)"
proof -
  have rollouts: "optionally (\<lambda>s. ownTypes [conditionProgressing] (roConditions s)) (plnSummary plan)"
    "optionally (\<lambda>s. ownTypes [conditionProgressing] (roConditions s)) (fmlookup (plnPlacementRollouts plan) key)" for key
    using assms(2) planned_own [OF assms(1)] by (auto simp: planOK_def optionally_def split: option.split)
  have "sameRest (plannedStatus L rs plan st) (applyPlacementRolloutStatus plan (st\<lparr>stRollout := plnSummary plan\<rparr>))"
    by (simp add: plannedStatus_def)
  moreover have "ownConditions (applyPlacementRolloutStatus plan (st\<lparr>stRollout := plnSummary plan\<rparr>))"
    using assms(3,4) rollouts by (auto simp: ownConditions_def applyPlacementRolloutStatus_def)
  moreover have "ownTypes topTypes (stConditions (plannedStatus L rs plan st))"
    by (rule ownTypes_planned) (use assms(3) in \<open>simp add: ownConditions_def\<close>)
  ultimately show ?thesis by (rule ownConditions_sameRest)
qed

lemma childrenOK_own:
  assumes "ownConditions (setStatus rs)" "ownConditions st" "stControllerAccess st = None" "childrenOK L rs st n b (result, st')"
  shows "ownConditions st'"
proof -
  from assms(4) obtain st0 where st0: "st' = concludeControllerAccess L rs st0" "clearCounts st0 = clearCounts (initControllerAccess rs n st)"
    by (auto simp: childrenOK_def)
  note same = clearCounts_eqD [OF st0(2)]
  have "optionally (\<lambda>a. ownTypes [conditionReady] (caConditions a)) (stControllerAccess st0)"
  proof (cases "stControllerAccess st0")
    case (Some a)
    with same(5) have "caConditions a = [] \<or> (\<exists>a'. stControllerAccess (setStatus rs) = Some a' \<and> caConditions a = caConditions a')"
      using assms(3) by (auto simp: initControllerAccess_def split: if_splits option.splits)
    with assms(1) Some show ?thesis by (auto simp: ownConditions_def)
  qed simp
  then have access: "optionally (\<lambda>a. ownTypes [conditionReady] (caConditions a)) (stControllerAccess st')"
    unfolding st0(1) by (cases "stControllerAccess st0") (simp_all add: concludeControllerAccess_def ownTypes_set)
  have placements: "ownPlacement (psConditions q) \<and> optionally (\<lambda>s. ownTypes [conditionProgressing] (roConditions s)) (psRollout q)"
    if q: "q \<in> set (stPlacements st0)" for q
  proof -
    from same(6) [OF q] obtain q' where q': "q' \<in> set (stPlacements st)" "q = q'\<lparr>psSummary := psSummary q\<rparr>" by auto
    have "psConditions q = psConditions q'" "psRollout q = psRollout q'"
      using arg_cong [OF q'(2), of psConditions] arg_cong [OF q'(2), of psRollout] by simp_all
    with assms(2) q'(1) show ?thesis by (auto simp: ownConditions_def)
  qed
  show ?thesis
    using access placements assms(2) same(1,2) by (simp add: ownConditions_def st0(1))
qed

lemma candidate_own:
  assumes R: "rLib R = L" and own: "ownConditions (setStatus rs)" "\<forall>q \<in> set (rePlacementStatuses p). ownPlacement (psConditions q)"
    and B: "sdk_library L" "slicesBounded R rs B" "n * B < 2 ^ 31" "n < 2 ^ 30" "resolvedOK L rs n p" and st: "candidate R rs p st"
  shows "ownConditions st"
proof -
  have "\<forall>q \<in> set (rePlacementStatuses p). psRollout q = None" using B(5) by (simp add: resolvedOK_def freshPlacement_def)
  note resolved = resolvedStatus_own [OF own this]
  have new: "ownConditions (newStatus rs)" using own(1) by (simp add: ownConditions_def newStatus_def)
  have early: "ownConditions (setEarlyReturnConditions L reason msg g st)" if "ownConditions st" for reason msg g st
    by (rule ownConditions_sameRest [OF sameRest_conditions(2) that]) (use that in \<open>simp add: ownConditions_def ownTypes_early\<close>)
  show ?thesis
    using st
  proof cases
    case (applied plan result status)
    note known = applied_children [OF B(1) [folded R] B(2-4) B(5) [folded R] applied(2,3), unfolded R]
    have "ownConditions (plannedStatus L rs plan (observedStatus L rs p))"
      by (rule plannedStatus_own [OF own(1) known(1) resolved(2)])
        (simp add: observedStatus_def resolvedStatus_def newStatus_def setStatusCond_def)
    then have "ownConditions status"
      by (rule childrenOK_own [OF own(1) _ _ known(3)]) (use known(2) in \<open>simp add: preparedStatus_def\<close>)
    then show ?thesis
      unfolding applied(1) R
      by (intro ownConditions_sameRest [OF sameRest_conditions(4)] ownTypes_final) (simp_all add: ownConditions_def)
  next
    case (waiting msg)
    have "ownTypes topTypes (stConditions (waitingStatus L rs msg))"
      unfolding waitingStatus_def by (intro ownTypes_steps) (use new in \<open>simp add: ownConditions_def\<close>)
    then show ?thesis
      unfolding waiting R by (simp add: ownConditions_def waitingStatus_def newStatus_def setStatusCond_def)
  next
    case (unplanned err)
    show ?thesis
      unfolding unplanned R
      by (intro ownConditions_sameRest [OF sameRest_conditions(3) resolved(2)] ownTypes_child)
        (use resolved(2) in \<open>simp add: ownConditions_def\<close>)
  qed (use new early resolved R in auto)
qed

end

section \<open>Admission\<close>

text \<open>The rest of a candidate: the observed generation, and the names of its placements.\<close>

lemma candidate_rest:
  assumes "sdk_library (rLib R)" "slicesBounded R rs B" "n * B < 2 ^ 31" "n < 2 ^ 30" "resolvedOK (rLib R) rs n p" "candidate R rs p st"
  shows "stObservedGeneration st \<in> {stObservedGeneration (setStatus rs), setGeneration rs}"
    "map psName (stPlacements st) \<in> {[], map prName (spPlacementRefs (setSpec rs))}"
proof -
  have names: "map psName (rePlacementStatuses p) = map prName (spPlacementRefs (setSpec rs))" using assms(5) by (simp add: resolvedOK_def)
  have "stObservedGeneration st \<in> {stObservedGeneration (setStatus rs), setGeneration rs} \<and>
    map psName (stPlacements st) \<in> {[], map prName (spPlacementRefs (setSpec rs))}"
    using assms(6)
  proof cases
    case (applied plan result status)
    note known = applied_children [OF assms(1-5) applied(2,3)]
    from known(3) obtain st0 where st0: "status = concludeControllerAccess (rLib R) rs st0"
      "clearCounts st0 = clearCounts (initControllerAccess rs n (plannedStatus (rLib R) rs plan (observedStatus (rLib R) rs p)))"
      by (auto simp: childrenOK_def)
    have planned: "sameRest (plannedStatus L rs plan st) (applyPlacementRolloutStatus plan (st\<lparr>stRollout := plnSummary plan\<rparr>))" for L st
      by (simp add: plannedStatus_def)
    show ?thesis
      using clearCounts_eqD(3,4) [OF st0(2)] sameRestD(1,2) [OF sameRest_conditions(4)] sameRestD(1,2) [OF planned]
      by (simp add: applied(1) st0(1) applyPlacementRolloutStatus_def observedStatus_def resolvedStatus_def setStatusCond_def
          comp_def names)
  qed (simp_all add: sameRestD [OF sameRest_conditions(2)] sameRestD [OF sameRest_conditions(3)] resolvedStatus_def observedStatus_def
      waitingStatus_def setStatusCond_def newStatus_def names)
  then show "stObservedGeneration st \<in> {stObservedGeneration (setStatus rs), setGeneration rs}"
    "map psName (stPlacements st) \<in> {[], map prName (spPlacementRefs (setSpec rs))}" by auto
qed

lemma status_admitted:
  assumes "countersOK st" "ownConditions st" "0 \<le> stObservedGeneration st"
    and names: "length (stPlacements st) \<le> 16" "distinct (map psName (stPlacements st))"
  shows "admitsStatus st"
proof -
  have summ: "optionally admitsSummary x" if "optionally summaryConsistent x" for x
    by (rule optionally_mono [OF that]) (simp add: summaryConsistent_def admitsSummary_def)
  have rollout: "optionally admitsRolloutSummary x"
    if "optionally rolloutWithin x" "optionally (\<lambda>s. ownTypes [conditionProgressing] (roConditions s)) x" for x
    using that ownTypes_admits [of "[conditionProgressing]" _ 4] by (cases x) (simp_all add: rolloutWithin_def admitsRolloutSummary_def)
  have access: "optionally admitsControllerAccess (stControllerAccess st)"
    using assms(1,2) ownTypes_admits [of "[conditionReady]" _ 8]
    by (cases "stControllerAccess st") (simp_all add: countersOK_def ownConditions_def admitsControllerAccess_def)
  have "admitsConditions 8 (stConditions st)"
    using assms(2) ownTypes_admits [of topTypes _ 8] by (simp add: ownConditions_def topTypes_def)
  moreover have "list_all admitsPlacementStatus (stPlacements st)"
    using assms(1,2) ownTypes_admits [of "[conditionPlacementResolved, conditionPlacementEmpty]" _ 8] summ rollout
    by (simp add: list_all_iff countersOK_def ownConditions_def admitsPlacementStatus_def)
  ultimately show ?thesis
    using assms(1,2,3) names summ rollout access by (simp add: admitsStatus_def countersOK_def ownConditions_def)
qed

lemma Reconcile_admitted:
  assumes L: "condition_lists (rLib R)" "finalizer_library (rLib R)" "sdk_library (rLib R)"
    and get: "run_state (getSet R req) w = (Inr rs, w0)" and spec: "distinct (map prName (spPlacementRefs (setSpec rs)))" "length (spPlacementRefs (setSpec rs)) \<le> 16"
    and stored: "ownConditions (setStatus rs)" "0 \<le> stObservedGeneration (setStatus rs)" "0 \<le> setGeneration rs"
    and B: "slicesBounded R rs B" "n * B < 2 ^ 31" "n < 2 ^ 30"
    and res: "run_state (resolvePlacementRefs R rs (setGeneration rs)) w0 = (p, w1)" "length (reClusters p) = n"
  shows "\<exists>es. trace (snd (run_state (Reconcile R req) w)) = trace w @ GetSet req (Inr rs) # es \<and>
    (\<forall>base new r. PatchSetStatus base new r \<in> set es \<longrightarrow> admitsStatus (setStatus new) \<and> ownConditions (setStatus new))"
proof -
  have p: "resolvedOK (rLib R) rs n p" using resolvePlacementRefs_resolvedOK [OF spec(1) res(1)] res(2) by simp
  have conditions: "\<forall>q \<in> set (rePlacementStatuses p). ownPlacement (psConditions q)"
    by (rule yieldsD [OF condition_lists.resolvePlacementRefs_own [OF L(1) refl stored(1)] res(1)])
  have "admitsStatus st \<and> ownConditions st" if st: "candidate R rs p st" for st
  proof
    show own: "ownConditions st" by (rule condition_lists.candidate_own [OF L(1) refl stored(1) conditions L(3) B p st])
    note rest = candidate_rest [OF L(3) B p st]
    from rest(2) have "length (stPlacements st) \<le> 16 \<and> distinct (map psName (stPlacements st))"
      using spec length_map [of psName "stPlacements st"] by (metis distinct.simps(1) empty_iff insert_iff le0 length_map list.size(3))
    with status_admitted [OF candidate_counters [OF L(3) B p st] own] rest(1) stored(2,3) show "admitsStatus st" by auto
  qed
  moreover obtain es where
    "trace (snd (run_state (Reconcile R req) w)) = trace w @ GetSet req (Inr rs) # es"
    "\<And>base new r. PatchSetStatus base new r \<in> set es \<Longrightarrow> candidate R rs p (setStatus new)"
    by (rule Reconcile_candidates [OF L(2) get res(1)]) blast
  ultimately show ?thesis by blast
qed

end
