(* ===== verification/Settlement.thy ===== *)
theory Settlement
  imports Convergence Program_Walk
begin

text \<open>
  Convergence of the children of all clusters. The locale \<open>sole_writer\<close> is an API server that nobody else
  writes: stores of both kinds of children, where a write leaves the other keys alone and a read
  leaves everything. In it, a pass of the cluster loop without trouble settles all children it ensures,
  each stored as wanted, and a later pass over settled clusters only reads.
\<close>

section \<open>Events\<close>

text \<open>Calls without trouble: reads that succeed or say that there is nothing, owned children, successful writes.\<close>

fun untroubled :: "lib \<Rightarrow> replicaSet \<Rightarrow> api_event \<Rightarrow> bool" where
  "untroubled L rs (GetChild kind k r) = (case r of Inl e \<Rightarrow> isNotFound e | Inr c \<Rightarrow> ownedBySet L rs (omLabels (childMeta c)))"
| "untroubled L rs (CreateChild c r) = (case r of Inl e \<Rightarrow> False | Inr x \<Rightarrow> True)"
| "untroubled L rs (PatchChild base new r) = (case r of Inl e \<Rightarrow> False | Inr x \<Rightarrow> True)"
| "untroubled L rs (GetNamespace c r) = (r = None)"
| "untroubled L rs _ = True"

fun writes :: "api_event \<Rightarrow> bool" where
  "writes (CreateChild c r) = True"
| "writes (PatchChild base new r) = True"
| "writes (DeleteChild c r) = True"
| "writes (PatchSet base new r) = True"
| "writes (PatchSetStatus base new r) = True"
| "writes _ = False"

text \<open>Nothing changes and nothing is written.\<close>

definition still :: "'e world \<Rightarrow> 'e world \<Rightarrow> bool" where
  "still w w' \<longleftrightarrow> env w' = env w \<and> (\<exists>es. trace w' = trace w @ es \<and> \<not> list_ex writes es)"

definition stillFrom :: "'e \<Rightarrow> 'e world \<Rightarrow> 'e world \<Rightarrow> bool" where
  "stillFrom e w w' \<longleftrightarrow> (env w = e \<longrightarrow> still w w')"

interpretation stills: world_preorder still
proof
  fix u v w :: "'e world"
  show "still u u" by (simp add: still_def)
  assume "still u v" "still v w"
  then obtain es fs where "env w = env u" "trace w = trace u @ es @ fs" "\<not> list_ex writes es" "\<not> list_ex writes fs"
    by (auto simp: still_def)
  then show "still u w" unfolding still_def by (intro conjI exI [of _ "es @ fs"]) auto
qed

interpretation calm: world_preorder "stillFrom e" for e :: 'e
proof
  fix u v w :: "'e world"
  show "stillFrom e u u" by (simp add: stillFrom_def stills.T_refl)
  assume "stillFrom e u v" "stillFrom e v w"
  then show "stillFrom e u w" unfolding stillFrom_def using stills.T_trans [of u v w] by (auto simp: still_def)
qed

lemma calm_still: "stills.moves m \<Longrightarrow> calm.moves e m"
  by (simp add: stills.moves_def calm.moves_def stillFrom_def)

section \<open>What is wanted\<close>

abbreviation childKey :: "child \<Rightarrow> childKind \<times> key" where
  "childKey c \<equiv> (kindOf c, objectKey (childMeta c))"

definition accessChildren :: "lib \<Rightarrow> replicaSet \<Rightarrow> string \<Rightarrow> string \<Rightarrow> child list" where
  "accessChildren L rs c ref = (if selectorRBACEnabled rs
     then [MSA (buildControllerAccessManagedServiceAccount L rs c ref), Work (buildControllerAccessManifestWork L rs c ref)] else [])"

definition sliceChildren :: "lib \<Rightarrow> replicaSet \<Rightarrow> string \<Rightarrow> string \<Rightarrow> rbacSlice list \<Rightarrow> child list" where
  "sliceChildren L rs c ref sls = (if rbacEnabled rs then map (\<lambda>sl. Work (buildManifestWork L rs c ref sl)) sls else [])"

definition clusterChildren :: "lib \<Rightarrow> replicaSet \<Rightarrow> string \<Rightarrow> string \<Rightarrow> rbacSlice list \<Rightarrow> child list" where
  "clusterChildren L rs c ref sls =
     accessChildren L rs c ref @ [MSA (buildManagedServiceAccount L rs c ref)] @ sliceChildren L rs c ref sls"

lemma clusterChildren_namespace: "x \<in> set (clusterChildren L rs c ref sls) \<Longrightarrow> fst (objectKey (childMeta x)) = c"
  by (auto simp: clusterChildren_def accessChildren_def sliceChildren_def buildControllerAccessManagedServiceAccount_def
      buildControllerAccessManifestWork_def buildManifestWork_def buildManagedServiceAccount_def Let_def split: if_splits)

section \<open>A server nobody else writes\<close>

text \<open>How an ensure call changes the store, and that it fails only after trouble.\<close>

context child_store
begin

lemma ensureChild_env:
  assumes run: "run_state (ensureChild L cc rs d ops) w = (r, w')"
  obtains "env w' = env w"
  | w1 m b d' where "env w1 = env w" "m \<in> {ccCreate cc d', ccPatch cc b d'}" "objectKey (ccMeta cc d') = objectKey (ccMeta cc d)"
      "run_state m w1 = (r, w')"
proof -
  obtain a w1 where get: "run_state (ccGet cc (objectKey (ccMeta cc d))) w = (a, w1)"
    by (cases "run_state (ccGet cc (objectKey (ccMeta cc d))) w") auto
  show ?thesis
  proof (cases a)
    case (Inl e)
    have "view (env w) (objectKey (ccMeta cc d)) = None"
      using get_found [of w "objectKey (ccMeta cc d)"] get Inl by (cases "view (env w) (objectKey (ccMeta cc d))") auto
    then have "env w1 = env w" using get_missing [of w "objectKey (ccMeta cc d)"] get by auto
    with run get Inl show ?thesis by (auto simp: ensureChild_def split: if_splits intro: that)
  next
    case (Inr x)
    with get have x: "view (env w) (objectKey (ccMeta cc d)) = Some x" "env w1 = env w" using get_view by fastforce+
    have "objectKey (ccMeta cc (patchedChild cc x d ops)) = objectKey (ccMeta cc d)"
      using view_key [OF x(1)] by (simp add: patchedChild_def apply_meta meta_set)
    with x run get Inr show ?thesis by (auto simp: ensureChild_def split: if_splits intro: that)
  qed
qed

lemma ensureChild_trouble:
  assumes "run_state (ensureChild L cc rs d ops) w = (Inl err, w')"
  obtains es where "trace w' = trace w @ es" "\<not> list_all (untroubled L rs) es"
proof -
  obtain es where es: "trace w' = trace w @ es" "ensureOutcome L cc mk kind rs d ops (Inl err) es"
    using ensureChild_emits assms by (rule emitsD)
  from es(2) have "\<not> list_all (untroubled L rs) es" by (rule ensureOutcomeE) (auto simp: mk_meta)
  with es(1) show ?thesis by (rule that)
qed

end

locale sole_writer =
  msas: child_store "msaClient R" MSA MSAKind msaSpecOps msaView +
  works: child_store "workClient R" Work WorkKind "manifestWorkSpecOps (rLib R)" workView
  for R :: "'e reconciler" and msaView :: "'e \<Rightarrow> key \<Rightarrow> managedServiceAccount option"
    and workView :: "'e \<Rightarrow> key \<Rightarrow> manifestWork option" +
  assumes msa_writes: "m \<in> {ccCreate (msaClient R) d, ccPatch (msaClient R) b d} \<Longrightarrow> run_state m w = (r, w') \<Longrightarrow>
      workView (env w') = workView (env w) \<and> (\<forall>k. k \<noteq> objectKey (msaMeta d) \<longrightarrow> msaView (env w') k = msaView (env w) k)"
    and work_writes: "n \<in> {ccCreate (workClient R) v, ccPatch (workClient R) u v} \<Longrightarrow> run_state n w = (q, w') \<Longrightarrow>
      msaView (env w') = msaView (env w) \<and> (\<forall>k. k \<noteq> objectKey (workMeta v) \<longrightarrow> workView (env w') k = workView (env w) k)"
    and reads_still: "stills.moves (getPlacement R k)" "stills.moves (listDecisions R sel ns)" "stills.moves (getNamespace R ns)"
      "stills.moves (recordWarningEvent R rs reason action msg)" "stills.moves (resolveGrantNamespaces R rs c g)"
    and labels: "label_library (rLib R)"
begin

text \<open>A child that is stored as wanted.\<close>

definition settled :: "'e \<Rightarrow> child \<Rightarrow> bool" where
  "settled e c = (case c of
     MSA d \<Rightarrow> \<exists>x. msaView e (objectKey (msaMeta d)) = Some x \<and> childMatches (msaClient R) x d msaSpecOps
   | Work d \<Rightarrow> \<exists>x. workView e (objectKey (workMeta d)) = Some x \<and> childMatches (workClient R) x d (manifestWorkSpecOps (rLib R)))"

lemma gets_still: "stills.moves (ccGet (msaClient R) k)" "stills.moves (ccGet (workClient R) k)"
proof -
  have "still w (snd (run_state (ccGet (msaClient R) k) w))" for w
  proof -
    obtain r w' where run: "run_state (ccGet (msaClient R) k) w = (r, w')" by (cases "run_state (ccGet (msaClient R) k) w") auto
    have "env w' = env w" using msas.get_found [of w k] msas.get_missing [of w k] run by (cases "msaView (env w) k") auto
    moreover have "trace w' = trace w @ [GetChild MSAKind k (map_sum id MSA r)]" using msas.get_emits run by (rule emitsD) simp
    ultimately show ?thesis by (simp add: still_def run)
  qed
  then show "stills.moves (ccGet (msaClient R) k)" by (simp add: stills.moves_def)
  have "still w (snd (run_state (ccGet (workClient R) k) w))" for w
  proof -
    obtain r w' where run: "run_state (ccGet (workClient R) k) w = (r, w')" by (cases "run_state (ccGet (workClient R) k) w") auto
    have "env w' = env w" using works.get_found [of w k] works.get_missing [of w k] run by (cases "workView (env w) k") auto
    moreover have "trace w' = trace w @ [GetChild WorkKind k (map_sum id Work r)]" using works.get_emits run by (rule emitsD) simp
    ultimately show ?thesis by (simp add: still_def run)
  qed
  then show "stills.moves (ccGet (workClient R) k)" by (simp add: stills.moves_def)
qed

end

sublocale sole_writer \<subseteq> quietly: reading still R
  by unfold_locales (rule reads_still gets_still)+

sublocale sole_writer \<subseteq> calmly: reading "stillFrom e" R for e
  by unfold_locales (intro calm_still reads_still gets_still)+

context sole_writer
begin

section \<open>A settled cluster is left alone\<close>

text \<open>Ensuring a child that is settled.\<close>

lemma ensure_settled:
  "settled e (MSA d) \<Longrightarrow> ownedBySet (rLib R) rs (omLabels (msaMeta d)) \<Longrightarrow> calm.moves e (ensureChild (rLib R) (msaClient R) rs d msaSpecOps)"
  "settled e (Work v) \<Longrightarrow> ownedBySet (rLib R) rs (omLabels (workMeta v)) \<Longrightarrow>
     calm.moves e (ensureChild (rLib R) (workClient R) rs v (manifestWorkSpecOps (rLib R)))"
proof -
  assume d: "settled e (MSA d)" "ownedBySet (rLib R) rs (omLabels (msaMeta d))"
  then obtain x where "msaView e (objectKey (msaMeta d)) = Some x" "childMatches (msaClient R) x d msaSpecOps" by (auto simp: settled_def)
  with d(2) msas.ensureChild_settled [of _ d x "rLib R" rs] have "still w (snd (run_state (ensureChild (rLib R) (msaClient R) rs d msaSpecOps) w))"
    if "env w = e" for w
    using that by (fastforce simp: still_def)
  then show "calm.moves e (ensureChild (rLib R) (msaClient R) rs d msaSpecOps)" by (simp add: calm.moves_def stillFrom_def)
next
  assume v: "settled e (Work v)" "ownedBySet (rLib R) rs (omLabels (workMeta v))"
  then obtain x where "workView e (objectKey (workMeta v)) = Some x" "childMatches (workClient R) x v (manifestWorkSpecOps (rLib R))"
    by (auto simp: settled_def)
  with v(2) works.ensureChild_settled [of _ v x "rLib R" rs]
  have "still w (snd (run_state (ensureChild (rLib R) (workClient R) rs v (manifestWorkSpecOps (rLib R))) w))" if "env w = e" for w
    using that by (fastforce simp: still_def)
  then show "calm.moves e (ensureChild (rLib R) (workClient R) rs v (manifestWorkSpecOps (rLib R)))"
    by (simp add: calm.moves_def stillFrom_def)
qed

lemma calm_ensures:
  "settled e (MSA (buildManagedServiceAccount (rLib R) rs c ref)) \<Longrightarrow> calm.moves e (ensureManagedServiceAccount R rs c ref)"
  "settled e (MSA (buildControllerAccessManagedServiceAccount (rLib R) rs c ref)) \<Longrightarrow>
     calm.moves e (ensureControllerAccessManagedServiceAccount R rs c ref)"
  "settled e (Work (buildControllerAccessManifestWork (rLib R) rs c ref)) \<Longrightarrow> calm.moves e (ensureControllerAccessManifestWork R rs c ref)"
  "settled e (Work (buildManifestWork (rLib R) rs c ref sl)) \<Longrightarrow> calm.moves e (ensureManifestWork R rs c ref sl)"
  unfolding ensureManagedServiceAccount_def ensureControllerAccessManagedServiceAccount_def ensureControllerAccessManifestWork_def
    ensureManifestWork_def
  by (erule ensure_settled; simp add: buildManagedServiceAccount_def buildControllerAccessManagedServiceAccount_def
      buildControllerAccessManifestWork_def Let_def label_library.childLabels_owned [OF labels] label_library.buildManifestWork_owned [OF labels])+

lemma calm_mfold: "(\<And>x acc. x \<in> set xs \<Longrightarrow> calm.moves e (f x acc)) \<Longrightarrow> calm.moves e (mfold f xs acc)"
  by (induction xs arbitrary: acc) (simp_all add: calm.moves_return calm.moves_bind)

lemma calm_clusterStep:
  assumes slices: "yields (desiredRBACSlices R rs c) (\<lambda>x. fst x = sls)"
    and ready: "c |\<in>| window \<Longrightarrow> list_all (settled e) (clusterChildren (rLib R) rs c (primaryRef p c) sls)"
  shows "calm.moves e (clusterStep R rs p window statuses idx c acc)"
proof (cases "c |\<in>| window")
  case False
  then show ?thesis
    unfolding clusterStep_def by (simp, intro conjI impI calmly.read_intros calmly.moves_aggregateExisting)
next
  case True
  let ?ref = "primaryRef p c"
  have children: "settled e (MSA (buildManagedServiceAccount (rLib R) rs c ?ref))"
    "selectorRBACEnabled rs \<Longrightarrow> settled e (MSA (buildControllerAccessManagedServiceAccount (rLib R) rs c ?ref))"
    "selectorRBACEnabled rs \<Longrightarrow> settled e (Work (buildControllerAccessManifestWork (rLib R) rs c ?ref))"
    "rbacEnabled rs \<Longrightarrow> sl \<in> set sls \<Longrightarrow> settled e (Work (buildManifestWork (rLib R) rs c ?ref sl))" for sl
    using ready [OF True] by (auto simp: clusterChildren_def accessChildren_def sliceChildren_def list_all_iff)
  have access: "calm.moves e (ensureAccess R rs c ?ref acc)" for acc
    unfolding ensureAccess_def by (cases "selectorRBACEnabled rs") (auto intro!: policy_intros calm_ensures children simp: Let_def)
  have slice: "calm.moves e (ensureSlice R rs c ?ref keys idx sl acc)" if "rbacEnabled rs" "sl \<in> set sls" for keys sl acc
    unfolding ensureSlice_def using that by (auto simp: Let_def intro!: policy_intros calm_ensures children)
  have rbac: "calm.moves e (ensureRBAC R rs c ?ref keys idx acc)" for keys acc
  proof (cases "rbacEnabled rs")
    case True
    then show ?thesis
      unfolding ensureRBAC_def
      by (simp, intro calm.moves_bind_yields [OF calmly.moves_desiredRBACSlices slices])
        (auto simp: Let_def intro!: calm_mfold slice)
  qed (simp add: ensureRBAC_def calm.moves_return)
  show ?thesis
    unfolding clusterStep_def rolloutCluster_def Let_def using True
    by (simp, intro calmly.read_intros access rbac calm_ensures children)
qed

section \<open>A pass settles what it ensures\<close>

text \<open>
  \<open>gains rs D m\<close>: \<open>m\<close> unsettles no child but those under the keys of \<open>D\<close>, and without trouble it settles all of \<open>D\<close>.
\<close>

definition gains :: "replicaSet \<Rightarrow> child set \<Rightarrow> ('e, 'a) prog \<Rightarrow> bool" where
  "gains rs D m \<longleftrightarrow> (\<forall>w r w'. run_state m w = (r, w') \<longrightarrow>
     (\<exists>es. trace w' = trace w @ es \<and> (list_all (untroubled (rLib R) rs) es \<longrightarrow> (\<forall>c\<in>D. settled (env w') c))) \<and>
     (\<forall>c. childKey c \<notin> childKey ` D \<longrightarrow> settled (env w) c \<longrightarrow> settled (env w') c))"

lemma gainsI:
  assumes "\<And>w r w'. run_state m w = (r, w') \<Longrightarrow> \<exists>es. trace w' = trace w @ es \<and> (list_all (untroubled (rLib R) rs) es \<longrightarrow> (\<forall>c\<in>D. settled (env w') c))"
    and "\<And>w r w' c. run_state m w = (r, w') \<Longrightarrow> childKey c \<notin> childKey ` D \<Longrightarrow> settled (env w) c \<Longrightarrow> settled (env w') c"
  shows "gains rs D m"
  unfolding gains_def using assms by blast

lemma gainsD:
  assumes "gains rs D m" "run_state m w = (r, w')"
  obtains es where "trace w' = trace w @ es" "list_all (untroubled (rLib R) rs) es \<longrightarrow> (\<forall>c\<in>D. settled (env w') c)"
    "\<forall>c. childKey c \<notin> childKey ` D \<longrightarrow> settled (env w) c \<longrightarrow> settled (env w') c"
  using assms unfolding gains_def by blast

lemma gains_still: "stills.moves m \<Longrightarrow> gains rs {} m"
  by (rule gainsI; drule (1) stills.movesD) (auto simp: still_def)

lemma gains_return: "gains rs {} (return x)"
  by (simp add: gains_still stills.moves_return)

lemma gains_bind:
  assumes m: "gains rs D m" "yields m P" and f: "\<And>a. P a \<Longrightarrow> gains rs E (f a)" and disjoint: "childKey ` D \<inter> childKey ` E = {}"
  shows "gains rs (D \<union> E) (State_Monad.bind m f)"
proof -
  have "(\<exists>es. trace w' = trace w @ es \<and> (list_all (untroubled (rLib R) rs) es \<longrightarrow> (\<forall>c\<in>D \<union> E. settled (env w') c))) \<and>
      (\<forall>c. childKey c \<notin> childKey ` (D \<union> E) \<longrightarrow> settled (env w) c \<longrightarrow> settled (env w') c)"
    if "run_state (State_Monad.bind m f) w = (r, w')" for w r w'
  proof -
    from that obtain a w1 where run: "run_state m w = (a, w1)" "run_state (f a) w1 = (r, w')"
      by (cases "run_state m w") auto
    obtain es where es: "trace w1 = trace w @ es" "list_all (untroubled (rLib R) rs) es \<longrightarrow> (\<forall>c\<in>D. settled (env w1) c)"
      "\<forall>c. childKey c \<notin> childKey ` D \<longrightarrow> settled (env w) c \<longrightarrow> settled (env w1) c"
      using m(1) run(1) by (rule gainsD)
    obtain fs where fs: "trace w' = trace w1 @ fs" "list_all (untroubled (rLib R) rs) fs \<longrightarrow> (\<forall>c\<in>E. settled (env w') c)"
      "\<forall>c. childKey c \<notin> childKey ` E \<longrightarrow> settled (env w1) c \<longrightarrow> settled (env w') c"
      using f [OF yieldsD [OF m(2) run(1)]] run(2) by (rule gainsD)
    have "settled (env w') c" if "list_all (untroubled (rLib R) rs) (es @ fs)" "c \<in> D \<union> E" for c
      using that es(2) fs(2,3) disjoint by (cases "c \<in> E") (fastforce simp del: image_Un)+
    moreover have "settled (env w') c" if "childKey c \<notin> childKey ` (D \<union> E)" "settled (env w) c" for c
      using that es(3) fs(3) by (auto simp: image_Un)
    ultimately show ?thesis using es(1) fs(1) by (intro conjI exI [of _ "es @ fs"]) auto
  qed
  then show ?thesis unfolding gains_def by blast
qed

lemma gains_then:
  "gains rs D m \<Longrightarrow> (\<And>a. gains rs E (f a)) \<Longrightarrow> childKey ` D \<inter> childKey ` E = {} \<Longrightarrow> gains rs (D \<union> E) (State_Monad.bind m f)"
  by (rule gains_bind [where P = "\<lambda>_. True"]) (simp_all add: yields_def)

lemma gains_mfold:
  assumes "distinct xs" "\<And>x acc. x \<in> set xs \<Longrightarrow> gains rs (D x) (f x acc)"
    and "\<And>x y. x \<in> set xs \<Longrightarrow> y \<in> set xs \<Longrightarrow> x \<noteq> y \<Longrightarrow> childKey ` D x \<inter> childKey ` D y = {}"
  shows "gains rs (\<Union>x\<in>set xs. D x) (mfold f xs acc)"
  using assms
proof (induction xs arbitrary: acc)
  case (Cons x xs)
  have "childKey ` D x \<inter> childKey ` (\<Union>y\<in>set xs. D y) = {}" using Cons.prems(1) Cons.prems(3) [of x] by fastforce
  moreover have "gains rs (\<Union>y\<in>set xs. D y) (mfold f xs a)" for a using Cons by auto
  ultimately have "gains rs (D x \<union> (\<Union>y\<in>set xs. D y)) (State_Monad.bind (f x acc) (mfold f xs))"
    by (intro gains_then Cons.prems(2)) simp_all
  then show ?case by simp
qed (simp add: gains_return)

text \<open>Ensuring one child.\<close>

lemma ensure_frame_msa:
  assumes "run_state (ensureChild (rLib R) (msaClient R) rs d msaSpecOps) w = (r, w')"
  shows "workView (env w') = workView (env w) \<and> (\<forall>k. k \<noteq> objectKey (msaMeta d) \<longrightarrow> msaView (env w') k = msaView (env w) k)"
  using assms
proof (cases rule: msas.ensureChild_env)
  case (2 w1 m b d')
  from msa_writes [OF 2(2,4)] 2(1,3) show ?thesis by simp
qed simp

lemma ensure_frame_work:
  assumes "run_state (ensureChild (rLib R) (workClient R) rs d (manifestWorkSpecOps (rLib R))) w = (r, w')"
  shows "msaView (env w') = msaView (env w) \<and> (\<forall>k. k \<noteq> objectKey (workMeta d) \<longrightarrow> workView (env w') k = workView (env w) k)"
  using assms
proof (cases rule: works.ensureChild_env)
  case (2 w1 m b d')
  from work_writes [OF 2(2,4)] 2(1,3) show ?thesis by simp
qed simp

lemma gains_ensure_msa: "gains rs {MSA d} (ensureChild (rLib R) (msaClient R) rs d msaSpecOps)"
proof (rule gainsI)
  fix w r w' assume run: "run_state (ensureChild (rLib R) (msaClient R) rs d msaSpecOps) w = (r, w')"
  show "\<exists>es. trace w' = trace w @ es \<and> (list_all (untroubled (rLib R) rs) es \<longrightarrow> (\<forall>c\<in>{MSA d}. settled (env w') c))"
  proof (cases r)
    case (Inl err)
    with run show ?thesis by (auto elim: msas.ensureChild_trouble)
  next
    case (Inr x)
    with run msas.ensureChild_stores [of _ rs d w x w'] have "settled (env w') (MSA d)" by (simp add: settled_def)
    moreover obtain es where "trace w' = trace w @ es" using msas.ensureChild_emits run by (rule emitsD)
    ultimately show ?thesis by simp
  qed
  fix c assume "childKey c \<notin> childKey ` {MSA d}" "settled (env w) c"
  then show "settled (env w') c" using ensure_frame_msa [OF run] by (cases c) (simp_all add: settled_def)
qed

lemma gains_ensure_work: "gains rs {Work d} (ensureChild (rLib R) (workClient R) rs d (manifestWorkSpecOps (rLib R)))"
proof (rule gainsI)
  fix w r w' assume run: "run_state (ensureChild (rLib R) (workClient R) rs d (manifestWorkSpecOps (rLib R))) w = (r, w')"
  show "\<exists>es. trace w' = trace w @ es \<and> (list_all (untroubled (rLib R) rs) es \<longrightarrow> (\<forall>c\<in>{Work d}. settled (env w') c))"
  proof (cases r)
    case (Inl err)
    with run show ?thesis by (auto elim: works.ensureChild_trouble)
  next
    case (Inr x)
    with run works.ensureChild_stores [of _ rs d w x w'] have "settled (env w') (Work d)" by (simp add: settled_def)
    moreover obtain es where "trace w' = trace w @ es" using works.ensureChild_emits run by (rule emitsD)
    ultimately show ?thesis by simp
  qed
  fix c assume "childKey c \<notin> childKey ` {Work d}" "settled (env w) c"
  then show "settled (env w') c" using ensure_frame_work [OF run] by (cases c) (simp_all add: settled_def)
qed

lemma gains_ensures:
  "gains rs {MSA (buildManagedServiceAccount (rLib R) rs c ref)} (ensureManagedServiceAccount R rs c ref)"
  "gains rs {MSA (buildControllerAccessManagedServiceAccount (rLib R) rs c ref)} (ensureControllerAccessManagedServiceAccount R rs c ref)"
  "gains rs {Work (buildControllerAccessManifestWork (rLib R) rs c ref)} (ensureControllerAccessManifestWork R rs c ref)"
  "gains rs {Work (buildManifestWork (rLib R) rs c ref sl)} (ensureManifestWork R rs c ref sl)"
  unfolding ensureManagedServiceAccount_def ensureControllerAccessManagedServiceAccount_def ensureControllerAccessManifestWork_def
    ensureManifestWork_def
  by (rule gains_ensure_msa gains_ensure_work)+

text \<open>The calls for one cluster, and the loop over all.\<close>

lemma gains_namespace:
  assumes "gains rs D f"
  shows "gains rs D (do {nsErr \<leftarrow> getNamespace R c; case nsErr of None \<Rightarrow> f | Some err \<Rightarrow> return (g err)})"
    (is "gains rs D ?m")
proof -
  have ns: "env (snd (run_state (getNamespace R c) w)) = env w" for w
    using reads_still(3) [of c] by (simp add: stills.moves_def still_def)
  have tr: "trace (snd (run_state (getNamespace R c) w)) = trace w @ [GetNamespace c (fst (run_state (getNamespace R c) w))]" for w
    by (simp add: getNamespace_def call_def split: prod.splits)
  show ?thesis
    unfolding gains_def
  proof (intro allI impI)
    fix w r w' assume run: "run_state ?m w = (r, w')"
    obtain q w1 where q: "run_state (getNamespace R c) w = (q, w1)" by (cases "run_state (getNamespace R c) w") auto
    with ns [of w] tr [of w] have w1: "env w1 = env w" "trace w1 = trace w @ [GetNamespace c q]" by simp_all
    show "(\<exists>es. trace w' = trace w @ es \<and> (list_all (untroubled (rLib R) rs) es \<longrightarrow> (\<forall>c\<in>D. settled (env w') c))) \<and>
        (\<forall>c. childKey c \<notin> childKey ` D \<longrightarrow> settled (env w) c \<longrightarrow> settled (env w') c)"
    proof (cases q)
      case None
      with run q have "run_state f w1 = (r, w')" by simp
      with assms obtain es where "trace w' = trace w1 @ es" "list_all (untroubled (rLib R) rs) es \<longrightarrow> (\<forall>c\<in>D. settled (env w') c)"
        "\<forall>c. childKey c \<notin> childKey ` D \<longrightarrow> settled (env w1) c \<longrightarrow> settled (env w') c" by (rule gainsD)
      with w1 show ?thesis by simp
    next
      case (Some err)
      with run q have "w' = w1" by simp
      with w1 Some show ?thesis by simp
    qed
  qed
qed

lemma gains_after: "gains rs D m \<Longrightarrow> (\<And>a. gains rs {} (f a)) \<Longrightarrow> gains rs D (State_Monad.bind m f)"
  using gains_then [of rs D m "{}" f] by simp

lemma gains_ensureAccess:
  assumes "distinct (map childKey (accessChildren (rLib R) rs c ref))"
  shows "gains rs (set (accessChildren (rLib R) rs c ref)) (ensureAccess R rs c ref acc)"
proof (cases "selectorRBACEnabled rs")
  case True
  have "gains rs ({MSA (buildControllerAccessManagedServiceAccount (rLib R) rs c ref)} \<union> {Work (buildControllerAccessManifestWork (rLib R) rs c ref)})
      (ensureAccess R rs c ref acc)"
    unfolding ensureAccess_def using True
    by (simp only: if_True Let_def) (intro gains_then gains_after gains_ensures, auto simp: gains_return)
  with True show ?thesis by (simp add: accessChildren_def insert_commute)
qed (simp add: ensureAccess_def accessChildren_def gains_return)

lemma gains_ensureRBAC:
  assumes slices: "yields (desiredRBACSlices R rs c) (\<lambda>x. fst x = sls)"
    and keys: "distinct (map childKey (sliceChildren (rLib R) rs c ref sls))"
  shows "gains rs (set (sliceChildren (rLib R) rs c ref sls)) (ensureRBAC R rs c ref refKeys idx acc)"
proof (cases "rbacEnabled rs")
  case True
  have slice: "gains rs {Work (buildManifestWork (rLib R) rs c ref sl)} (ensureSlice R rs c ref refKeys idx sl acc)" for sl acc
    unfolding ensureSlice_def Let_def by (intro gains_after gains_ensures gains_return)
  from keys True have "distinct (map (\<lambda>sl. childKey (Work (buildManifestWork (rLib R) rs c ref sl))) sls)"
    by (simp add: sliceChildren_def comp_def)
  then have "distinct sls" "inj_on (\<lambda>sl. childKey (Work (buildManifestWork (rLib R) rs c ref sl))) (set sls)" by (simp_all add: distinct_map)
  then have loop: "gains rs (\<Union>sl\<in>set sls. {Work (buildManifestWork (rLib R) rs c ref sl)}) (mfold (ensureSlice R rs c ref refKeys idx) sls acc)" for acc
    by (intro gains_mfold slice) (auto dest: inj_onD)
  have "gains rs ({} \<union> (\<Union>sl\<in>set sls. {Work (buildManifestWork (rLib R) rs c ref sl)})) (ensureRBAC R rs c ref refKeys idx acc)"
    unfolding ensureRBAC_def if_P [OF True]
    by (rule gains_bind [OF gains_still [OF quietly.moves_desiredRBACSlices] slices]) (auto simp: Let_def intro: loop)
  with True show ?thesis by (simp add: sliceChildren_def UNION_singleton_eq_range)
qed (simp add: ensureRBAC_def sliceChildren_def gains_return)

lemma gains_rolloutCluster:
  assumes slices: "yields (desiredRBACSlices R rs c) (\<lambda>x. fst x = sls)"
    and keys: "distinct (map childKey (clusterChildren (rLib R) rs c ref sls))"
  shows "gains rs (set (clusterChildren (rLib R) rs c ref sls)) (rolloutCluster R rs c ref refKeys idx acc)"
proof -
  let ?A = "set (accessChildren (rLib R) rs c ref)" and ?M = "MSA (buildManagedServiceAccount (rLib R) rs c ref)"
    and ?S = "set (sliceChildren (rLib R) rs c ref sls)"
  have "gains rs (?A \<union> ({?M} \<union> ?S)) (rolloutCluster R rs c ref refKeys idx acc)"
    unfolding rolloutCluster_def using keys
    by (intro gains_namespace gains_then [OF gains_ensureAccess] gains_then [OF gains_ensures(1)] gains_after [OF gains_ensureRBAC [OF slices]] gains_return)
      (auto simp: clusterChildren_def)
  then show ?thesis by (simp add: clusterChildren_def)
qed

lemma gains_clusterStep:
  assumes "yields (desiredRBACSlices R rs c) (\<lambda>x. fst x = sls)"
    and "c |\<in>| window \<Longrightarrow> distinct (map childKey (clusterChildren (rLib R) rs c (primaryRef p c) sls))"
  shows "gains rs (if c |\<in>| window then set (clusterChildren (rLib R) rs c (primaryRef p c) sls) else {})
    (clusterStep R rs p window statuses idx c acc)"
proof (cases "c |\<in>| window")
  case True
  then show ?thesis using gains_rolloutCluster [OF assms(1)] assms(2) by (simp add: clusterStep_def Let_def)
next
  case False
  have "stills.moves (clusterStep R rs p window statuses idx c acc)"
    unfolding clusterStep_def using False by (simp, intro conjI impI quietly.read_intros quietly.moves_aggregateExisting)
  then show ?thesis using False by (simp add: gains_still)
qed

lemma gains_clusters:
  assumes "distinct cs" "\<And>c. c \<in> set cs \<Longrightarrow> yields (desiredRBACSlices R rs c) (\<lambda>x. fst x = sls c)"
    and "\<And>c. c \<in> set cs \<Longrightarrow> c |\<in>| window \<Longrightarrow> distinct (map childKey (clusterChildren (rLib R) rs c (primaryRef p c) (sls c)))"
  shows "gains rs (\<Union>c\<in>set cs. if c |\<in>| window then set (clusterChildren (rLib R) rs c (primaryRef p c) (sls c)) else {})
    (mfold (clusterStep R rs p window statuses idx) cs acc)"
  using assms(1) gains_clusterStep [OF assms(2,3)]
  by (rule gains_mfold) (auto dest!: clusterChildren_namespace split: if_splits)

text \<open>After a pass without trouble, another pass only reads.\<close>

lemma settled_pass:
  assumes "distinct cs" "\<And>c. yields (desiredRBACSlices R rs c) (\<lambda>x. fst x = sls c)"
    and "\<And>c. c \<in> set cs \<Longrightarrow> c |\<in>| window \<Longrightarrow> distinct (map childKey (clusterChildren (rLib R) rs c (primaryRef p c) (sls c)))"
    and first: "run_state (mfold (clusterStep R rs p window statuses idx) cs acc) w = (r1, w1)"
      "trace w1 = trace w @ es" "list_all (untroubled (rLib R) rs) es"
    and within: "\<And>c. c \<in> set ds \<Longrightarrow> c |\<in>| window' \<Longrightarrow> c \<in> set cs \<and> c |\<in>| window \<and> primaryRef q c = primaryRef p c"
    and again: "run_state (mfold (clusterStep R rs q window' statuses' idx') ds acc') w1 = (r2, w2)"
  shows "still w1 w2"
proof -
  have all: "settled (env w1) x" if "c \<in> set cs" "c |\<in>| window" "x \<in> set (clusterChildren (rLib R) rs c (primaryRef p c) (sls c))" for c x
    using gains_clusters [OF assms(1-3)] first(1)
    by (rule gainsD) (use first(2,3) that in auto)
  have "calm.moves (env w1) (clusterStep R rs q window' statuses' idx' c a)" if "c \<in> set ds" for c a
    using assms(2) by (rule calm_clusterStep) (use within [OF that] all in \<open>auto simp: list_all_iff\<close>)
  then have "calm.moves (env w1) (mfold (clusterStep R rs q window' statuses' idx') ds acc')" by (rule calm_mfold)
  from calm.movesD [OF this again] show ?thesis by (simp add: stillFrom_def)
qed

end

section \<open>The hub is such a server\<close>

lemma hubCreate_frame: "k \<noteq> objectKey (meta x) \<Longrightarrow> hubFind meta (snd (hubCreate meta x xs)) k = hubFind meta xs k"
proof -
  assume "k \<noteq> objectKey (meta x)"
  then have "hubFind meta (xs @ [x]) k = hubFind meta xs k" by (induction xs) (auto simp: hubFind_def)
  then show ?thesis by (simp add: hubCreate_def split: option.split)
qed

lemma hubPatch_frame: "k \<noteq> objectKey (meta x) \<Longrightarrow> hubFind meta (snd (hubPatch meta x xs)) k = hubFind meta xs k"
proof -
  assume "k \<noteq> objectKey (meta x)"
  then have "hubFind meta (map (\<lambda>y. if objectKey (meta y) = objectKey (meta x) then x else y) xs) k = hubFind meta xs k"
    by (induction xs) (auto simp: hubFind_def)
  then show ?thesis by (simp add: hubPatch_def split: option.split)
qed

lemma hub_reads_still:
  "stills.moves (getPlacement (hubReconciler L) k)" "stills.moves (listDecisions (hubReconciler L) sel ns)"
  "stills.moves (getNamespace (hubReconciler L) ns)" "stills.moves (recordWarningEvent (hubReconciler L) rs reason action msg)"
  "stills.moves (resolveGrantNamespaces (hubReconciler L) rs c g)"
  by (auto simp: stills.moves_def still_def getPlacement_def listDecisions_def getNamespace_def recordWarningEvent_def
      resolveGrantNamespaces_def hubReconciler_def hubServer_def call_def split: option.split)

lemma hub_msa_frame:
  assumes "m \<in> {ccCreate (msaClient (hubReconciler L)) d, ccPatch (msaClient (hubReconciler L)) b d}" "run_state m w = (r, w')"
  shows "hubWorks (env w') = hubWorks (env w) \<and>
    (\<forall>k. k \<noteq> objectKey (msaMeta d) \<longrightarrow> hubFind msaMeta (hubMSAs (env w')) k = hubFind msaMeta (hubMSAs (env w)) k)"
  using assms hubCreate_frame [of _ msaMeta d "hubMSAs (env w)"] hubPatch_frame [of _ msaMeta d "hubMSAs (env w)"]
  by (auto simp: msaClient_def call_def hubServer_def split: prod.splits)

lemma hub_work_frame:
  assumes "m \<in> {ccCreate (workClient (hubReconciler L)) d, ccPatch (workClient (hubReconciler L)) b d}" "run_state m w = (r, w')"
  shows "hubMSAs (env w') = hubMSAs (env w) \<and>
    (\<forall>k. k \<noteq> objectKey (workMeta d) \<longrightarrow> hubFind workMeta (hubWorks (env w')) k = hubFind workMeta (hubWorks (env w)) k)"
  using assms hubCreate_frame [of _ workMeta "storedWork L d" "hubWorks (env w)"]
    hubPatch_frame [of _ workMeta "storedWork L d" "hubWorks (env w)"]
  by (auto simp: workClient_def call_def hubServer_def split: prod.splits)

lemma hub_sole_writer:
  assumes "json_library L" "label_library L"
  shows "sole_writer (hubReconciler L) (\<lambda>e. hubFind msaMeta (hubMSAs e)) (\<lambda>e. hubFind workMeta (hubWorks e))"
proof (intro sole_writer.intro sole_writer_axioms.intro)
  show "child_store (workClient (hubReconciler L)) Work WorkKind (manifestWorkSpecOps (rLib (hubReconciler L)))
      (\<lambda>e. hubFind workMeta (hubWorks e))"
    using hubWork_store [OF assms(1)] by simp
qed (use hub_msa_frame hub_work_frame assms(2) in \<open>simp_all add: hubMSA.child_store_axioms hub_reads_still\<close>)

interpretation hubWriter: sole_writer "hubReconciler ref_lib" "\<lambda>e. hubFind msaMeta (hubMSAs e)" "\<lambda>e. hubFind workMeta (hubWorks e)"
  by (rule hub_sole_writer [OF ref.json_library_axioms ref.label_library_axioms])

section \<open>Property\<close>

text \<open>
  C15: The children of all clusters converge. On an API server nobody else writes, with the slices of every
  cluster fixed and no two wanted children of a cluster under one key: after a pass of the cluster loop in
  which every call succeeded and nothing foreign was met, any later pass, with other statuses and a window
  within the first one's, leaves the server as it is and writes nothing.
\<close>

theorem clusters_converge:
  assumes "sole_writer R msaView workView" "distinct cs"
    and "\<And>c. yields (desiredRBACSlices R rs c) (\<lambda>x. fst x = sls c)"
    and "\<And>c. c \<in> set cs \<Longrightarrow> c |\<in>| window \<Longrightarrow> distinct (map childKey (clusterChildren (rLib R) rs c (primaryRef p c) (sls c)))"
    and "run_state (mfold (clusterStep R rs p window statuses idx) cs acc) w = (r1, w1)"
    and "trace w1 = trace w @ es" "list_all (untroubled (rLib R) rs) es"
    and "\<And>c. c \<in> set ds \<Longrightarrow> c |\<in>| window' \<Longrightarrow> c \<in> set cs \<and> c |\<in>| window \<and> primaryRef q c = primaryRef p c"
    and "run_state (mfold (clusterStep R rs q window' statuses' idx') ds acc') w1 = (r2, w2)"
  shows "env w2 = env w1 \<and> (\<exists>fs. trace w2 = trace w1 @ fs \<and> \<not> list_ex writes fs)"
  using sole_writer.settled_pass [OF assms] by (simp add: still_def)

text \<open>A pass over two clusters of a hub that has none of the children yet.\<close>

lemma hub_ensure_missing:
  "hubFind msaMeta (hubMSAs e) (objectKey (msaMeta d)) = None \<Longrightarrow>
   run_state (ensureChild L (msaClient (hubReconciler L)) rs d ops) \<lparr>env = e, trace = t\<rparr> =
     (Inr d, \<lparr>env = e\<lparr>hubMSAs := hubMSAs e @ [d]\<rparr>, trace = t @
        [GetChild MSAKind (objectKey (msaMeta d)) (Inl (ApiNotFound ''not found'')), CreateChild (MSA d) (Inr (MSA d))]\<rparr>)"
  "hubFind workMeta (hubWorks e) (objectKey (workMeta v)) = None \<Longrightarrow>
   run_state (ensureChild L (workClient (hubReconciler L)) rs v wops) \<lparr>env = e, trace = t\<rparr> =
     (Inr (storedWork L v), \<lparr>env = e\<lparr>hubWorks := hubWorks e @ [storedWork L v]\<rparr>, trace = t @
        [GetChild WorkKind (objectKey (workMeta v)) (Inl (ApiNotFound ''not found'')),
         CreateChild (Work v) (Inr (Work (storedWork L v)))]\<rparr>)"
  by (simp_all add: ensureChild_def msaClient_def workClient_def call_def hubServer_def hubGet_def hubCreate_def)

definition settleSlice :: rbacSlice where
  "settleSlice = clusterSlice ref_lib clusterOnlySet
     (renderClusterGrant ref_lib clusterOnlySet sampleClusterGrant (grantSubject clusterOnlySet))"

definition settleAcc :: childAcc where
  "settleAcc = \<lparr>kaResult = childReconcileResult_zero, kaStatus = sampleStatus, kaWorkNames = fmempty\<rparr>"

definition settlePass :: "string list \<Rightarrow> (hub, childAcc) prog" where
  "settlePass cs = mfold (clusterStep (hubReconciler ref_lib) clusterOnlySet resolution_zero {|''c1'', ''c2''|} fmempty fmempty) cs settleAcc"

lemma settle_run: "run_state (desiredRBACSlices (hubReconciler ref_lib) clusterOnlySet c) w = (([settleSlice], None), w)"
  by (simp add: clusterOnlySet_slices settleSlice_def)

lemma settle_slices: "yields (desiredRBACSlices (hubReconciler ref_lib) clusterOnlySet c) (\<lambda>x. fst x = [settleSlice])"
  by (simp add: yields_def settle_run)

lemma settle_enabled: "rbacEnabled clusterOnlySet" "\<not> selectorRBACEnabled clusterOnlySet"
  by (simp_all add: rbacEnabled_def selectorRBACEnabled_def sampleClusterGrant_def)

lemma settle_keys:
  "slName settleSlice = rbacClusterManifestWorkName clusterOnlySet"
  "omName (msaMeta (buildManagedServiceAccount L clusterOnlySet c ref)) = ''viewer-account''"
  "omNamespace (msaMeta (buildManagedServiceAccount L clusterOnlySet c ref)) = c"
  by (simp_all add: buildManagedServiceAccount_def settleSlice_def clusterSlice_def clusterOnlySet_def sampleSpec_def Let_def)

lemma settle_children: "distinct (map childKey (clusterChildren ref_lib clusterOnlySet c ref [settleSlice]))"
  by (simp add: clusterChildren_def accessChildren_def sliceChildren_def settle_enabled)

lemma settle_step:
  assumes "hubFind msaMeta (hubMSAs e) (c, ''viewer-account'') = None"
    "hubFind workMeta (hubWorks e) (c, rbacClusterManifestWorkName clusterOnlySet) = None"
    "c \<in> set (hubNamespaces e)" "c \<in> {''c1'', ''c2''}"
  shows "\<exists>acc' m v es. run_state (clusterStep (hubReconciler ref_lib) clusterOnlySet resolution_zero {|''c1'', ''c2''|} fmempty fmempty c acc)
       \<lparr>env = e, trace = t\<rparr> = (acc', \<lparr>env = e\<lparr>hubMSAs := hubMSAs e @ [m], hubWorks := hubWorks e @ [v]\<rparr>, trace = t @ es\<rparr>) \<and>
     omNamespace (msaMeta m) = c \<and> omNamespace (workMeta v) = c \<and> list_all (untroubled ref_lib clusterOnlySet) es"
proof -
  let ?ref = "primaryRef resolution_zero c" and ?L = ref_lib
  let ?m = "buildManagedServiceAccount ?L clusterOnlySet c ?ref" and ?v = "buildManifestWork ?L clusterOnlySet c ?ref settleSlice"
  let ?es = "[GetNamespace c None, GetChild MSAKind (c, ''viewer-account'') (Inl (ApiNotFound ''not found'')), CreateChild (MSA ?m) (Inr (MSA ?m)),
    GetChild WorkKind (c, rbacClusterManifestWorkName clusterOnlySet) (Inl (ApiNotFound ''not found'')),
    CreateChild (Work ?v) (Inr (Work (storedWork ?L ?v)))]"
  have ns: "run_state (getNamespace (hubReconciler ref_lib) c) \<lparr>env = e, trace = t\<rparr> = (None, \<lparr>env = e, trace = t @ [GetNamespace c None]\<rparr>)"
    using assms(3) by (simp add: getNamespace_def call_def hubServer_def)
  have msa: "run_state (ensureManagedServiceAccount (hubReconciler ref_lib) clusterOnlySet c ?ref) \<lparr>env = e, trace = u\<rparr> =
     (Inr ?m, \<lparr>env = e\<lparr>hubMSAs := hubMSAs e @ [?m]\<rparr>, trace = u @ [?es ! 1, ?es ! 2]\<rparr>)" for u
    using hub_ensure_missing(1) [of e ?m] assms(1) by (simp add: ensureManagedServiceAccount_def settle_keys)
  have work: "run_state (ensureManifestWork (hubReconciler ref_lib) clusterOnlySet c ?ref settleSlice) \<lparr>env = e\<lparr>hubMSAs := xs\<rparr>, trace = u\<rparr> =
     (Inr (storedWork ?L ?v), \<lparr>env = e\<lparr>hubMSAs := xs, hubWorks := hubWorks e @ [storedWork ?L ?v]\<rparr>, trace = u @ [?es ! 3, ?es ! 4]\<rparr>)" for u xs
    using hub_ensure_missing(2) [of "e\<lparr>hubMSAs := xs\<rparr>" ?v] assms(2) by (simp add: ensureManifestWork_def settle_keys)
  have "\<exists>acc'. run_state (clusterStep (hubReconciler ref_lib) clusterOnlySet resolution_zero {|''c1'', ''c2''|} fmempty fmempty c acc)
       \<lparr>env = e, trace = t\<rparr> = (acc', \<lparr>env = e\<lparr>hubMSAs := hubMSAs e @ [?m], hubWorks := hubWorks e @ [storedWork ?L ?v]\<rparr>, trace = t @ ?es\<rparr>)"
    using assms(4)
    by (simp add: clusterStep_def rolloutCluster_def ns ensureAccess_def settle_enabled msa ensureRBAC_def Let_def ensureSlice_def work settle_run)
  moreover have "omNamespace (msaMeta ?m) = c" "omNamespace (workMeta (storedWork ?L ?v)) = c" by (simp_all add: settle_keys)
  ultimately show ?thesis by fastforce
qed

lemma settle_pass:
  "\<exists>acc w1. run_state (settlePass [''c1'', ''c2'']) (sampleWorld placedHub) = (acc, w1) \<and>
     length (hubMSAs (env w1)) = 2 \<and> length (hubWorks (env w1)) = 2 \<and> list_all (untroubled ref_lib clusterOnlySet) (trace w1)"
proof -
  let ?step = "clusterStep (hubReconciler ref_lib) clusterOnlySet resolution_zero {|''c1'', ''c2''|} fmempty fmempty"
  obtain a1 m v es where one: "run_state (?step ''c1'' settleAcc) \<lparr>env = placedHub, trace = []\<rparr> =
      (a1, \<lparr>env = placedHub\<lparr>hubMSAs := [m], hubWorks := [v]\<rparr>, trace = es\<rparr>)"
    "omNamespace (msaMeta m) = ''c1''" "omNamespace (workMeta v) = ''c1''" "list_all (untroubled ref_lib clusterOnlySet) es"
    using settle_step [of placedHub "''c1''" settleAcc "[]"] by (auto simp: placedHub_def emptyHub_def hubFind_def)
  let ?e = "placedHub\<lparr>hubMSAs := [m], hubWorks := [v]\<rparr>"
  have "\<exists>a2 n u fs. run_state (?step ''c2'' a1) \<lparr>env = ?e, trace = es\<rparr> =
      (a2, \<lparr>env = ?e\<lparr>hubMSAs := hubMSAs ?e @ [n], hubWorks := hubWorks ?e @ [u]\<rparr>, trace = es @ fs\<rparr>) \<and>
      omNamespace (msaMeta n) = ''c2'' \<and> omNamespace (workMeta u) = ''c2'' \<and> list_all (untroubled ref_lib clusterOnlySet) fs"
    by (rule settle_step) (use one(2,3) in \<open>simp_all add: placedHub_def hubFind_def\<close>)
  then obtain a2 n u fs where "run_state (?step ''c2'' a1) \<lparr>env = ?e, trace = es\<rparr> =
      (a2, \<lparr>env = ?e\<lparr>hubMSAs := [m, n], hubWorks := [v, u]\<rparr>, trace = es @ fs\<rparr>)" "list_all (untroubled ref_lib clusterOnlySet) fs"
    by auto
  with one(1,4) show ?thesis by (simp add: settlePass_def sampleWorld_def)
qed

theorem clusters_converge_witness:
  "\<exists>r1 w1 r2 w2 fs. run_state (settlePass [''c1'', ''c2'']) (sampleWorld placedHub) = (r1, w1) \<and>
     length (hubMSAs (env w1)) = 2 \<and> length (hubWorks (env w1)) = 2 \<and>
     run_state (settlePass [''c2'', ''c1'']) w1 = (r2, w2) \<and> env w2 = env w1 \<and> trace w2 = trace w1 @ fs \<and> \<not> list_ex writes fs"
proof -
  obtain r1 w1 where first: "run_state (settlePass [''c1'', ''c2'']) (sampleWorld placedHub) = (r1, w1)"
    "length (hubMSAs (env w1)) = 2" "length (hubWorks (env w1)) = 2" "list_all (untroubled ref_lib clusterOnlySet) (trace w1)"
    using settle_pass by blast
  obtain r2 w2 where again: "run_state (settlePass [''c2'', ''c1'']) w1 = (r2, w2)"
    by (cases "run_state (settlePass [''c2'', ''c1'']) w1") auto
  have "env w2 = env w1 \<and> (\<exists>fs. trace w2 = trace w1 @ fs \<and> \<not> list_ex writes fs)"
    by (rule clusters_converge [OF hubWriter.sole_writer_axioms, where sls = "\<lambda>_. [settleSlice]" and es = "trace w1",
          OF _ settle_slices _ first(1) [unfolded settlePass_def] _ _ _ again [unfolded settlePass_def]])
      (use first(4) in \<open>simp_all add: settle_children sampleWorld_def\<close>)
  with first again show ?thesis by blast
qed

end
