(* ===== verification/Go_Memory.thy ===== *)
theory Go_Memory
  imports Prelude "HOL-Library.Monad_Syntax"
begin

text \<open>
  Go's memory, for the code where aliasing matters: addresses, slices with offset and length, maps and
  pointers as addresses of cells, nil as \<^const>\<open>None\<close>. An operation may panic (\<^const>\<open>None\<close>) or returns its
  value with the new memory. \<^verbatim>\<open>new\<close> and \<^verbatim>\<open>make\<close> reserve an address; what they put there is overwritten
  before anything reads it, so the cell is written when its content is complete.

  \<open>look\<close> functions read what a value stands for, a pure value of the model, with the addresses it
  reaches. The locale \<open>copier\<close> is the contract of a deep copy; the lemmas build copiers for pointers,
  slices, maps and structs from those of their parts.
\<close>

section \<open>Memory\<close>

type_synonym addr = nat

record 'c memory =
  cells :: "addr \<Rightarrow> 'c option"
  nextAddr :: addr

record slice =
  slArray :: addr
  slOffset :: nat
  slLen :: nat

type_synonym ('c, 'a) gop = "'c memory \<Rightarrow> ('a \<times> 'c memory) option"

definition reserve :: "'c memory \<Rightarrow> addr \<times> 'c memory" where
  "reserve h = (nextAddr h, h\<lparr>nextAddr := Suc (nextAddr h)\<rparr>)"

definition store :: "addr \<Rightarrow> 'c \<Rightarrow> 'c memory \<Rightarrow> 'c memory" where
  "store a c h = h\<lparr>cells := (cells h)(a := Some c)\<rparr>"

text \<open>The content of a cell of the expected type; anything else is a panic.\<close>

definition deref :: "('c \<Rightarrow> 'a option) \<Rightarrow> addr \<Rightarrow> 'c memory \<Rightarrow> 'a option" where
  "deref unbox a h = do { c \<leftarrow> cells h a; unbox c }"

text \<open>Nothing lives beyond the next address.\<close>

definition wfMem :: "'c memory \<Rightarrow> bool" where
  "wfMem h \<longleftrightarrow> (\<forall>a \<ge> nextAddr h. cells h a = None)"

text \<open>Memory grows: addresses in use keep their cells.\<close>

definition grows :: "'c memory \<Rightarrow> 'c memory \<Rightarrow> bool" where
  "grows h h' \<longleftrightarrow> wfMem h' \<and> nextAddr h \<le> nextAddr h' \<and> (\<forall>a < nextAddr h. cells h' a = cells h a)"

lemma grows_refl: "wfMem h \<Longrightarrow> grows h h"
  by (simp add: grows_def)

lemma grows_trans: "grows h h1 \<Longrightarrow> grows h1 h2 \<Longrightarrow> grows h h2"
  by (auto simp: grows_def)

lemma grows_wf: "grows h h' \<Longrightarrow> wfMem h'"
  by (simp add: grows_def)

lemma grows_reserve: "wfMem h \<Longrightarrow> reserve h = (b, h1) \<Longrightarrow> grows h h1 \<and> b = nextAddr h \<and> nextAddr h1 = Suc b"
  by (auto simp: grows_def wfMem_def reserve_def)

lemma grows_store: "grows h h' \<Longrightarrow> nextAddr h \<le> b \<Longrightarrow> b < nextAddr h' \<Longrightarrow> grows h (store b c h')"
  by (auto simp: grows_def wfMem_def store_def)

lemma cells_store [simp]: "cells (store b c h) a = (if a = b then Some c else cells h a)" "nextAddr (store b c h) = nextAddr h"
  by (simp_all add: store_def)

section \<open>Copying\<close>

type_synonym ('c, 'g, 'p) looker = "'c memory \<Rightarrow> 'g \<Rightarrow> ('p \<times> addr set) option"

locale looking =
  fixes look :: "('c, 'g, 'p) looker"
  assumes frame: "look h g = Some (p, A) \<Longrightarrow> \<forall>a \<in> A. cells h' a = cells h a \<Longrightarrow> look h' g = Some (p, A)"
    and owned: "wfMem h \<Longrightarrow> look h g = Some (p, A) \<Longrightarrow> A \<subseteq> {..<nextAddr h}"
begin

lemma look_grows: "wfMem h \<Longrightarrow> look h g = Some (p, A) \<Longrightarrow> grows h h' \<Longrightarrow> look h' g = Some (p, A)"
  by (rule frame) (use owned [of h g p A] in \<open>auto simp: grows_def\<close>)

end

text \<open>One run of a copy: a value that stands for the same, all of whose addresses are new.\<close>

definition copies :: "('c, 'g, 'p) looker \<Rightarrow> ('g \<Rightarrow> ('c, 'g) gop) \<Rightarrow> 'g \<Rightarrow> 'p \<Rightarrow> 'c memory \<Rightarrow> bool" where
  "copies look copy g p h \<longleftrightarrow> (\<exists>g' h' A'. copy g h = Some (g', h') \<and> look h' g' = Some (p, A') \<and>
     A' \<subseteq> {nextAddr h..<nextAddr h'} \<and> grows h h')"

locale copier = looking +
  fixes copy :: "'b \<Rightarrow> ('a, 'b) gop"
  assumes copied: "wfMem h \<Longrightarrow> look h g = Some (p, A) \<Longrightarrow> copies look copy g p h"
begin

lemma copied_later: "wfMem h \<Longrightarrow> look h g = Some (p, A) \<Longrightarrow> grows h h' \<Longrightarrow> copies look copy g p h'"
  using look_grows [of h g p A h'] grows_wf [of h h'] by (blast intro: copied)

end

subsection \<open>Plain values\<close>

text \<open>What assignment copies completely.\<close>

definition lookPlain :: "('c, 'a, 'a) looker" where
  "lookPlain h x = Some (x, {})"

definition copyPlain :: "'a \<Rightarrow> ('c, 'a) gop" where
  "copyPlain x h = Some (x, h)"

lemma copier_plain: "copier lookPlain copyPlain"
  by unfold_locales (auto simp: lookPlain_def copyPlain_def copies_def grows_refl)

subsection \<open>Two fields, and structs\<close>

definition lookPair :: "('c, 'g1, 'p1) looker \<Rightarrow> ('c, 'g2, 'p2) looker \<Rightarrow> ('c, 'g1 \<times> 'g2, 'p1 \<times> 'p2) looker" where
  "lookPair look1 look2 h g = do {
     (p1, A1) \<leftarrow> look1 h (fst g);
     (p2, A2) \<leftarrow> look2 h (snd g);
     Some ((p1, p2), A1 \<union> A2)
   }"

definition copyPair :: "('g1 \<Rightarrow> ('c, 'g1) gop) \<Rightarrow> ('g2 \<Rightarrow> ('c, 'g2) gop) \<Rightarrow> 'g1 \<times> 'g2 \<Rightarrow> ('c, 'g1 \<times> 'g2) gop" where
  "copyPair copy1 copy2 g h = do {
     (x1, h1) \<leftarrow> copy1 (fst g) h;
     (x2, h2) \<leftarrow> copy2 (snd g) h1;
     Some ((x1, x2), h2)
   }"

lemma lookPair_Some:
  "lookPair look1 look2 h g = Some (p, A) \<longleftrightarrow>
     (\<exists>A1 A2. look1 h (fst g) = Some (fst p, A1) \<and> look2 h (snd g) = Some (snd p, A2) \<and> A = A1 \<union> A2)"
  by (cases p) (auto simp: lookPair_def bind_eq_Some_conv)

lemma looking_pair:
  assumes "looking look1" "looking look2"
  shows "looking (lookPair look1 look2)"
proof (unfold_locales, goal_cases)
  case (1 h g p A h')
  then obtain A1 A2 where look: "look1 h (fst g) = Some (fst p, A1)" "look2 h (snd g) = Some (snd p, A2)" "A = A1 \<union> A2"
    by (auto simp: lookPair_Some)
  with 1(2) show ?case
    using looking.frame [OF assms(1) look(1), of h'] looking.frame [OF assms(2) look(2), of h'] by (auto simp: lookPair_Some)
next
  case (2 h g p A)
  then obtain A1 A2 where look: "look1 h (fst g) = Some (fst p, A1)" "look2 h (snd g) = Some (snd p, A2)" "A = A1 \<union> A2"
    by (auto simp: lookPair_Some)
  with looking.owned [OF assms(1) 2(1) look(1)] looking.owned [OF assms(2) 2(1) look(2)] show ?case by simp
qed

lemma copies_pair:
  assumes "looking look1" "copies look1 copy1 g1 p1 h" "\<And>h1. grows h h1 \<Longrightarrow> copies look2 copy2 g2 p2 h1"
  shows "copies (lookPair look1 look2) (copyPair copy1 copy2) (g1, g2) (p1, p2) h"
proof -
  obtain x1 h1 B1 where one: "copy1 g1 h = Some (x1, h1)" "look1 h1 x1 = Some (p1, B1)" "B1 \<subseteq> {nextAddr h..<nextAddr h1}" "grows h h1"
    using assms(2) by (auto simp: copies_def)
  obtain x2 h2 B2 where two: "copy2 g2 h1 = Some (x2, h2)" "look2 h2 x2 = Some (p2, B2)" "B2 \<subseteq> {nextAddr h1..<nextAddr h2}" "grows h1 h2"
    using assms(3) [OF one(4)] by (auto simp: copies_def)
  have "look1 h2 x1 = Some (p1, B1)" by (rule looking.look_grows [OF assms(1) grows_wf [OF one(4)] one(2) two(4)])
  moreover have "B1 \<union> B2 \<subseteq> {nextAddr h..<nextAddr h2}" using one(3,4) two(3,4) by (fastforce simp: grows_def)
  ultimately show ?thesis
    unfolding copies_def using one(1) two(1,2) grows_trans [OF one(4) two(4)]
    by (intro exI [of _ "(x1, x2)"] exI [of _ h2] exI [of _ "B1 \<union> B2"]) (auto simp: copyPair_def lookPair_Some)
qed

lemma copier_pair:
  assumes "copier look1 copy1" "copier look2 copy2"
  shows "copier (lookPair look1 look2) (copyPair copy1 copy2)"
proof (intro copier.intro copier_axioms.intro looking_pair)
  show "looking look1" "looking look2" using assms by (simp_all add: copier_def)
  fix h g p A
  assume wfMem: "wfMem h" and look: "lookPair look1 look2 h g = Some (p, A)"
  then obtain A1 A2 where looks: "look1 h (fst g) = Some (fst p, A1)" "look2 h (snd g) = Some (snd p, A2)"
    by (auto simp: lookPair_Some)
  have "copies (lookPair look1 look2) (copyPair copy1 copy2) (fst g, snd g) (fst p, snd p) h"
    by (rule copies_pair [OF \<open>looking look1\<close> copier.copied [OF assms(1) wfMem looks(1)]])
      (rule copier.copied_later [OF assms(2) wfMem looks(2)])
  then show "copies (lookPair look1 look2) (copyPair copy1 copy2) g p h" by simp
qed

text \<open>
  A struct with the parts \<open>get\<close> that need a copy: the copy is the struct, assigned as a whole, with these
  parts replaced.
\<close>

lemma copier_struct:
  assumes "copier look copy"
    and "\<And>h g. look' h g = map_option (\<lambda>(p, A). (mk g p, A)) (look h (get g))"
    and "\<And>g h. copy' g h = map_option (\<lambda>(x, h'). (put x g, h')) (copy (get g) h)"
    and "\<And>x g. get (put x g) = x" "\<And>x g p. mk (put x g) p = mk g p"
  shows "copier look' copy'"
proof (unfold_locales, goal_cases)
  case (1 h g p A h')
  then obtain q where "look h (get g) = Some (q, A)" "p = mk g q" by (auto simp: assms(2))
  with looking.frame [OF copier.axioms(1) [OF assms(1)] this(1) 1(2)] show ?case by (simp add: assms(2))
next
  case (2 h g p A)
  then obtain q where "look h (get g) = Some (q, A)" by (auto simp: assms(2))
  then show ?case by (rule looking.owned [OF copier.axioms(1) [OF assms(1)] 2(1)])
next
  case (3 h g p A)
  then obtain q where look: "look h (get g) = Some (q, A)" and p: "p = mk g q" by (auto simp: assms(2))
  obtain x h' A' where "copy (get g) h = Some (x, h')" "look h' x = Some (q, A')" "A' \<subseteq> {nextAddr h..<nextAddr h'}" "grows h h'"
    using copier.copied [OF assms(1) 3(1) look] by (auto simp: copies_def)
  then show ?case unfolding copies_def by (intro exI [of _ "put x g"]) (simp add: assms(2-5) p)
qed

subsection \<open>Pointers and slices\<close>

definition lookPtr :: "('c \<Rightarrow> 'g option) \<Rightarrow> ('c, 'g, 'p) looker \<Rightarrow> ('c, addr option, 'p option) looker" where
  "lookPtr unbox look h p = (case p of None \<Rightarrow> Some (None, {})
     | Some a \<Rightarrow> do {
         x \<leftarrow> deref unbox a h;
         (v, A) \<leftarrow> look h x;
         Some (Some v, insert a A)
       })"

text \<open>\<^verbatim>\<open>if in.F != nil { *out = new(T); (*in).DeepCopyInto(*out) }\<close>\<close>

definition copyPtr :: "('g \<Rightarrow> 'c) \<Rightarrow> ('c \<Rightarrow> 'g option) \<Rightarrow> ('g \<Rightarrow> ('c, 'g) gop) \<Rightarrow> addr option \<Rightarrow> ('c, addr option) gop" where
  "copyPtr box unbox copy p h = (case p of None \<Rightarrow> Some (None, h)
     | Some a \<Rightarrow> let (b, h1) = reserve h in do {
         x \<leftarrow> deref unbox a h1;
         (y, h2) \<leftarrow> copy x h1;
         Some (Some b, store b (box y) h2)
       })"

fun lookAll :: "('c, 'g, 'p) looker \<Rightarrow> ('c, 'g list, 'p list) looker" where
  "lookAll look h [] = Some ([], {})"
| "lookAll look h (x # xs) = do {
     (p, A) \<leftarrow> look h x;
     (ps, B) \<leftarrow> lookAll look h xs;
     Some (p # ps, A \<union> B)
   }"

fun copyAll :: "('g \<Rightarrow> ('c, 'g) gop) \<Rightarrow> 'g list \<Rightarrow> ('c, 'g list) gop" where
  "copyAll copy [] h = Some ([], h)"
| "copyAll copy (x # xs) h = do {
     (y, h1) \<leftarrow> copy x h;
     (ys, h2) \<leftarrow> copyAll copy xs h1;
     Some (y # ys, h2)
   }"

text \<open>The elements of a slice: a slice that reaches beyond its array does not exist.\<close>

definition elements :: "('c \<Rightarrow> 'g list option) \<Rightarrow> slice \<Rightarrow> 'c memory \<Rightarrow> 'g list option" where
  "elements unbox s h = do {
     xs \<leftarrow> deref unbox (slArray s) h;
     if slOffset s + slLen s \<le> length xs then Some (take (slLen s) (drop (slOffset s) xs)) else None
   }"

definition lookSlice :: "('c \<Rightarrow> 'g list option) \<Rightarrow> ('c, 'g, 'p) looker \<Rightarrow> ('c, slice option, 'p list) looker" where
  "lookSlice unbox look h s = (case s of None \<Rightarrow> Some ([], {})
     | Some t \<Rightarrow> do {
         xs \<leftarrow> elements unbox t h;
         (ps, A) \<leftarrow> lookAll look h xs;
         Some (ps, insert (slArray t) A)
       })"

text \<open>\<^verbatim>\<open>if in.F != nil { *out = make([]T, len(*in)); for i := range *in { (*in)[i].DeepCopyInto(&(*out)[i]) } }\<close>\<close>

definition copySlice :: "('g list \<Rightarrow> 'c) \<Rightarrow> ('c \<Rightarrow> 'g list option) \<Rightarrow> ('g \<Rightarrow> ('c, 'g) gop) \<Rightarrow> slice option \<Rightarrow> ('c, slice option) gop" where
  "copySlice box unbox copy s h = (case s of None \<Rightarrow> Some (None, h)
     | Some t \<Rightarrow> let (b, h1) = reserve h in do {
         xs \<leftarrow> elements unbox t h1;
         (ys, h2) \<leftarrow> copyAll copy xs h1;
         Some (Some \<lparr>slArray = b, slOffset = 0, slLen = length ys\<rparr>, store b (box ys) h2)
       })"

text \<open>\<^verbatim>\<open>if in.F != nil { *out = make(map[string]string, len(*in)); for key, val := range *in { (*out)[key] = val } }\<close>\<close>

definition copyEntries :: "kv \<Rightarrow> ('c, kv) gop" where
  "copyEntries m h = Some (fold (\<lambda>(key, val) out. fmupd key val out) (sorted_list_of_fmap m) fmempty, h)"

definition lookMap :: "('c \<Rightarrow> kv option) \<Rightarrow> ('c, addr option, kv) looker" where
  "lookMap unbox h p = map_option (\<lambda>(v, A). (case v of None \<Rightarrow> fmempty | Some m \<Rightarrow> m, A)) (lookPtr unbox lookPlain h p)"

lemma deref_cong: "cells h' a = cells h a \<Longrightarrow> deref unbox a h' = deref unbox a h"
  by (simp add: deref_def)

lemma deref_owned: "wfMem h \<Longrightarrow> deref unbox a h = Some x \<Longrightarrow> a < nextAddr h"
  by (force simp: deref_def wfMem_def bind_eq_Some_conv not_less [symmetric])

lemma deref_store: "unbox (box x) = Some x \<Longrightarrow> deref unbox b (store b (box x) h) = Some x"
  by (simp add: deref_def)

lemma lookPtr_Some:
  "lookPtr unbox look h p = Some (q, A) \<longleftrightarrow> (case p of None \<Rightarrow> q = None \<and> A = {}
     | Some a \<Rightarrow> \<exists>x v B. deref unbox a h = Some x \<and> look h x = Some (v, B) \<and> q = Some v \<and> A = insert a B)"
  by (auto simp: lookPtr_def bind_eq_Some_conv split: option.split)

lemma looking_ptr:
  assumes "looking look"
  shows "looking (lookPtr unbox look)"
proof (unfold_locales, goal_cases)
  case (1 h p q A h')
  show ?case
  proof (cases p)
    case None
    with 1 show ?thesis by (simp add: lookPtr_Some)
  next
    case (Some a)
    with 1(1) obtain x v B where x: "deref unbox a h = Some x" "look h x = Some (v, B)" "q = Some v" "A = insert a B"
      by (auto simp: lookPtr_Some)
    with looking.frame [OF assms x(2), of h'] deref_cong [of h' a h unbox] 1(2) show ?thesis by (simp add: Some lookPtr_Some)
  qed
next
  case (2 h p q A)
  then show ?case
    by (auto simp: lookPtr_Some split: option.splits dest: deref_owned looking.owned [OF assms])
qed

text \<open>A copy into a reserved cell.\<close>

lemma copy_cell:
  assumes "copier look copy" "wfMem h" "look h x = Some (v, B)" "reserve h = (b, h1)"
  obtains y h2 C where "copy x h1 = Some (y, h2)" "look (store b (box y) h2) y = Some (v, C)"
    "grows h (store b (box y) h2)" "insert b C \<subseteq> {nextAddr h..<nextAddr h2}"
proof -
  note g1 = grows_reserve [OF assms(2,4)]
  have "copies look copy x v h1" using g1 by (intro copier.copied_later [OF assms(1-3)]) simp
  then obtain y h2 C where y: "copy x h1 = Some (y, h2)" "look h2 y = Some (v, C)" "C \<subseteq> {nextAddr h1..<nextAddr h2}" "grows h1 h2"
    by (auto simp: copies_def)
  show ?thesis
  proof
    show "look (store b (box y) h2) y = Some (v, C)"
      by (rule looking.frame [OF copier.axioms(1) [OF assms(1)] y(2)]) (use y(3) g1 in auto)
    show "grows h (store b (box y) h2)"
      using g1 y(4) grows_trans [of h h1 h2] by (intro grows_store) (auto simp: grows_def)
    show "insert b C \<subseteq> {nextAddr h..<nextAddr h2}" using y(3,4) g1 by (fastforce simp: grows_def)
  qed (rule y(1))
qed

lemma deref_reserve: "wfMem h \<Longrightarrow> reserve h = (b, h1) \<Longrightarrow> deref unbox a h = Some x \<Longrightarrow> deref unbox a h1 = Some x"
  using grows_reserve [of h b h1] deref_owned [of h unbox a x] deref_cong [of h1 a h unbox] by (simp add: grows_def)

lemma copier_ptr:
  assumes "copier look copy" and box: "\<And>x. unbox (box x) = Some x"
  shows "copier (lookPtr unbox look) (copyPtr box unbox copy)"
proof (intro copier.intro copier_axioms.intro looking_ptr)
  show look: "looking look" using assms(1) by (simp add: copier_def)
  fix h p q A
  assume wf: "wfMem h" and seen: "lookPtr unbox look h p = Some (q, A)"
  show "copies (lookPtr unbox look) (copyPtr box unbox copy) p q h"
  proof (cases p)
    case None
    with wf seen show ?thesis by (auto simp: lookPtr_Some copyPtr_def grows_refl copies_def)
  next
    case (Some a)
    with seen obtain x v B where x: "deref unbox a h = Some x" "look h x = Some (v, B)" "q = Some v" by (auto simp: lookPtr_Some)
    obtain b h1 where res: "reserve h = (b, h1)" by (cases "reserve h") auto
    obtain y h2 C where y: "copy x h1 = Some (y, h2)" "look (store b (box y) h2) y = Some (v, C)"
      "grows h (store b (box y) h2)" "insert b C \<subseteq> {nextAddr h..<nextAddr h2}"
      by (rule copy_cell [OF assms(1) wf x(2) res])
    then show ?thesis
      unfolding copies_def using x(3) deref_reserve [OF wf res x(1)] deref_store [of unbox box y b h2, OF box]
      by (intro exI [of _ "Some b"] exI [of _ "store b (box y) h2"] exI [of _ "insert b C"])
        (simp add: Some copyPtr_def res lookPtr_Some)
  qed
qed

lemma fold_fmupd_lookup:
  "distinct (map fst xs) \<Longrightarrow> fmlookup (fold (\<lambda>(k, v) out. fmupd k v out) xs m) k =
     (case map_of xs k of None \<Rightarrow> fmlookup m k | Some v \<Rightarrow> Some v)"
  by (induction xs arbitrary: m) (auto simp: map_of_eq_None_iff split: option.split dest!: map_of_SomeD, force+)

lemma copyEntries_plain: "copyEntries = copyPlain"
proof (intro ext)
  fix m :: kv and h :: "'c memory"
  have "distinct (map fst (sorted_list_of_fmap m))" by (simp add: sorted_list_of_fmap_def comp_def)
  then have "fold (\<lambda>(k, v) out. fmupd k v out) (sorted_list_of_fmap m) fmempty = m"
    by (intro fmap_ext) (simp add: fold_fmupd_lookup split: option.split)
  then show "copyEntries m h = copyPlain m h" by (simp add: copyEntries_def copyPlain_def)
qed

lemma copier_map:
  assumes "\<And>x. unbox (box x) = Some x"
  shows "copier (lookMap unbox) (copyPtr box unbox copyEntries)"
  unfolding copyEntries_plain
  by (rule copier_struct [where get = id and put = "\<lambda>x g. x" and mk = "\<lambda>g v. case v of None \<Rightarrow> fmempty | Some m \<Rightarrow> m", OF copier_ptr [where unbox = unbox and box = box, OF copier_plain assms]])
    (simp_all add: lookMap_def option.map_id)

subsection \<open>Slices\<close>

lemma lookAll_Cons: "lookAll look h (x # xs) = map_option (\<lambda>(p, A). (fst p # snd p, A)) (lookPair look (lookAll look) h (x, xs))"
  by (cases "look h x"; cases "lookAll look h xs") (auto simp: lookPair_def)

lemma copyAll_Cons: "copyAll copy (x # xs) h = map_option (\<lambda>(p, h'). (fst p # snd p, h')) (copyPair copy (copyAll copy) (x, xs) h)"
  by (cases "copy x h"; cases "copyAll copy xs (snd (the (copy x h)))") (auto simp: copyPair_def)

lemma looking_all:
  assumes "looking look"
  shows "looking (lookAll look)"
proof (unfold_locales, goal_cases)
  case (1 h xs ps A h')
  then show ?case
  proof (induction xs arbitrary: ps A)
    case (Cons x xs)
    from Cons.prems(1) obtain p qs B C where look: "look h x = Some (p, B)" "lookAll look h xs = Some (qs, C)" "ps = p # qs" "A = B \<union> C"
      by (auto simp: bind_eq_Some_conv)
    with looking.frame [OF assms look(1), of h'] Cons.IH [OF look(2)] Cons.prems(2) show ?case by simp
  qed simp
next
  case (2 h xs ps A)
  then show ?case
  proof (induction xs arbitrary: ps A)
    case (Cons x xs)
    from Cons.prems(2) obtain p qs B C where look: "look h x = Some (p, B)" "lookAll look h xs = Some (qs, C)" "A = B \<union> C"
      by (auto simp: bind_eq_Some_conv)
    with looking.owned [OF assms Cons.prems(1) look(1)] Cons.IH [OF Cons.prems(1) look(2)] show ?case by simp
  qed simp
qed

lemma copier_all:
  assumes "copier look copy"
  shows "copier (lookAll look) (copyAll copy)"
proof (intro copier.intro copier_axioms.intro looking_all)
  show look: "looking look" using assms by (simp add: copier_def)
  fix h xs ps A
  assume "wfMem h" "lookAll look h xs = Some (ps, A)"
  then show "copies (lookAll look) (copyAll copy) xs ps h"
  proof (induction xs arbitrary: ps A h)
    case Nil
    then show ?case by (auto simp: copies_def grows_refl)
  next
    case (Cons x xs)
    from Cons.prems(2) obtain p qs B C where seen: "look h x = Some (p, B)" "lookAll look h xs = Some (qs, C)" "ps = p # qs"
      by (auto simp: bind_eq_Some_conv)
    have "copies (lookPair look (lookAll look)) (copyPair copy (copyAll copy)) (x, xs) (p, qs) h"
    proof (rule copies_pair [OF look copier.copied [OF assms Cons.prems(1) seen(1)]])
      fix h1
      assume g: "grows h h1"
      from looking.look_grows [OF looking_all [OF look] Cons.prems(1) seen(2) g]
      show "copies (lookAll look) (copyAll copy) xs qs h1" by (rule Cons.IH [OF grows_wf [OF g]])
    qed
    then obtain y ys h' A' where "copyPair copy (copyAll copy) (x, xs) h = Some ((y, ys), h')"
      "lookPair look (lookAll look) h' (y, ys) = Some ((p, qs), A')" "A' \<subseteq> {nextAddr h..<nextAddr h'}" "grows h h'"
      by (auto simp: copies_def)
    then show ?case unfolding copies_def seen(3)
      by (intro exI [of _ "y # ys"]) (simp add: lookAll_Cons copyAll_Cons del: lookAll.simps copyAll.simps)
  qed
qed

text \<open>A slice reads its array through a window.\<close>

definition window :: "slice \<Rightarrow> ('c \<Rightarrow> 'g list option) \<Rightarrow> 'c \<Rightarrow> 'g list option" where
  "window s unbox c = do { xs \<leftarrow> unbox c;
     if slOffset s + slLen s \<le> length xs then Some (take (slLen s) (drop (slOffset s) xs)) else None }"

lemma elements_window: "elements unbox s h = deref (window s unbox) (slArray s) h"
  by (cases "cells h (slArray s)") (simp_all add: elements_def deref_def window_def)

lemma elements_whole:
  "unbox (box ys) = Some ys \<Longrightarrow> elements unbox \<lparr>slArray = b, slOffset = 0, slLen = length ys\<rparr> (store b (box ys) h) = Some ys"
  by (simp add: elements_def deref_store)

lemma lookSlice_ptr:
  "lookSlice unbox look h s = (case s of None \<Rightarrow> Some ([], {})
     | Some t \<Rightarrow> map_option (\<lambda>(q, A). (the q, A)) (lookPtr (window t unbox) (lookAll look) h (Some (slArray t))))"
  by (auto simp: lookSlice_def lookPtr_def elements_window split: option.split bind_split)

lemma looking_slice:
  assumes "looking look"
  shows "looking (lookSlice unbox look)"
proof (unfold_locales, goal_cases)
  case (1 h s ps A h')
  with looking.frame [OF looking_ptr [OF looking_all [OF assms]], of "window (the s) unbox" h "Some (slArray (the s))" _ A h']
  show ?case by (auto simp: lookSlice_ptr split: option.splits)
next
  case (2 h s ps A)
  with looking.owned [OF looking_ptr [OF looking_all [OF assms]], of h "window (the s) unbox" "Some (slArray (the s))" _ A]
  show ?case by (auto simp: lookSlice_ptr split: option.splits)
qed

lemma copier_slice:
  assumes "copier look copy" and box: "\<And>x. unbox (box x) = Some x"
  shows "copier (lookSlice unbox look) (copySlice box unbox copy)"
proof (intro copier.intro copier_axioms.intro looking_slice)
  show look: "looking look" using assms(1) by (simp add: copier_def)
  fix h s ps A
  assume wf: "wfMem h" and seen: "lookSlice unbox look h s = Some (ps, A)"
  show "copies (lookSlice unbox look) (copySlice box unbox copy) s ps h"
  proof (cases s)
    case None
    with wf seen show ?thesis by (auto simp: lookSlice_def copySlice_def grows_refl copies_def)
  next
    case (Some t)
    with seen obtain xs B where x: "elements unbox t h = Some xs" "lookAll look h xs = Some (ps, B)"
      by (auto simp: lookSlice_def bind_eq_Some_conv)
    obtain b h1 where res: "reserve h = (b, h1)" by (cases "reserve h") auto
    obtain ys h2 C where y: "copyAll copy xs h1 = Some (ys, h2)" "lookAll look (store b (box ys) h2) ys = Some (ps, C)"
      "grows h (store b (box ys) h2)" "insert b C \<subseteq> {nextAddr h..<nextAddr h2}"
      by (rule copy_cell [OF copier_all [OF assms(1)] wf x(2) res])
    moreover have "elements unbox t h1 = Some xs"
      using deref_reserve [OF wf res] x(1) by (simp add: elements_window)
    ultimately show ?thesis
      unfolding copies_def using elements_whole [of unbox box ys b h2, OF box]
      by (intro exI [of _ "Some \<lparr>slArray = b, slOffset = 0, slLen = length ys\<rparr>"] exI [of _ "store b (box ys) h2"] exI [of _ "insert b C"])
        (simp add: Some copySlice_def res lookSlice_def)
  qed
qed

end
