(* ===== verification/Deep_Copy.thy ===== *)
theory Deep_Copy
  imports Api_Types Go_Memory
begin

text \<open>
  The generated deep copies (\<^verbatim>\<open>zz_generated.deepcopy.go\<close>) over Go's memory: the structs of the API as
  they lie in memory, with addresses for slices, maps and pointers, and \<^verbatim>\<open>DeepCopyInto\<close> and \<^verbatim>\<open>DeepCopy\<close> of
  each. \<^verbatim>\<open>*out = *in\<close> makes the copy start as the struct itself, so that a part that is not replaced
  stays shared. The structs of imported packages are opaque values \<open>'x\<close>; their own deep copies are a
  parameter, with the contract \<open>copier\<close> as hypothesis.

  Shown: a deep copy stands for the same set of the model and shares no address with the original, so
  that the model's use of immutable values is what the code does in place. A nil slice or map stands for the same
  value as an empty one, so whether a copy turns one into the other is not part of what is shown.
\<close>

section \<open>Structs in memory\<close>

record controllerAccessStruct =
  xaDesiredClusterCount :: int
  xaReadyClusterCount :: int
  xaConditions :: "slice option"

record rolloutSummaryStruct =
  xrTotal :: int
  xrUpdating :: int
  xrSucceeded :: int
  xrFailed :: int
  xrTimedOut :: int
  xrConditions :: "slice option"

record placementStatusStruct =
  xpName :: string
  xpSelectedClusterCount :: int
  xpSummary :: "addr option"
  xpRollout :: "addr option"
  xpAvailableDecisionGroups :: string
  xpConditions :: "slice option"

record statusStruct =
  xsObservedGeneration :: int
  xsSelectedClusterCount :: int
  xsReadyClusterCount :: int
  xsSummary :: "addr option"
  xsRollout :: "addr option"
  xsControllerAccess :: "addr option"
  xsPlacements :: "slice option"
  xsConditions :: "slice option"

record rotationStruct =
  xoEnabled :: "addr option"
  xoValidity :: "addr option"

record templateMetadataStruct =
  xmName :: string
  xmNamespace :: string
  xmLabels :: "addr option"
  xmAnnotations :: "addr option"

record templateSpecStruct =
  xtRotation :: rotationStruct
  xtTTLSecondsAfterCreation :: "addr option"

record templateStruct =
  xtMetadata :: templateMetadataStruct
  xtSpec :: templateSpecStruct

record iteratorStruct =
  xiName :: string
  xiNames :: "slice option"
  xiSelector :: "addr option"

record 'x placementRefStruct =
  xfName :: string
  xfRolloutStrategy :: 'x

record grantMetadataStruct =
  xgmName :: string
  xgmLabels :: "addr option"
  xgmAnnotations :: "addr option"

record grantStruct =
  xgID :: string
  xgType :: string
  xgForEachNamespace :: "addr option"
  xgMetadata :: grantMetadataStruct
  xgRules :: "slice option"

record rbacStruct =
  xbGrants :: "slice option"

record specStruct =
  xcPlacementRefs :: "slice option"
  xcTemplate :: templateStruct
  xcRBAC :: "addr option"

record 'x setStruct =
  xType :: typeMeta
  xMeta :: 'x
  xSpec :: specStruct
  xStatus :: statusStruct

record 'x setListStruct =
  xlType :: typeMeta
  xlMeta :: 'x
  xlItems :: "slice option"

text \<open>A cell: what an address of the given type refers to. The last one is for what imported structs refer to.\<close>

datatype 'x cell =
    Conditions "'x list"
  | PlacementStatuses "placementStatusStruct list"
  | PlacementRefs "'x placementRefStruct list"
  | Grants "grantStruct list"
  | PolicyRules "'x list"
  | Strings "string list"
  | Sets "'x setStruct list"
  | StringMap kv
  | BoolCell bool
  | DurationCell int
  | Int32Cell int
  | SelectorCell 'x
  | AccessCell controllerAccessStruct
  | RolloutCell rolloutSummaryStruct
  | SummaryCell summary
  | PlacementStatusCell placementStatusStruct
  | StatusCell statusStruct
  | RotationCell rotationStruct
  | TemplateMetadataCell templateMetadataStruct
  | TemplateSpecCell templateSpecStruct
  | TemplateCell templateStruct
  | IteratorCell iteratorStruct
  | PlacementRefCell "'x placementRefStruct"
  | GrantMetadataCell grantMetadataStruct
  | GrantCell grantStruct
  | RBACCell rbacStruct
  | SpecCell specStruct
  | SetCell "'x setStruct"
  | SetListCell "'x setListStruct"
  | Imported 'x

definition unConditions :: "'x cell \<Rightarrow> 'x list option" where
  "unConditions c = (case c of Conditions x \<Rightarrow> Some x | _ \<Rightarrow> None)"

definition unPlacementStatuses :: "'x cell \<Rightarrow> placementStatusStruct list option" where
  "unPlacementStatuses c = (case c of PlacementStatuses x \<Rightarrow> Some x | _ \<Rightarrow> None)"

definition unPlacementRefs :: "'x cell \<Rightarrow> 'x placementRefStruct list option" where
  "unPlacementRefs c = (case c of PlacementRefs x \<Rightarrow> Some x | _ \<Rightarrow> None)"

definition unGrants :: "'x cell \<Rightarrow> grantStruct list option" where
  "unGrants c = (case c of Grants x \<Rightarrow> Some x | _ \<Rightarrow> None)"

definition unPolicyRules :: "'x cell \<Rightarrow> 'x list option" where
  "unPolicyRules c = (case c of PolicyRules x \<Rightarrow> Some x | _ \<Rightarrow> None)"

definition unStrings :: "'x cell \<Rightarrow> string list option" where
  "unStrings c = (case c of Strings x \<Rightarrow> Some x | _ \<Rightarrow> None)"

definition unSets :: "'x cell \<Rightarrow> 'x setStruct list option" where
  "unSets c = (case c of Sets x \<Rightarrow> Some x | _ \<Rightarrow> None)"

definition unStringMap :: "'x cell \<Rightarrow> kv option" where
  "unStringMap c = (case c of StringMap x \<Rightarrow> Some x | _ \<Rightarrow> None)"

definition unBool :: "'x cell \<Rightarrow> bool option" where
  "unBool c = (case c of BoolCell x \<Rightarrow> Some x | _ \<Rightarrow> None)"

definition unDuration :: "'x cell \<Rightarrow> int option" where
  "unDuration c = (case c of DurationCell x \<Rightarrow> Some x | _ \<Rightarrow> None)"

definition unInt32 :: "'x cell \<Rightarrow> int option" where
  "unInt32 c = (case c of Int32Cell x \<Rightarrow> Some x | _ \<Rightarrow> None)"

definition unSelector :: "'x cell \<Rightarrow> 'x option" where
  "unSelector c = (case c of SelectorCell x \<Rightarrow> Some x | _ \<Rightarrow> None)"

definition unAccess :: "'x cell \<Rightarrow> controllerAccessStruct option" where
  "unAccess c = (case c of AccessCell x \<Rightarrow> Some x | _ \<Rightarrow> None)"

definition unRollout :: "'x cell \<Rightarrow> rolloutSummaryStruct option" where
  "unRollout c = (case c of RolloutCell x \<Rightarrow> Some x | _ \<Rightarrow> None)"

definition unSummary :: "'x cell \<Rightarrow> summary option" where
  "unSummary c = (case c of SummaryCell x \<Rightarrow> Some x | _ \<Rightarrow> None)"

definition unPlacementStatus :: "'x cell \<Rightarrow> placementStatusStruct option" where
  "unPlacementStatus c = (case c of PlacementStatusCell x \<Rightarrow> Some x | _ \<Rightarrow> None)"

definition unStatus :: "'x cell \<Rightarrow> statusStruct option" where
  "unStatus c = (case c of StatusCell x \<Rightarrow> Some x | _ \<Rightarrow> None)"

definition unRotation :: "'x cell \<Rightarrow> rotationStruct option" where
  "unRotation c = (case c of RotationCell x \<Rightarrow> Some x | _ \<Rightarrow> None)"

definition unTemplateMetadata :: "'x cell \<Rightarrow> templateMetadataStruct option" where
  "unTemplateMetadata c = (case c of TemplateMetadataCell x \<Rightarrow> Some x | _ \<Rightarrow> None)"

definition unTemplateSpec :: "'x cell \<Rightarrow> templateSpecStruct option" where
  "unTemplateSpec c = (case c of TemplateSpecCell x \<Rightarrow> Some x | _ \<Rightarrow> None)"

definition unTemplate :: "'x cell \<Rightarrow> templateStruct option" where
  "unTemplate c = (case c of TemplateCell x \<Rightarrow> Some x | _ \<Rightarrow> None)"

definition unIterator :: "'x cell \<Rightarrow> iteratorStruct option" where
  "unIterator c = (case c of IteratorCell x \<Rightarrow> Some x | _ \<Rightarrow> None)"

definition unPlacementRef :: "'x cell \<Rightarrow> 'x placementRefStruct option" where
  "unPlacementRef c = (case c of PlacementRefCell x \<Rightarrow> Some x | _ \<Rightarrow> None)"

definition unGrantMetadata :: "'x cell \<Rightarrow> grantMetadataStruct option" where
  "unGrantMetadata c = (case c of GrantMetadataCell x \<Rightarrow> Some x | _ \<Rightarrow> None)"

definition unGrant :: "'x cell \<Rightarrow> grantStruct option" where
  "unGrant c = (case c of GrantCell x \<Rightarrow> Some x | _ \<Rightarrow> None)"

definition unRBAC :: "'x cell \<Rightarrow> rbacStruct option" where
  "unRBAC c = (case c of RBACCell x \<Rightarrow> Some x | _ \<Rightarrow> None)"

definition unSpec :: "'x cell \<Rightarrow> specStruct option" where
  "unSpec c = (case c of SpecCell x \<Rightarrow> Some x | _ \<Rightarrow> None)"

definition unSet :: "'x cell \<Rightarrow> 'x setStruct option" where
  "unSet c = (case c of SetCell x \<Rightarrow> Some x | _ \<Rightarrow> None)"

definition unSetList :: "'x cell \<Rightarrow> 'x setListStruct option" where
  "unSetList c = (case c of SetListCell x \<Rightarrow> Some x | _ \<Rightarrow> None)"

lemma unbox [simp]:
  "unConditions (Conditions x0) = Some x0"
  "unPlacementStatuses (PlacementStatuses x1) = Some x1"
  "unPlacementRefs (PlacementRefs x2) = Some x2"
  "unGrants (Grants x3) = Some x3"
  "unPolicyRules (PolicyRules x4) = Some x4"
  "unStrings (Strings x5) = Some x5"
  "unSets (Sets x6) = Some x6"
  "unStringMap (StringMap x7) = Some x7"
  "unBool (BoolCell x8) = Some x8"
  "unDuration (DurationCell x9) = Some x9"
  "unInt32 (Int32Cell x10) = Some x10"
  "unSelector (SelectorCell x11) = Some x11"
  "unAccess (AccessCell x12) = Some x12"
  "unRollout (RolloutCell x13) = Some x13"
  "unSummary (SummaryCell x14) = Some x14"
  "unPlacementStatus (PlacementStatusCell x15) = Some x15"
  "unStatus (StatusCell x16) = Some x16"
  "unRotation (RotationCell x17) = Some x17"
  "unTemplateMetadata (TemplateMetadataCell x18) = Some x18"
  "unTemplateSpec (TemplateSpecCell x19) = Some x19"
  "unTemplate (TemplateCell x20) = Some x20"
  "unIterator (IteratorCell x21) = Some x21"
  "unPlacementRef (PlacementRefCell x22) = Some x22"
  "unGrantMetadata (GrantMetadataCell x23) = Some x23"
  "unGrant (GrantCell x24) = Some x24"
  "unRBAC (RBACCell x25) = Some x25"
  "unSpec (SpecCell x26) = Some x26"
  "unSet (SetCell x27) = Some x27"
  "unSetList (SetListCell x28) = Some x28"
  by (simp_all add: unConditions_def unPlacementStatuses_def unPlacementRefs_def unGrants_def unPolicyRules_def unStrings_def unSets_def unStringMap_def unBool_def unDuration_def unInt32_def unSelector_def unAccess_def unRollout_def unSummary_def unPlacementStatus_def unStatus_def unRotation_def unTemplateMetadata_def unTemplateSpec_def unTemplate_def unIterator_def unPlacementRef_def unGrantMetadata_def unGrant_def unRBAC_def unSpec_def unSet_def unSetList_def)

text \<open>The deep copies of imported structs.\<close>

record 'x imported =
  ObjectMeta_DeepCopyInto :: "'x \<Rightarrow> ('x cell, 'x) gop"
  ListMeta_DeepCopyInto :: "'x \<Rightarrow> ('x cell, 'x) gop"
  Condition_DeepCopyInto :: "'x \<Rightarrow> ('x cell, 'x) gop"
  PolicyRule_DeepCopyInto :: "'x \<Rightarrow> ('x cell, 'x) gop"
  LabelSelector_DeepCopyInto :: "'x \<Rightarrow> ('x cell, 'x) gop"
  RolloutStrategy_DeepCopyInto :: "'x \<Rightarrow> ('x cell, 'x) gop"

section \<open>The generated functions\<close>

definition ControllerAccessStatus_DeepCopyInto :: "'x imported \<Rightarrow> controllerAccessStruct \<Rightarrow> ('x cell, controllerAccessStruct) gop" where
  "ControllerAccessStatus_DeepCopyInto I x h = do {
     (conditions, h) \<leftarrow> copySlice Conditions unConditions (Condition_DeepCopyInto I) (xaConditions x) h;
     Some (x\<lparr>xaConditions := conditions\<rparr>, h)
   }"

definition RolloutSummary_DeepCopyInto :: "'x imported \<Rightarrow> rolloutSummaryStruct \<Rightarrow> ('x cell, rolloutSummaryStruct) gop" where
  "RolloutSummary_DeepCopyInto I x h = do {
     (conditions, h) \<leftarrow> copySlice Conditions unConditions (Condition_DeepCopyInto I) (xrConditions x) h;
     Some (x\<lparr>xrConditions := conditions\<rparr>, h)
   }"

definition Summary_DeepCopyInto :: "summary \<Rightarrow> ('x cell, summary) gop" where
  "Summary_DeepCopyInto x h = Some (x, h)"

definition PlacementStatus_DeepCopyInto :: "'x imported \<Rightarrow> placementStatusStruct \<Rightarrow> ('x cell, placementStatusStruct) gop" where
  "PlacementStatus_DeepCopyInto I x h = do {
     (summ, h) \<leftarrow> copyPtr SummaryCell unSummary copyPlain (xpSummary x) h;
     (rollout, h) \<leftarrow> copyPtr RolloutCell unRollout (RolloutSummary_DeepCopyInto I) (xpRollout x) h;
     (conditions, h) \<leftarrow> copySlice Conditions unConditions (Condition_DeepCopyInto I) (xpConditions x) h;
     Some (x\<lparr>xpSummary := summ, xpRollout := rollout, xpConditions := conditions\<rparr>, h)
   }"

definition Status_DeepCopyInto :: "'x imported \<Rightarrow> statusStruct \<Rightarrow> ('x cell, statusStruct) gop" where
  "Status_DeepCopyInto I x h = do {
     (summ, h) \<leftarrow> copyPtr SummaryCell unSummary copyPlain (xsSummary x) h;
     (rollout, h) \<leftarrow> copyPtr RolloutCell unRollout (RolloutSummary_DeepCopyInto I) (xsRollout x) h;
     (access, h) \<leftarrow> copyPtr AccessCell unAccess (ControllerAccessStatus_DeepCopyInto I) (xsControllerAccess x) h;
     (placements, h) \<leftarrow> copySlice PlacementStatuses unPlacementStatuses (PlacementStatus_DeepCopyInto I) (xsPlacements x) h;
     (conditions, h) \<leftarrow> copySlice Conditions unConditions (Condition_DeepCopyInto I) (xsConditions x) h;
     Some (x\<lparr>xsSummary := summ, xsRollout := rollout, xsControllerAccess := access, xsPlacements := placements,
       xsConditions := conditions\<rparr>, h)
   }"

definition Rotation_DeepCopyInto :: "rotationStruct \<Rightarrow> ('x cell, rotationStruct) gop" where
  "Rotation_DeepCopyInto x h = do {
     (enabled, h) \<leftarrow> copyPtr BoolCell unBool copyPlain (xoEnabled x) h;
     (validity, h) \<leftarrow> copyPtr DurationCell unDuration copyPlain (xoValidity x) h;
     Some (x\<lparr>xoEnabled := enabled, xoValidity := validity\<rparr>, h)
   }"

definition TemplateMetadata_DeepCopyInto :: "templateMetadataStruct \<Rightarrow> ('x cell, templateMetadataStruct) gop" where
  "TemplateMetadata_DeepCopyInto x h = do {
     (ls, h) \<leftarrow> copyPtr StringMap unStringMap copyEntries (xmLabels x) h;
     (annotations, h) \<leftarrow> copyPtr StringMap unStringMap copyEntries (xmAnnotations x) h;
     Some (x\<lparr>xmLabels := ls, xmAnnotations := annotations\<rparr>, h)
   }"

definition TemplateSpec_DeepCopyInto :: "templateSpecStruct \<Rightarrow> ('x cell, templateSpecStruct) gop" where
  "TemplateSpec_DeepCopyInto x h = do {
     (rotation, h) \<leftarrow> Rotation_DeepCopyInto (xtRotation x) h;
     (ttl, h) \<leftarrow> copyPtr Int32Cell unInt32 copyPlain (xtTTLSecondsAfterCreation x) h;
     Some (x\<lparr>xtRotation := rotation, xtTTLSecondsAfterCreation := ttl\<rparr>, h)
   }"

definition Template_DeepCopyInto :: "templateStruct \<Rightarrow> ('x cell, templateStruct) gop" where
  "Template_DeepCopyInto x h = do {
     (metadata, h) \<leftarrow> TemplateMetadata_DeepCopyInto (xtMetadata x) h;
     (spec, h) \<leftarrow> TemplateSpec_DeepCopyInto (xtSpec x) h;
     Some (x\<lparr>xtMetadata := metadata, xtSpec := spec\<rparr>, h)
   }"

definition NamespaceIterator_DeepCopyInto :: "'x imported \<Rightarrow> iteratorStruct \<Rightarrow> ('x cell, iteratorStruct) gop" where
  "NamespaceIterator_DeepCopyInto I x h = do {
     (names, h) \<leftarrow> copySlice Strings unStrings copyPlain (xiNames x) h;
     (sel, h) \<leftarrow> copyPtr SelectorCell unSelector (LabelSelector_DeepCopyInto I) (xiSelector x) h;
     Some (x\<lparr>xiNames := names, xiSelector := sel\<rparr>, h)
   }"

definition PlacementRef_DeepCopyInto :: "'x imported \<Rightarrow> 'x placementRefStruct \<Rightarrow> ('x cell, 'x placementRefStruct) gop" where
  "PlacementRef_DeepCopyInto I x h = do {
     (strategy, h) \<leftarrow> RolloutStrategy_DeepCopyInto I (xfRolloutStrategy x) h;
     Some (x\<lparr>xfRolloutStrategy := strategy\<rparr>, h)
   }"

definition GrantMetadata_DeepCopyInto :: "grantMetadataStruct \<Rightarrow> ('x cell, grantMetadataStruct) gop" where
  "GrantMetadata_DeepCopyInto x h = do {
     (ls, h) \<leftarrow> copyPtr StringMap unStringMap copyEntries (xgmLabels x) h;
     (annotations, h) \<leftarrow> copyPtr StringMap unStringMap copyEntries (xgmAnnotations x) h;
     Some (x\<lparr>xgmLabels := ls, xgmAnnotations := annotations\<rparr>, h)
   }"

definition Grant_DeepCopyInto :: "'x imported \<Rightarrow> grantStruct \<Rightarrow> ('x cell, grantStruct) gop" where
  "Grant_DeepCopyInto I x h = do {
     (iterator, h) \<leftarrow> copyPtr IteratorCell unIterator (NamespaceIterator_DeepCopyInto I) (xgForEachNamespace x) h;
     (metadata, h) \<leftarrow> GrantMetadata_DeepCopyInto (xgMetadata x) h;
     (rules, h) \<leftarrow> copySlice PolicyRules unPolicyRules (PolicyRule_DeepCopyInto I) (xgRules x) h;
     Some (x\<lparr>xgForEachNamespace := iterator, xgMetadata := metadata, xgRules := rules\<rparr>, h)
   }"

definition RBAC_DeepCopyInto :: "'x imported \<Rightarrow> rbacStruct \<Rightarrow> ('x cell, rbacStruct) gop" where
  "RBAC_DeepCopyInto I x h = do {
     (grants, h) \<leftarrow> copySlice Grants unGrants (Grant_DeepCopyInto I) (xbGrants x) h;
     Some (x\<lparr>xbGrants := grants\<rparr>, h)
   }"

definition Spec_DeepCopyInto :: "'x imported \<Rightarrow> specStruct \<Rightarrow> ('x cell, specStruct) gop" where
  "Spec_DeepCopyInto I x h = do {
     (refs, h) \<leftarrow> copySlice PlacementRefs unPlacementRefs (PlacementRef_DeepCopyInto I) (xcPlacementRefs x) h;
     (template, h) \<leftarrow> Template_DeepCopyInto (xcTemplate x) h;
     (rbac, h) \<leftarrow> copyPtr RBACCell unRBAC (RBAC_DeepCopyInto I) (xcRBAC x) h;
     Some (x\<lparr>xcPlacementRefs := refs, xcTemplate := template, xcRBAC := rbac\<rparr>, h)
   }"

definition Set_DeepCopyInto :: "'x imported \<Rightarrow> 'x setStruct \<Rightarrow> ('x cell, 'x setStruct) gop" where
  "Set_DeepCopyInto I x h = do {
     (metadata, h) \<leftarrow> ObjectMeta_DeepCopyInto I (xMeta x) h;
     (spec, h) \<leftarrow> Spec_DeepCopyInto I (xSpec x) h;
     (status, h) \<leftarrow> Status_DeepCopyInto I (xStatus x) h;
     Some (x\<lparr>xMeta := metadata, xSpec := spec, xStatus := status\<rparr>, h)
   }"

definition SetList_DeepCopyInto :: "'x imported \<Rightarrow> 'x setListStruct \<Rightarrow> ('x cell, 'x setListStruct) gop" where
  "SetList_DeepCopyInto I x h = do {
     (metadata, h) \<leftarrow> ListMeta_DeepCopyInto I (xlMeta x) h;
     (items, h) \<leftarrow> copySlice Sets unSets (Set_DeepCopyInto I) (xlItems x) h;
     Some (x\<lparr>xlMeta := metadata, xlItems := items\<rparr>, h)
   }"

text \<open>
  \<^verbatim>\<open>DeepCopy\<close>: nil for nil, otherwise a new object filled by \<^verbatim>\<open>DeepCopyInto\<close>, which is what a pointer field
  gets as well.
\<close>

definition ControllerAccessStatus_DeepCopy :: "'x imported \<Rightarrow> addr option \<Rightarrow> ('x cell, addr option) gop" where
  "ControllerAccessStatus_DeepCopy I = copyPtr AccessCell unAccess (ControllerAccessStatus_DeepCopyInto I)"

definition RolloutSummary_DeepCopy :: "'x imported \<Rightarrow> addr option \<Rightarrow> ('x cell, addr option) gop" where
  "RolloutSummary_DeepCopy I = copyPtr RolloutCell unRollout (RolloutSummary_DeepCopyInto I)"

definition Summary_DeepCopy :: "addr option \<Rightarrow> ('x cell, addr option) gop" where
  "Summary_DeepCopy = copyPtr SummaryCell unSummary Summary_DeepCopyInto"

definition PlacementStatus_DeepCopy :: "'x imported \<Rightarrow> addr option \<Rightarrow> ('x cell, addr option) gop" where
  "PlacementStatus_DeepCopy I = copyPtr PlacementStatusCell unPlacementStatus (PlacementStatus_DeepCopyInto I)"

definition Status_DeepCopy :: "'x imported \<Rightarrow> addr option \<Rightarrow> ('x cell, addr option) gop" where
  "Status_DeepCopy I = copyPtr StatusCell unStatus (Status_DeepCopyInto I)"

definition Rotation_DeepCopy :: "addr option \<Rightarrow> ('x cell, addr option) gop" where
  "Rotation_DeepCopy = copyPtr RotationCell unRotation Rotation_DeepCopyInto"

definition TemplateMetadata_DeepCopy :: "addr option \<Rightarrow> ('x cell, addr option) gop" where
  "TemplateMetadata_DeepCopy = copyPtr TemplateMetadataCell unTemplateMetadata TemplateMetadata_DeepCopyInto"

definition TemplateSpec_DeepCopy :: "addr option \<Rightarrow> ('x cell, addr option) gop" where
  "TemplateSpec_DeepCopy = copyPtr TemplateSpecCell unTemplateSpec TemplateSpec_DeepCopyInto"

definition Template_DeepCopy :: "addr option \<Rightarrow> ('x cell, addr option) gop" where
  "Template_DeepCopy = copyPtr TemplateCell unTemplate Template_DeepCopyInto"

definition NamespaceIterator_DeepCopy :: "'x imported \<Rightarrow> addr option \<Rightarrow> ('x cell, addr option) gop" where
  "NamespaceIterator_DeepCopy I = copyPtr IteratorCell unIterator (NamespaceIterator_DeepCopyInto I)"

definition PlacementRef_DeepCopy :: "'x imported \<Rightarrow> addr option \<Rightarrow> ('x cell, addr option) gop" where
  "PlacementRef_DeepCopy I = copyPtr PlacementRefCell unPlacementRef (PlacementRef_DeepCopyInto I)"

definition GrantMetadata_DeepCopy :: "addr option \<Rightarrow> ('x cell, addr option) gop" where
  "GrantMetadata_DeepCopy = copyPtr GrantMetadataCell unGrantMetadata GrantMetadata_DeepCopyInto"

definition Grant_DeepCopy :: "'x imported \<Rightarrow> addr option \<Rightarrow> ('x cell, addr option) gop" where
  "Grant_DeepCopy I = copyPtr GrantCell unGrant (Grant_DeepCopyInto I)"

definition RBAC_DeepCopy :: "'x imported \<Rightarrow> addr option \<Rightarrow> ('x cell, addr option) gop" where
  "RBAC_DeepCopy I = copyPtr RBACCell unRBAC (RBAC_DeepCopyInto I)"

definition Spec_DeepCopy :: "'x imported \<Rightarrow> addr option \<Rightarrow> ('x cell, addr option) gop" where
  "Spec_DeepCopy I = copyPtr SpecCell unSpec (Spec_DeepCopyInto I)"

definition Set_DeepCopy :: "'x imported \<Rightarrow> addr option \<Rightarrow> ('x cell, addr option) gop" where
  "Set_DeepCopy I = copyPtr SetCell unSet (Set_DeepCopyInto I)"

definition SetList_DeepCopy :: "'x imported \<Rightarrow> addr option \<Rightarrow> ('x cell, addr option) gop" where
  "SetList_DeepCopy I = copyPtr SetListCell unSetList (SetList_DeepCopyInto I)"

lemmas DeepCopy_defs = ControllerAccessStatus_DeepCopy_def RolloutSummary_DeepCopy_def Summary_DeepCopy_def PlacementStatus_DeepCopy_def Status_DeepCopy_def Rotation_DeepCopy_def TemplateMetadata_DeepCopy_def TemplateSpec_DeepCopy_def Template_DeepCopy_def NamespaceIterator_DeepCopy_def PlacementRef_DeepCopy_def GrantMetadata_DeepCopy_def Grant_DeepCopy_def RBAC_DeepCopy_def Spec_DeepCopy_def Set_DeepCopy_def SetList_DeepCopy_def

text \<open>A \<^verbatim>\<open>runtime.Object\<close>: an interface value, nil when the copy is.\<close>

datatype runtimeObject = SetObject addr | SetListObject addr

definition Set_DeepCopyObject :: "'x imported \<Rightarrow> addr option \<Rightarrow> ('x cell, runtimeObject option) gop" where
  "Set_DeepCopyObject I p h = do {
     (c, h) \<leftarrow> Set_DeepCopy I p h;
     case c of Some a \<Rightarrow> Some (Some (SetObject a), h) | None \<Rightarrow> Some (None, h)
   }"

definition SetList_DeepCopyObject :: "'x imported \<Rightarrow> addr option \<Rightarrow> ('x cell, runtimeObject option) gop" where
  "SetList_DeepCopyObject I p h = do {
     (c, h) \<leftarrow> SetList_DeepCopy I p h;
     case c of Some a \<Rightarrow> Some (Some (SetListObject a), h) | None \<Rightarrow> Some (None, h)
   }"

section \<open>What the structs stand for\<close>

text \<open>What is seen in imported structs.\<close>

record 'x views =
  viewObjectMeta :: "('x cell, 'x, objectMeta) looker"
  viewListMeta :: "('x cell, 'x, string) looker"
  viewCondition :: "('x cell, 'x, condition) looker"
  viewPolicyRule :: "('x cell, 'x, policyRule) looker"
  viewLabelSelector :: "('x cell, 'x, labelSelector) looker"
  viewRolloutStrategy :: "('x cell, 'x, rolloutStrategy) looker"

definition lookAccess :: "'x views \<Rightarrow> ('x cell, controllerAccessStruct, controllerAccessStatus) looker" where
  "lookAccess V h x = do {
     (conditions, A) \<leftarrow> lookSlice unConditions (viewCondition V) h (xaConditions x);
     Some (\<lparr>caDesiredClusterCount = xaDesiredClusterCount x, caReadyClusterCount = xaReadyClusterCount x,
       caConditions = conditions\<rparr>, A)
   }"

definition lookRollout :: "'x views \<Rightarrow> ('x cell, rolloutSummaryStruct, rolloutSummary) looker" where
  "lookRollout V h x = do {
     (conditions, A) \<leftarrow> lookSlice unConditions (viewCondition V) h (xrConditions x);
     Some (\<lparr>roTotal = xrTotal x, roUpdating = xrUpdating x, roSucceeded = xrSucceeded x, roFailed = xrFailed x,
       roTimedOut = xrTimedOut x, roConditions = conditions\<rparr>, A)
   }"

definition lookPlacementStatus :: "'x views \<Rightarrow> ('x cell, placementStatusStruct, placementStatus) looker" where
  "lookPlacementStatus V h x = do {
     (summ, A) \<leftarrow> lookPtr unSummary lookPlain h (xpSummary x);
     (rollout, B) \<leftarrow> lookPtr unRollout (lookRollout V) h (xpRollout x);
     (conditions, C) \<leftarrow> lookSlice unConditions (viewCondition V) h (xpConditions x);
     Some (\<lparr>psName = xpName x, psSelectedClusterCount = xpSelectedClusterCount x, psSummary = summ, psRollout = rollout,
       psAvailableDecisionGroups = xpAvailableDecisionGroups x, psConditions = conditions\<rparr>, A \<union> (B \<union> C))
   }"

definition lookStatus :: "'x views \<Rightarrow> ('x cell, statusStruct, replicaSetStatus) looker" where
  "lookStatus V h x = do {
     (summ, A) \<leftarrow> lookPtr unSummary lookPlain h (xsSummary x);
     (rollout, B) \<leftarrow> lookPtr unRollout (lookRollout V) h (xsRollout x);
     (access, C) \<leftarrow> lookPtr unAccess (lookAccess V) h (xsControllerAccess x);
     (placements, D) \<leftarrow> lookSlice unPlacementStatuses (lookPlacementStatus V) h (xsPlacements x);
     (conditions, E) \<leftarrow> lookSlice unConditions (viewCondition V) h (xsConditions x);
     Some (\<lparr>stObservedGeneration = xsObservedGeneration x, stSelectedClusterCount = xsSelectedClusterCount x,
       stReadyClusterCount = xsReadyClusterCount x, stSummary = summ, stRollout = rollout, stControllerAccess = access,
       stPlacements = placements, stConditions = conditions\<rparr>, A \<union> (B \<union> (C \<union> (D \<union> E))))
   }"

definition lookRotation :: "('x cell, rotationStruct, rotationSpec) looker" where
  "lookRotation h x = do {
     (enabled, A) \<leftarrow> lookPtr unBool lookPlain h (xoEnabled x);
     (validity, B) \<leftarrow> lookPtr unDuration lookPlain h (xoValidity x);
     Some (\<lparr>rotEnabled = enabled, rotValidity = validity\<rparr>, A \<union> B)
   }"

definition lookTemplateMetadata :: "('x cell, templateMetadataStruct, templateMetadata) looker" where
  "lookTemplateMetadata h x = do {
     (ls, A) \<leftarrow> lookMap unStringMap h (xmLabels x);
     (annotations, B) \<leftarrow> lookMap unStringMap h (xmAnnotations x);
     Some (\<lparr>tmName = xmName x, tmNamespace = xmNamespace x, tmLabels = ls, tmAnnotations = annotations\<rparr>, A \<union> B)
   }"

definition lookTemplateSpec :: "('x cell, templateSpecStruct, templateSpec) looker" where
  "lookTemplateSpec h x = do {
     (rotation, A) \<leftarrow> lookRotation h (xtRotation x);
     (ttl, B) \<leftarrow> lookPtr unInt32 lookPlain h (xtTTLSecondsAfterCreation x);
     Some (\<lparr>tsRotation = rotation, tsTTLSecondsAfterCreation = ttl\<rparr>, A \<union> B)
   }"

definition lookTemplate :: "('x cell, templateStruct, msaTemplate) looker" where
  "lookTemplate h x = do {
     (metadata, A) \<leftarrow> lookTemplateMetadata h (xtMetadata x);
     (spec, B) \<leftarrow> lookTemplateSpec h (xtSpec x);
     Some (\<lparr>tplMetadata = metadata, tplSpec = spec\<rparr>, A \<union> B)
   }"

definition lookIterator :: "'x views \<Rightarrow> ('x cell, iteratorStruct, namespaceIterator) looker" where
  "lookIterator V h x = do {
     (names, A) \<leftarrow> lookSlice unStrings lookPlain h (xiNames x);
     (sel, B) \<leftarrow> lookPtr unSelector (viewLabelSelector V) h (xiSelector x);
     Some (\<lparr>niName = xiName x, niNames = names, niSelector = sel\<rparr>, A \<union> B)
   }"

definition lookPlacementRef :: "'x views \<Rightarrow> ('x cell, 'x placementRefStruct, placementRef) looker" where
  "lookPlacementRef V h x = do {
     (strategy, A) \<leftarrow> viewRolloutStrategy V h (xfRolloutStrategy x);
     Some (\<lparr>prName = xfName x, prRolloutStrategy = strategy\<rparr>, A)
   }"

definition lookGrantMetadata :: "('x cell, grantMetadataStruct, rbacGrantMetadata) looker" where
  "lookGrantMetadata h x = do {
     (ls, A) \<leftarrow> lookMap unStringMap h (xgmLabels x);
     (annotations, B) \<leftarrow> lookMap unStringMap h (xgmAnnotations x);
     Some (\<lparr>gmName = xgmName x, gmLabels = ls, gmAnnotations = annotations\<rparr>, A \<union> B)
   }"

definition lookGrant :: "'x views \<Rightarrow> ('x cell, grantStruct, rbacGrant) looker" where
  "lookGrant V h x = do {
     (iterator, A) \<leftarrow> lookPtr unIterator (lookIterator V) h (xgForEachNamespace x);
     (metadata, B) \<leftarrow> lookGrantMetadata h (xgMetadata x);
     (rules, C) \<leftarrow> lookSlice unPolicyRules (viewPolicyRule V) h (xgRules x);
     Some (\<lparr>gID = xgID x, gType = xgType x, gForEachNamespace = iterator, gMetadata = metadata, gRules = rules\<rparr>, A \<union> (B \<union> C))
   }"

definition lookRBAC :: "'x views \<Rightarrow> ('x cell, rbacStruct, rbacSpec) looker" where
  "lookRBAC V h x = do {
     (grants, A) \<leftarrow> lookSlice unGrants (lookGrant V) h (xbGrants x);
     Some (\<lparr>rbGrants = grants\<rparr>, A)
   }"

definition lookSpec :: "'x views \<Rightarrow> ('x cell, specStruct, replicaSetSpec) looker" where
  "lookSpec V h x = do {
     (refs, A) \<leftarrow> lookSlice unPlacementRefs (lookPlacementRef V) h (xcPlacementRefs x);
     (template, B) \<leftarrow> lookTemplate h (xcTemplate x);
     (rbac, C) \<leftarrow> lookPtr unRBAC (lookRBAC V) h (xcRBAC x);
     Some (\<lparr>spPlacementRefs = refs, spTemplate = template, spRBAC = rbac\<rparr>, A \<union> (B \<union> C))
   }"

definition lookSet :: "'x views \<Rightarrow> ('x cell, 'x setStruct, typeMeta \<times> replicaSet) looker" where
  "lookSet V h x = do {
     (metadata, A) \<leftarrow> viewObjectMeta V h (xMeta x);
     (spec, B) \<leftarrow> lookSpec V h (xSpec x);
     (status, C) \<leftarrow> lookStatus V h (xStatus x);
     Some ((xType x, \<lparr>setMeta = metadata, setSpec = spec, setStatus = status\<rparr>), A \<union> (B \<union> C))
   }"

definition lookSetList :: "'x views \<Rightarrow> ('x cell, 'x setListStruct, typeMeta \<times> string \<times> (typeMeta \<times> replicaSet) list) looker" where
  "lookSetList V h x = do {
     (metadata, A) \<leftarrow> viewListMeta V h (xlMeta x);
     (items, B) \<leftarrow> lookSlice unSets (lookSet V) h (xlItems x);
     Some ((xlType x, metadata, items), A \<union> B)
   }"

section \<open>Deep copies stand for the same and share nothing\<close>

text \<open>What the code relies on of imported packages: their deep copies are deep copies.\<close>

locale imported_structs =
  fixes I :: "'x imported" and V :: "'x views"
  assumes object_meta: "copier (viewObjectMeta V) (ObjectMeta_DeepCopyInto I)"
    and list_meta: "copier (viewListMeta V) (ListMeta_DeepCopyInto I)"
    and condition: "copier (viewCondition V) (Condition_DeepCopyInto I)"
    and policy_rule: "copier (viewPolicyRule V) (PolicyRule_DeepCopyInto I)"
    and label_selector: "copier (viewLabelSelector V) (LabelSelector_DeepCopyInto I)"
    and rollout_strategy: "copier (viewRolloutStrategy V) (RolloutStrategy_DeepCopyInto I)"

lemmas part_simps = map_conv_bind_option split_def comp_def

lemmas parts_simps = lookPair_def copyPair_def map_option_bind comp_def split_def bind_assoc

lemma copier_ptr_plain: "(\<And>x. unbox (box x) = Some x) \<Longrightarrow> copier (lookPtr unbox lookPlain) (copyPtr box unbox copyPlain)"
  by (rule copier_ptr [OF copier_plain])

lemma rotation_copier: "copier lookRotation Rotation_DeepCopyInto"
  by (rule copier_struct [where get = "\<lambda>x. (xoEnabled x, xoValidity x)" and put = "\<lambda>(e, v) x. x\<lparr>xoEnabled := e, xoValidity := v\<rparr>"
        and mk = "\<lambda>x (e, v). \<lparr>rotEnabled = e, rotValidity = v\<rparr>",
        OF copier_pair [OF copier_ptr_plain copier_ptr_plain], of unBool BoolCell unDuration DurationCell])
    (simp_all add: lookRotation_def Rotation_DeepCopyInto_def parts_simps)

lemma template_metadata_copier: "copier lookTemplateMetadata TemplateMetadata_DeepCopyInto"
  by (rule copier_struct [where get = "\<lambda>x. (xmLabels x, xmAnnotations x)" and put = "\<lambda>(l, a) x. x\<lparr>xmLabels := l, xmAnnotations := a\<rparr>"
        and mk = "\<lambda>x (l, a). \<lparr>tmName = xmName x, tmNamespace = xmNamespace x, tmLabels = l, tmAnnotations = a\<rparr>",
        OF copier_pair [OF copier_map copier_map], of unStringMap StringMap unStringMap StringMap])
    (simp_all add: lookTemplateMetadata_def TemplateMetadata_DeepCopyInto_def parts_simps)

lemma grant_metadata_copier: "copier lookGrantMetadata GrantMetadata_DeepCopyInto"
  by (rule copier_struct [where get = "\<lambda>x. (xgmLabels x, xgmAnnotations x)" and put = "\<lambda>(l, a) x. x\<lparr>xgmLabels := l, xgmAnnotations := a\<rparr>"
        and mk = "\<lambda>x (l, a). \<lparr>gmName = xgmName x, gmLabels = l, gmAnnotations = a\<rparr>",
        OF copier_pair [OF copier_map copier_map], of unStringMap StringMap unStringMap StringMap])
    (simp_all add: lookGrantMetadata_def GrantMetadata_DeepCopyInto_def parts_simps)

lemma template_spec_copier: "copier lookTemplateSpec TemplateSpec_DeepCopyInto"
  by (rule copier_struct [where get = "\<lambda>x. (xtRotation x, xtTTLSecondsAfterCreation x)"
        and put = "\<lambda>(r, t) x. x\<lparr>xtRotation := r, xtTTLSecondsAfterCreation := t\<rparr>"
        and mk = "\<lambda>x (r, t). \<lparr>tsRotation = r, tsTTLSecondsAfterCreation = t\<rparr>",
        OF copier_pair [OF rotation_copier copier_ptr_plain], of unInt32 Int32Cell])
    (simp_all add: lookTemplateSpec_def TemplateSpec_DeepCopyInto_def parts_simps)

lemma template_copier: "copier lookTemplate Template_DeepCopyInto"
  by (rule copier_struct [where get = "\<lambda>x. (xtMetadata x, xtSpec x)" and put = "\<lambda>(m, s) x. x\<lparr>xtMetadata := m, xtSpec := s\<rparr>"
        and mk = "\<lambda>x (m, s). \<lparr>tplMetadata = m, tplSpec = s\<rparr>", OF copier_pair [OF template_metadata_copier template_spec_copier]])
    (simp_all add: lookTemplate_def Template_DeepCopyInto_def parts_simps)

context imported_structs
begin

lemma conditions_copier: "copier (lookSlice unConditions (viewCondition V)) (copySlice Conditions unConditions (Condition_DeepCopyInto I))"
  by (rule copier_slice [OF condition]) simp

lemma access_copier: "copier (lookAccess V) (ControllerAccessStatus_DeepCopyInto I)"
  by (rule copier_struct [where get = xaConditions and put = "\<lambda>c x. x\<lparr>xaConditions := c\<rparr>"
        and mk = "\<lambda>x c. \<lparr>caDesiredClusterCount = xaDesiredClusterCount x, caReadyClusterCount = xaReadyClusterCount x, caConditions = c\<rparr>",
        OF conditions_copier])
    (simp_all add: lookAccess_def ControllerAccessStatus_DeepCopyInto_def part_simps)

lemma rollout_copier: "copier (lookRollout V) (RolloutSummary_DeepCopyInto I)"
  by (rule copier_struct [where get = xrConditions and put = "\<lambda>c x. x\<lparr>xrConditions := c\<rparr>"
        and mk = "\<lambda>x c. \<lparr>roTotal = xrTotal x, roUpdating = xrUpdating x, roSucceeded = xrSucceeded x, roFailed = xrFailed x,
          roTimedOut = xrTimedOut x, roConditions = c\<rparr>", OF conditions_copier])
    (simp_all add: lookRollout_def RolloutSummary_DeepCopyInto_def part_simps)

lemma summary_rollout_copier:
  "copier (lookPair (lookPtr unSummary lookPlain) (lookPair (lookPtr unRollout (lookRollout V)) other))
     (copyPair (copyPtr SummaryCell unSummary copyPlain) (copyPair (copyPtr RolloutCell unRollout (RolloutSummary_DeepCopyInto I)) copyOther))"
  if "copier other copyOther"
  by (intro copier_pair copier_ptr_plain copier_ptr [OF rollout_copier] that) simp_all

lemma placement_status_copier: "copier (lookPlacementStatus V) (PlacementStatus_DeepCopyInto I)"
  by (rule copier_struct [where get = "\<lambda>x. (xpSummary x, xpRollout x, xpConditions x)"
        and put = "\<lambda>(s, r, c) x. x\<lparr>xpSummary := s, xpRollout := r, xpConditions := c\<rparr>"
        and mk = "\<lambda>x (s, r, c). \<lparr>psName = xpName x, psSelectedClusterCount = xpSelectedClusterCount x, psSummary = s, psRollout = r,
          psAvailableDecisionGroups = xpAvailableDecisionGroups x, psConditions = c\<rparr>",
        OF summary_rollout_copier [OF conditions_copier]])
    (simp_all add: lookPlacementStatus_def PlacementStatus_DeepCopyInto_def parts_simps)

lemma status_copier: "copier (lookStatus V) (Status_DeepCopyInto I)"
  by (rule copier_struct [where get = "\<lambda>x. (xsSummary x, xsRollout x, xsControllerAccess x, xsPlacements x, xsConditions x)"
        and put = "\<lambda>(s, r, a, p, c) x. x\<lparr>xsSummary := s, xsRollout := r, xsControllerAccess := a, xsPlacements := p, xsConditions := c\<rparr>"
        and mk = "\<lambda>x (s, r, a, p, c). \<lparr>stObservedGeneration = xsObservedGeneration x, stSelectedClusterCount = xsSelectedClusterCount x,
          stReadyClusterCount = xsReadyClusterCount x, stSummary = s, stRollout = r, stControllerAccess = a, stPlacements = p, stConditions = c\<rparr>",
        OF summary_rollout_copier [OF copier_pair [OF copier_ptr [OF access_copier]
          copier_pair [OF copier_slice [OF placement_status_copier] conditions_copier]]],
        of unAccess AccessCell unPlacementStatuses PlacementStatuses])
    (simp_all add: lookStatus_def Status_DeepCopyInto_def parts_simps)

lemma iterator_copier: "copier (lookIterator V) (NamespaceIterator_DeepCopyInto I)"
  by (rule copier_struct [where get = "\<lambda>x. (xiNames x, xiSelector x)" and put = "\<lambda>(n, s) x. x\<lparr>xiNames := n, xiSelector := s\<rparr>"
        and mk = "\<lambda>x (n, s). \<lparr>niName = xiName x, niNames = n, niSelector = s\<rparr>",
        OF copier_pair [OF copier_slice [OF copier_plain] copier_ptr [OF label_selector]], of unStrings Strings unSelector SelectorCell])
    (simp_all add: lookIterator_def NamespaceIterator_DeepCopyInto_def parts_simps)

lemma placement_ref_copier: "copier (lookPlacementRef V) (PlacementRef_DeepCopyInto I)"
  by (rule copier_struct [where get = xfRolloutStrategy and put = "\<lambda>s x. x\<lparr>xfRolloutStrategy := s\<rparr>"
        and mk = "\<lambda>x s. \<lparr>prName = xfName x, prRolloutStrategy = s\<rparr>", OF rollout_strategy])
    (simp_all add: lookPlacementRef_def PlacementRef_DeepCopyInto_def part_simps)

lemma grant_copier: "copier (lookGrant V) (Grant_DeepCopyInto I)"
  by (rule copier_struct [where get = "\<lambda>x. (xgForEachNamespace x, xgMetadata x, xgRules x)"
        and put = "\<lambda>(i, m, r) x. x\<lparr>xgForEachNamespace := i, xgMetadata := m, xgRules := r\<rparr>"
        and mk = "\<lambda>x (i, m, r). \<lparr>gID = xgID x, gType = xgType x, gForEachNamespace = i, gMetadata = m, gRules = r\<rparr>",
        OF copier_pair [OF copier_ptr [OF iterator_copier] copier_pair [OF grant_metadata_copier copier_slice [OF policy_rule]]],
        of unIterator IteratorCell unPolicyRules PolicyRules])
    (simp_all add: lookGrant_def Grant_DeepCopyInto_def parts_simps)

lemma rbac_copier: "copier (lookRBAC V) (RBAC_DeepCopyInto I)"
  by (rule copier_struct [where get = xbGrants and put = "\<lambda>g x. x\<lparr>xbGrants := g\<rparr>" and mk = "\<lambda>x g. \<lparr>rbGrants = g\<rparr>",
        OF copier_slice [OF grant_copier], of unGrants Grants])
    (simp_all add: lookRBAC_def RBAC_DeepCopyInto_def part_simps)

lemma spec_copier: "copier (lookSpec V) (Spec_DeepCopyInto I)"
  by (rule copier_struct [where get = "\<lambda>x. (xcPlacementRefs x, xcTemplate x, xcRBAC x)"
        and put = "\<lambda>(p, t, r) x. x\<lparr>xcPlacementRefs := p, xcTemplate := t, xcRBAC := r\<rparr>"
        and mk = "\<lambda>x (p, t, r). \<lparr>spPlacementRefs = p, spTemplate = t, spRBAC = r\<rparr>",
        OF copier_pair [OF copier_slice [OF placement_ref_copier] copier_pair [OF template_copier copier_ptr [OF rbac_copier]]],
        of unPlacementRefs PlacementRefs unRBAC RBACCell])
    (simp_all add: lookSpec_def Spec_DeepCopyInto_def parts_simps)

lemma set_copier: "copier (lookSet V) (Set_DeepCopyInto I)"
  by (rule copier_struct [where get = "\<lambda>x. (xMeta x, xSpec x, xStatus x)" and put = "\<lambda>(m, s, t) x. x\<lparr>xMeta := m, xSpec := s, xStatus := t\<rparr>"
        and mk = "\<lambda>x (m, s, t). (xType x, \<lparr>setMeta = m, setSpec = s, setStatus = t\<rparr>)",
        OF copier_pair [OF object_meta copier_pair [OF spec_copier status_copier]]])
    (simp_all add: lookSet_def Set_DeepCopyInto_def parts_simps)

lemma set_list_copier: "copier (lookSetList V) (SetList_DeepCopyInto I)"
  by (rule copier_struct [where get = "\<lambda>x. (xlMeta x, xlItems x)" and put = "\<lambda>(m, i) x. x\<lparr>xlMeta := m, xlItems := i\<rparr>"
        and mk = "\<lambda>x (m, i). (xlType x, m, i)", OF copier_pair [OF list_meta copier_slice [OF set_copier]], of unSets Sets])
    (simp_all add: lookSetList_def SetList_DeepCopyInto_def parts_simps)

end

context copier
begin

text \<open>
  The contract of a copy, from outside: what the original and the copy stand for survives every change
  that keeps to the addresses of the other.
\<close>

lemma copy_separate:
  assumes "wfMem h" "look h g = Some (p, A)"
  shows "\<exists>g' h' B. copy g h = Some (g', h') \<and> grows h h' \<and> A \<inter> B = {} \<and>
    (\<forall>k. (\<forall>a. a \<notin> B \<longrightarrow> cells k a = cells h' a) \<longrightarrow> look k g = Some (p, A)) \<and>
    (\<forall>k. (\<forall>a. a \<notin> A \<longrightarrow> cells k a = cells h' a) \<longrightarrow> look k g' = Some (p, B))"
proof -
  obtain g' h' B where run: "copy g h = Some (g', h')" "look h' g' = Some (p, B)" "B \<subseteq> {nextAddr h..<nextAddr h'}" "grows h h'"
    using copied [OF assms] by (auto simp: copies_def)
  have old: "look h' g = Some (p, A)" by (rule look_grows [OF assms run(4)])
  have disjoint: "A \<inter> B = {}" using owned [OF assms] run(3) by fastforce
  have "look k g = Some (p, A)" if "\<forall>a. a \<notin> B \<longrightarrow> cells k a = cells h' a" for k
    by (rule frame [OF old]) (use that disjoint in blast)
  moreover have "look k g' = Some (p, B)" if "\<forall>a. a \<notin> A \<longrightarrow> cells k a = cells h' a" for k
    by (rule frame [OF run(2)]) (use that disjoint in blast)
  ultimately show ?thesis using run(1,4) disjoint by blast
qed

end

context imported_structs
begin

lemma Set_DeepCopy_apart:
  assumes "wfMem h" "lookPtr unSet (lookSet V) h (Some a) = Some (Some (t, rs), A)"
  shows "\<exists>b h' B. Set_DeepCopy I (Some a) h = Some (Some b, h') \<and> grows h h' \<and> A \<inter> B = {} \<and>
    (\<forall>k. (\<forall>x. x \<notin> B \<longrightarrow> cells k x = cells h' x) \<longrightarrow> lookPtr unSet (lookSet V) k (Some a) = Some (Some (t, rs), A)) \<and>
    (\<forall>k. (\<forall>x. x \<notin> A \<longrightarrow> cells k x = cells h' x) \<longrightarrow> lookPtr unSet (lookSet V) k (Some b) = Some (Some (t, rs), B))"
proof -
  have copier: "copier (lookPtr unSet (lookSet V)) (Set_DeepCopy I)"
    unfolding Set_DeepCopy_def by (rule copier_ptr [OF set_copier]) simp
  from copier.copy_separate [OF copier assms] obtain g' h' B where
    run: "Set_DeepCopy I (Some a) h = Some (g', h')" "grows h h'" "A \<inter> B = {}"
      "\<forall>k. (\<forall>x. x \<notin> B \<longrightarrow> cells k x = cells h' x) \<longrightarrow> lookPtr unSet (lookSet V) k (Some a) = Some (Some (t, rs), A)"
      "\<forall>k. (\<forall>x. x \<notin> A \<longrightarrow> cells k x = cells h' x) \<longrightarrow> lookPtr unSet (lookSet V) k g' = Some (Some (t, rs), B)"
    by blast
  from run(5) have "lookPtr unSet (lookSet V) h' g' = Some (Some (t, rs), B)" by simp
  then obtain b where "g' = Some b" by (auto simp: lookPtr_def split: option.splits)
  with run show ?thesis by blast
qed

end

section \<open>Properties\<close>

text \<open>
  C9: All generated deep copies are deep copies. For every type of the API, given that those of imported
  packages are: \<^verbatim>\<open>DeepCopy\<close> of a pointer to a value that stands for \<open>p\<close> does not panic and returns nil for nil
  and otherwise a pointer to a value that stands for \<open>p\<close> as well, all of whose addresses are new, and
  leaves every cell in use as it was.
\<close>

theorem DeepCopy_contract:
  assumes "imported_structs I V"
  shows "copier (lookPtr unAccess (lookAccess V)) (ControllerAccessStatus_DeepCopy I) \<and>
    copier (lookPtr unRollout (lookRollout V)) (RolloutSummary_DeepCopy I) \<and>
    copier (lookPtr unSummary lookPlain) Summary_DeepCopy \<and>
    copier (lookPtr unPlacementStatus (lookPlacementStatus V)) (PlacementStatus_DeepCopy I) \<and>
    copier (lookPtr unStatus (lookStatus V)) (Status_DeepCopy I) \<and>
    copier (lookPtr unRotation lookRotation) Rotation_DeepCopy \<and>
    copier (lookPtr unTemplateMetadata lookTemplateMetadata) TemplateMetadata_DeepCopy \<and>
    copier (lookPtr unTemplateSpec lookTemplateSpec) TemplateSpec_DeepCopy \<and>
    copier (lookPtr unTemplate lookTemplate) Template_DeepCopy \<and>
    copier (lookPtr unIterator (lookIterator V)) (NamespaceIterator_DeepCopy I) \<and>
    copier (lookPtr unPlacementRef (lookPlacementRef V)) (PlacementRef_DeepCopy I) \<and>
    copier (lookPtr unGrantMetadata lookGrantMetadata) GrantMetadata_DeepCopy \<and>
    copier (lookPtr unGrant (lookGrant V)) (Grant_DeepCopy I) \<and>
    copier (lookPtr unRBAC (lookRBAC V)) (RBAC_DeepCopy I) \<and>
    copier (lookPtr unSpec (lookSpec V)) (Spec_DeepCopy I) \<and>
    copier (lookPtr unSet (lookSet V)) (Set_DeepCopy I) \<and>
    copier (lookPtr unSetList (lookSetList V)) (SetList_DeepCopy I)"
proof -
  have summary: "copier lookPlain Summary_DeepCopyInto"
    using copier_plain by (simp add: Summary_DeepCopyInto_def [abs_def] copyPlain_def [abs_def])
  show ?thesis
    unfolding DeepCopy_defs
    by (intro conjI copier_ptr summary imported_structs.access_copier imported_structs.rollout_copier
        imported_structs.placement_status_copier imported_structs.status_copier rotation_copier template_metadata_copier
        template_spec_copier template_copier imported_structs.iterator_copier imported_structs.placement_ref_copier
        grant_metadata_copier imported_structs.grant_copier imported_structs.rbac_copier imported_structs.spec_copier
        imported_structs.set_copier imported_structs.set_list_copier assms unbox)
qed

text \<open>Imported structs without addresses of their own, as an example.\<close>

datatype plainStruct = MetaValue objectMeta | ListValue string | ConditionValue condition | RuleValue policyRule
  | SelectorValue labelSelector | StrategyValue rolloutStrategy

definition plainImported :: "plainStruct imported" where
  "plainImported = \<lparr>ObjectMeta_DeepCopyInto = copyPlain, ListMeta_DeepCopyInto = copyPlain, Condition_DeepCopyInto = copyPlain,
     PolicyRule_DeepCopyInto = copyPlain, LabelSelector_DeepCopyInto = copyPlain, RolloutStrategy_DeepCopyInto = copyPlain\<rparr>"

definition plainViews :: "plainStruct views" where
  "plainViews = \<lparr>
     viewObjectMeta = (\<lambda>h x. case x of MetaValue m \<Rightarrow> Some (m, {}) | _ \<Rightarrow> None),
     viewListMeta = (\<lambda>h x. case x of ListValue m \<Rightarrow> Some (m, {}) | _ \<Rightarrow> None),
     viewCondition = (\<lambda>h x. case x of ConditionValue m \<Rightarrow> Some (m, {}) | _ \<Rightarrow> None),
     viewPolicyRule = (\<lambda>h x. case x of RuleValue m \<Rightarrow> Some (m, {}) | _ \<Rightarrow> None),
     viewLabelSelector = (\<lambda>h x. case x of SelectorValue m \<Rightarrow> Some (m, {}) | _ \<Rightarrow> None),
     viewRolloutStrategy = (\<lambda>h x. case x of StrategyValue m \<Rightarrow> Some (m, {}) | _ \<Rightarrow> None)\<rparr>"

interpretation plain: imported_structs plainImported plainViews
  by (rule imported_structs.intro; unfold_locales)
    (auto simp: plainViews_def plainImported_def copies_def copyPlain_def grows_refl split: plainStruct.splits)

text \<open>A set in memory: the struct, a label map, the array of its placement references and that of its conditions.\<close>

definition storedType :: typeMeta where
  "storedType = \<lparr>tyAPIVersion = ''authentication.appthrust.io/v1alpha1'', tyKind = ''ManagedServiceAccountReplicaSet''\<rparr>"

definition storedCondition :: condition where
  "storedCondition = \<lparr>cType = ''Ready'', cStatus = ConditionFalse, cObservedGeneration = 1, cLastTransitionTime = 3,
     cReason = ''InvalidSpec'', cMessage = []\<rparr>"

definition storedSet :: "plainStruct setStruct" where
  "storedSet = \<lparr>xType = storedType, xMeta = MetaValue (setMeta sampleSet),
     xSpec = \<lparr>xcPlacementRefs = Some \<lparr>slArray = 2, slOffset = 0, slLen = 1\<rparr>,
       xcTemplate = \<lparr>xtMetadata = \<lparr>xmName = ''viewer-account'', xmNamespace = ''agents'', xmLabels = Some 1, xmAnnotations = None\<rparr>,
         xtSpec = \<lparr>xtRotation = \<lparr>xoEnabled = None, xoValidity = None\<rparr>, xtTTLSecondsAfterCreation = None\<rparr>\<rparr>,
       xcRBAC = None\<rparr>,
     xStatus = \<lparr>xsObservedGeneration = 0, xsSelectedClusterCount = 0, xsReadyClusterCount = 0, xsSummary = None, xsRollout = None,
       xsControllerAccess = None, xsPlacements = None, xsConditions = Some \<lparr>slArray = 3, slOffset = 0, slLen = 1\<rparr>\<rparr>\<rparr>"

definition storedMemory :: "plainStruct cell memory" where
  "storedMemory = \<lparr>cells = [0 \<mapsto> SetCell storedSet, 1 \<mapsto> StringMap (fmap_of_list [(''team'', ''blue'')]),
     2 \<mapsto> PlacementRefs [\<lparr>xfName = ''all'', xfRolloutStrategy = StrategyValue \<lparr>rsType = [], rsSettings = []\<rparr>\<rparr>],
     3 \<mapsto> Conditions [ConditionValue storedCondition]], nextAddr = 4\<rparr>"

definition storedValue :: replicaSet where
  "storedValue = \<lparr>setMeta = setMeta sampleSet, setSpec = (sampleSpec [])\<lparr>spRBAC := None\<rparr>,
     setStatus = sampleStatus\<lparr>stConditions := [storedCondition]\<rparr>\<rparr>"

lemma storedMemory_wf: "wfMem storedMemory"
  by (simp add: wfMem_def storedMemory_def)

lemmas look_simps = lookSet_def lookSpec_def lookStatus_def lookTemplate_def lookTemplateMetadata_def lookTemplateSpec_def
  lookRotation_def lookPlacementRef_def lookPtr_def lookSlice_def lookMap_def lookPlain_def elements_def deref_def

lemma storedSet_look: "lookSet plainViews storedMemory storedSet = Some ((storedType, storedValue), {1, 2, 3})"
  by (simp add: look_simps storedMemory_def storedSet_def plainViews_def storedValue_def sampleSpec_def sampleStatus_def) blast

lemma storedMemory_look:
  "lookPtr unSet (lookSet plainViews) storedMemory (Some 0) = Some (Some (storedType, storedValue), {0, 1, 2, 3})"
proof -
  have "deref unSet 0 storedMemory = Some storedSet" by (simp add: deref_def storedMemory_def)
  then show ?thesis by (simp add: lookPtr_def storedSet_look)
qed

theorem DeepCopy_contract_witness:
  "copies (lookPtr unSet (lookSet plainViews)) (Set_DeepCopy plainImported) (Some 0) (Some (storedType, storedValue)) storedMemory"
  using DeepCopy_contract [OF plain.imported_structs_axioms] storedMemory_wf storedMemory_look by (blast intro: copier.copied)

text \<open>
  A deep copy of a set is the set, and shares nothing with it. In a memory where an address refers to a
  set that stands for \<open>rs\<close>, \<^verbatim>\<open>DeepCopy\<close> does not panic, changes nothing that was there, and returns an address
  that stands for \<open>rs\<close> too; whatever is then changed through the copy, the original still stands for
  \<open>rs\<close>, and whatever is changed through the original, the copy does.
\<close>

theorem Set_DeepCopy_separate:
  assumes "imported_structs I V" "wfMem h" "lookPtr unSet (lookSet V) h (Some a) = Some (Some (t, rs), A)"
  shows "\<exists>b h' B. Set_DeepCopy I (Some a) h = Some (Some b, h') \<and> grows h h' \<and> A \<inter> B = {} \<and>
    (\<forall>k. (\<forall>x. x \<notin> B \<longrightarrow> cells k x = cells h' x) \<longrightarrow> lookPtr unSet (lookSet V) k (Some a) = Some (Some (t, rs), A)) \<and>
    (\<forall>k. (\<forall>x. x \<notin> A \<longrightarrow> cells k x = cells h' x) \<longrightarrow> lookPtr unSet (lookSet V) k (Some b) = Some (Some (t, rs), B))"
  by (rule imported_structs.Set_DeepCopy_apart [OF assms])

theorem Set_DeepCopy_separate_witness:
  "\<exists>b h' B. Set_DeepCopy plainImported (Some 0) storedMemory = Some (Some b, h') \<and> {0, 1, 2, 3} \<inter> B = {} \<and>
    lookPtr unSet (lookSet plainViews) (store 3 (Conditions []) h') (Some b) = Some (Some (storedType, storedValue), B)"
proof -
  from Set_DeepCopy_separate [OF plain.imported_structs_axioms storedMemory_wf storedMemory_look] obtain b h' B where
    "Set_DeepCopy plainImported (Some 0) storedMemory = Some (Some b, h')" "{0, 1, 2, 3} \<inter> B = {}"
    "\<forall>k. (\<forall>x. x \<notin> {0, 1, 2, 3} \<longrightarrow> cells k x = cells h' x) \<longrightarrow>
       lookPtr unSet (lookSet plainViews) k (Some b) = Some (Some (storedType, storedValue), B)"
    by blast
  moreover from this(3) have "lookPtr unSet (lookSet plainViews) (store 3 (Conditions []) h') (Some b) = Some (Some (storedType, storedValue), B)"
    by simp
  ultimately show ?thesis by blast
qed

end
