(* ===== verification/Memory_Use.thy ===== *)
theory Memory_Use
  imports Deep_Copy Status
begin

text \<open>
  The places where the controller changes a set in place (\<^verbatim>\<open>managedserviceaccountreplicaset_controller.go\<close>),
  over Go's memory: the status that starts from a clone of the stored conditions, and the base of a
  status patch that is copied before the status is replaced. The lemmas show that the values the model
  passes around are what these objects stand for.
\<close>

text \<open>\<^verbatim>\<open>slices.Clone\<close>: a new array with the same elements, which still share what they refer to.\<close>

definition cloneConditions :: "slice option \<Rightarrow> ('x cell, slice option) gop" where
  "cloneConditions = copySlice Conditions unConditions copyPlain"

definition newStatusStruct :: "addr \<Rightarrow> ('x cell, statusStruct) gop" where
  "newStatusStruct a h = do {
     x \<leftarrow> deref unSet a h;
     (conditions, h) \<leftarrow> cloneConditions (xsConditions (xStatus x)) h;
     Some (\<lparr>xsObservedGeneration = xsObservedGeneration (xStatus x), xsSelectedClusterCount = 0, xsReadyClusterCount = 0,
       xsSummary = None, xsRollout = None, xsControllerAccess = None, xsPlacements = None, xsConditions = conditions\<rparr>, h)
   }"

text \<open>\<^verbatim>\<open>base := set.DeepCopy(); set.Status = status\<close>, as \<^verbatim>\<open>patchStatus\<close> prepares its patch.\<close>

definition replaceStatus :: "'x imported \<Rightarrow> addr \<Rightarrow> statusStruct \<Rightarrow> ('x cell, addr option) gop" where
  "replaceStatus I a status h = do {
     (base, h) \<leftarrow> Set_DeepCopy I (Some a) h;
     x \<leftarrow> deref unSet a h;
     Some (base, store a (SetCell (x\<lparr>xStatus := status\<rparr>)) h)
   }"

section \<open>Cloned conditions\<close>

text \<open>
  Cloning an array of values: the new array has the same elements, seen in any memory that keeps what
  they refer to.
\<close>

lemma clone_elements:
  assumes "wfMem h" "elements unConditions s h = Some xs"
  obtains b h' where "cloneConditions (Some s) h = Some (Some \<lparr>slArray = b, slOffset = 0, slLen = length xs\<rparr>, h')"
    "b = nextAddr h" "grows h h'" "cells h' b = Some (Conditions xs)" "nextAddr h' = Suc b"
proof -
  obtain b h1 where res: "reserve h = (b, h1)" by (cases "reserve h") auto
  note g = grows_reserve [OF assms(1) res]
  have copy: "copyAll copyPlain ys k = Some (ys, k)" for ys and k :: "'a cell memory"
    by (induction ys) (simp_all add: copyPlain_def)
  have "elements unConditions s h1 = Some xs" using deref_reserve [OF assms(1) res] assms(2) by (simp add: elements_window)
  then show ?thesis
    using g by (intro that [of b "store b (Conditions xs) h1"])
      (auto simp: cloneConditions_def copySlice_def res copy intro: grows_store)
qed

context looking
begin

lemma lookAll_looking: "lookAll look h xs = Some (ps, A) \<Longrightarrow> \<forall>a \<in> A. cells h' a = cells h a \<Longrightarrow> lookAll look h' xs = Some (ps, A)"
  by (rule looking.frame [OF looking_all]) unfold_locales

end

lemma lookStatus_new:
  "lookStatus V h \<lparr>xsObservedGeneration = n, xsSelectedClusterCount = 0, xsReadyClusterCount = 0,
     xsSummary = None, xsRollout = None, xsControllerAccess = None, xsPlacements = None, xsConditions = s\<rparr> =
   map_option (\<lambda>(cs, A). (\<lparr>stObservedGeneration = n, stSelectedClusterCount = 0, stReadyClusterCount = 0, stSummary = None,
     stRollout = None, stControllerAccess = None, stPlacements = [], stConditions = cs\<rparr>, A)) (lookSlice unConditions (viewCondition V) h s)"
  by (simp add: lookStatus_def lookPtr_def part_simps) (simp add: lookSlice_def)

context imported_structs
begin

lemma looking_condition: "looking (viewCondition V)"
  using condition by (simp add: copier_def)

lemma looking_set: "looking (lookSet V)"
  using set_copier by (simp add: copier_def)

text \<open>The parts of a set: its conditions can be looked at in memory.\<close>

lemma lookSet_status:
  assumes "lookSet V h x = Some ((t, rs), A)"
  obtains B where "lookStatus V h (xStatus x) = Some (setStatus rs, B)"
  using assms by (auto simp: lookSet_def bind_eq_Some_conv)

lemma lookStatus_conditions:
  assumes "lookStatus V h y = Some (st, A)"
  obtains B where "lookSlice unConditions (viewCondition V) h (xsConditions y) = Some (stConditions st, B)"
    "xsObservedGeneration y = stObservedGeneration st"
  using assms by (auto simp: lookStatus_def bind_eq_Some_conv)

lemma clone_looks:
  assumes "wfMem h" "lookSlice unConditions (viewCondition V) h s = Some (cs, A)"
  obtains s' h' B where "cloneConditions s h = Some (s', h')" "grows h h'" "lookSlice unConditions (viewCondition V) h' s' = Some (cs, B)"
    "\<And>u. s' = Some u \<Longrightarrow> nextAddr h \<le> slArray u"
proof (cases s)
  case None
  with assms that [of None h A] show ?thesis by (simp add: cloneConditions_def copySlice_def grows_refl)
next
  case (Some u)
  with assms(2) obtain xs B where xs: "elements unConditions u h = Some xs" "lookAll (viewCondition V) h xs = Some (cs, B)"
    by (auto simp: lookSlice_def bind_eq_Some_conv)
  obtain b h' where clone: "cloneConditions (Some u) h = Some (Some \<lparr>slArray = b, slOffset = 0, slLen = length xs\<rparr>, h')"
    "b = nextAddr h" "grows h h'" "cells h' b = Some (Conditions xs)"
    by (rule clone_elements [OF assms(1) xs(1)])
  have "lookAll (viewCondition V) h' xs = Some (cs, B)"
    by (rule looking.look_grows [OF looking_all [OF looking_condition] assms(1) xs(2) clone(3)])
  with clone show ?thesis
    by (intro that [of "Some \<lparr>slArray = b, slOffset = 0, slLen = length xs\<rparr>" h' "insert b B"])
      (auto simp: Some lookSlice_def elements_def deref_def)
qed

lemma newStatusStruct_looks:
  assumes "wfMem h" "cells h a = Some (SetCell x)" "lookSet V h x = Some ((t, rs), A)"
  shows "\<exists>st h' B. newStatusStruct a h = Some (st, h') \<and> grows h h' \<and> lookStatus V h' st = Some (newStatus rs, B) \<and>
    (\<forall>s c. xsConditions st = Some s \<longrightarrow> cells (store (slArray s) c h') a = Some (SetCell x) \<and>
       lookSet V (store (slArray s) c h') x = Some ((t, rs), A))"
proof -
  obtain B C where conditions: "lookSlice unConditions (viewCondition V) h (xsConditions (xStatus x)) = Some (stConditions (setStatus rs), C)"
    "xsObservedGeneration (xStatus x) = stObservedGeneration (setStatus rs)"
    by (rule lookSet_status [OF assms(3)], erule lookStatus_conditions) blast
  obtain s' h' D where clone: "cloneConditions (xsConditions (xStatus x)) h = Some (s', h')" "grows h h'"
    "lookSlice unConditions (viewCondition V) h' s' = Some (stConditions (setStatus rs), D)" "\<And>u. s' = Some u \<Longrightarrow> nextAddr h \<le> slArray u"
    by (rule clone_looks [OF assms(1) conditions(1)]) blast
  have a: "a < nextAddr h" using deref_owned [OF assms(1), of unSet a x] assms(2) by (simp add: deref_def)
  have "lookSet V (store (slArray u) c h') x = Some ((t, rs), A)" if "s' = Some u" for u c
    by (rule looking.frame [OF looking_set assms(3)])
      (use clone(2) clone(4) [OF that] looking.owned [OF looking_set assms(1,3)] in \<open>auto simp: grows_def\<close>)
  moreover have "cells (store (slArray u) c h') a = Some (SetCell x)" if "s' = Some u" for u c
    using clone(2) clone(4) [OF that] a assms(2) by (auto simp: grows_def)
  ultimately show ?thesis
    using assms(2) clone(1-3) conditions(2)
    by (simp add: newStatusStruct_def deref_def lookStatus_new newStatus_def)
qed

lemma replaceStatus_looks:
  assumes "wfMem h" "cells h a = Some (SetCell x)" "lookSet V h x = Some ((t, rs), A)" "a \<notin> A"
    and "lookStatus V h status = Some (st, C)" "a \<notin> C"
  shows "\<exists>base h' B D. replaceStatus I a status h = Some (Some base, h') \<and>
    lookPtr unSet (lookSet V) h' (Some base) = Some (Some (t, rs), B) \<and>
    lookPtr unSet (lookSet V) h' (Some a) = Some (Some (t, rs\<lparr>setStatus := st\<rparr>), D)"
proof -
  have "lookPtr unSet (lookSet V) h (Some a) = Some (Some (t, rs), insert a A)"
    using assms(2,3) by (simp add: lookPtr_def deref_def)
  from Set_DeepCopy_apart [OF assms(1) this] obtain base h1 B where
    copy: "Set_DeepCopy I (Some a) h = Some (Some base, h1)" "grows h h1"
      "\<forall>k. (\<forall>z. z \<notin> insert a A \<longrightarrow> cells k z = cells h1 z) \<longrightarrow> lookPtr unSet (lookSet V) k (Some base) = Some (Some (t, rs), B)"
    by blast
  have a: "a < nextAddr h" using deref_owned [OF assms(1), of unSet a x] assms(2) by (simp add: deref_def)
  let ?h = "store a (SetCell (x\<lparr>xStatus := status\<rparr>)) h1"
  have same: "cells ?h z = cells h z" if "z \<noteq> a" "z < nextAddr h" for z using that copy(2) by (simp add: grows_def)
  have "lookSet V ?h x = Some ((t, rs), A)"
    by (rule looking.frame [OF looking_set assms(3)]) (use same assms(4) looking.owned [OF looking_set assms(1,3)] in \<open>auto simp: subset_iff\<close>)
  moreover have "lookStatus V ?h status = Some (st, C)"
    by (rule looking.frame [OF copier.axioms(1) [OF status_copier] assms(5)])
      (use same assms(6) looking.owned [OF copier.axioms(1) [OF status_copier] assms(1,5)] in \<open>auto simp: subset_iff\<close>)
  ultimately obtain D where "lookSet V ?h (x\<lparr>xStatus := status\<rparr>) = Some ((t, rs\<lparr>setStatus := st\<rparr>), D)"
    by (auto simp: lookSet_def bind_eq_Some_conv)
  moreover have "deref unSet a h1 = Some x" using copy(2) a assms(2) by (simp add: grows_def deref_def)
  moreover have "lookPtr unSet (lookSet V) ?h (Some base) = Some (Some (t, rs), B)" using copy(3) by simp
  ultimately show ?thesis
    using copy(1) by (simp add: replaceStatus_def) (simp add: lookPtr_def deref_def)
qed

end

section \<open>Properties\<close>

text \<open>
  C10: A status patch is computed between the right values. When \<^verbatim>\<open>patchStatus\<close> copies the set at an address and
  then replaces its status in place, the base it passes to the patch stands for the set as it was and the
  address for the set with the new status, which is what the model's \<^const>\<open>patchStatus\<close> passes.
\<close>

theorem patchStatus_in_memory:
  assumes "imported_structs I V" "wfMem h" "cells h a = Some (SetCell x)" "lookSet V h x = Some ((t, rs), A)" "a \<notin> A"
    and "lookStatus V h status = Some (st, C)" "a \<notin> C"
  shows "\<exists>base h' B D. replaceStatus I a status h = Some (Some base, h') \<and>
    lookPtr unSet (lookSet V) h' (Some base) = Some (Some (t, rs), B) \<and>
    lookPtr unSet (lookSet V) h' (Some a) = Some (Some (t, rs\<lparr>setStatus := st\<rparr>), D)"
  by (rule imported_structs.replaceStatus_looks [OF assms])

text \<open>
  C31: The status under construction does not touch the stored one. \<^verbatim>\<open>newStatus\<close> gives a status that stands for
  the model's \<^const>\<open>newStatus\<close>, and whatever is written into its array of conditions afterwards, as setting a
  condition does, the set it was made from still stands for the same.
\<close>

theorem newStatus_in_memory:
  assumes "imported_structs I V" "wfMem h" "cells h a = Some (SetCell x)" "lookSet V h x = Some ((t, rs), A)"
  shows "\<exists>st h' B. newStatusStruct a h = Some (st, h') \<and> grows h h' \<and> lookStatus V h' st = Some (newStatus rs, B) \<and>
    (\<forall>s c. xsConditions st = Some s \<longrightarrow> cells (store (slArray s) c h') a = Some (SetCell x) \<and>
       lookSet V (store (slArray s) c h') x = Some ((t, rs), A))"
  by (rule imported_structs.newStatusStruct_looks [OF assms])

lemma storedMemory_cell: "cells storedMemory 0 = Some (SetCell storedSet)"
  by (simp add: storedMemory_def)

theorem patchStatus_in_memory_witness:
  "\<exists>base h' B D. replaceStatus plainImported 0 ((xStatus storedSet)\<lparr>xsReadyClusterCount := 2\<rparr>) storedMemory = Some (Some base, h') \<and>
    lookPtr unSet (lookSet plainViews) h' (Some base) = Some (Some (storedType, storedValue), B) \<and>
    lookPtr unSet (lookSet plainViews) h' (Some 0) =
      Some (Some (storedType, storedValue\<lparr>setStatus := (setStatus storedValue)\<lparr>stReadyClusterCount := 2\<rparr>\<rparr>), D)"
proof -
  have "lookStatus plainViews storedMemory ((xStatus storedSet)\<lparr>xsReadyClusterCount := 2\<rparr>) =
      Some ((setStatus storedValue)\<lparr>stReadyClusterCount := 2\<rparr>, {3})"
    by (simp add: look_simps storedMemory_def storedSet_def plainViews_def storedValue_def sampleStatus_def)
  from patchStatus_in_memory [OF plain.imported_structs_axioms storedMemory_wf storedMemory_cell storedSet_look _ this]
  show ?thesis by simp
qed

theorem newStatus_in_memory_witness:
  "\<exists>st h' B. newStatusStruct 0 storedMemory = Some (st, h') \<and> lookStatus plainViews h' st = Some (newStatus storedValue, B)"
  using newStatus_in_memory [OF plain.imported_structs_axioms storedMemory_wf storedMemory_cell storedSet_look] by blast

end
