(* ===== verification/Command_Line.thy ===== *)
theory Command_Line
  imports Prelude
begin

text \<open>
  The command line of \<^verbatim>\<open>cmd/manager/main.go\<close>: the four flags it defines, their defaults, and Go's \<^verbatim>\<open>flag\<close>
  package as far as the program uses it, including \<^verbatim>\<open>--\<close>, \<^verbatim>\<open>-name=value\<close>, boolean flags without a value and
  the errors. Flags that imported packages define on the same command line are a parameter. The
  lemmas show that arguments in the form the deployment uses are read back as the options they were
  written from.
\<close>

section \<open>Options\<close>

record options =
  opMetricsAddr :: string
  opHealthAddr :: string
  opLeaderElect :: bool
  opProviderFile :: string

definition defaultOptions :: options where
  "defaultOptions = \<lparr>opMetricsAddr = '':8080'', opHealthAddr = '':8081'', opLeaderElect = False, opProviderFile = []\<rparr>"

datatype flagKind = StringFlag | BoolFlag

text \<open>The flags of other packages, with what setting one does.\<close>

record 'z otherFlags =
  ofKind :: "string \<Rightarrow> flagKind option"
  ofSet :: "string \<Rightarrow> string \<Rightarrow> 'z \<Rightarrow> go_error + 'z"

definition flagKindOf :: "'z otherFlags \<Rightarrow> string \<Rightarrow> flagKind option" where
  "flagKindOf F name =
     (if name = ''metrics-bind-address'' then Some StringFlag
      else if name = ''health-probe-bind-address'' then Some StringFlag
      else if name = ''leader-elect'' then Some BoolFlag
      else if name = ''clusterprofile-provider-file'' then Some StringFlag
      else ofKind F name)"

text \<open>\<^verbatim>\<open>strconv.ParseBool\<close>\<close>

definition parseBool :: "string \<Rightarrow> bool option" where
  "parseBool s =
     (if s \<in> {''1'', ''t'', ''T'', ''TRUE'', ''true'', ''True''} then Some True
      else if s \<in> {''0'', ''f'', ''F'', ''FALSE'', ''false'', ''False''} then Some False
      else None)"

definition setFlag :: "'z otherFlags \<Rightarrow> string \<Rightarrow> string \<Rightarrow> options \<times> 'z \<Rightarrow> go_error + options \<times> 'z" where
  "setFlag F name v st =
     (if name = ''metrics-bind-address'' then Inr ((fst st)\<lparr>opMetricsAddr := v\<rparr>, snd st)
      else if name = ''health-probe-bind-address'' then Inr ((fst st)\<lparr>opHealthAddr := v\<rparr>, snd st)
      else if name = ''leader-elect'' then
        (case parseBool v of None \<Rightarrow> Inl (ErrText ''parse error'') | Some b \<Rightarrow> Inr ((fst st)\<lparr>opLeaderElect := b\<rparr>, snd st))
      else if name = ''clusterprofile-provider-file'' then Inr ((fst st)\<lparr>opProviderFile := v\<rparr>, snd st)
      else case ofSet F name v (snd st) of Inl err \<Rightarrow> Inl err | Inr z \<Rightarrow> Inr (fst st, z))"

section \<open>Parsing\<close>

text \<open>The name, up to the first \<^verbatim>\<open>=\<close> that is not its first character, and the value after it.\<close>

fun splitFlag :: "string \<Rightarrow> string \<times> string option" where
  "splitFlag [] = ([], None)"
| "splitFlag (c # cs) = (c # takeWhile (\<lambda>x. x \<noteq> CHR ''='') cs,
     case dropWhile (\<lambda>x. x \<noteq> CHR ''='') cs of [] \<Rightarrow> None | _ # v \<Rightarrow> Some v)"

datatype 'st parsed = Parsed 'st "string list" | HelpRequested | ParseFailed go_error

fun parseFlags :: "'z otherFlags \<Rightarrow> string list \<Rightarrow> options \<times> 'z \<Rightarrow> (options \<times> 'z) parsed" where
  "parseFlags F [] st = Parsed st []"
| "parseFlags F (s # args) st =
     (if length s < 2 \<or> hd s \<noteq> CHR ''-'' then Parsed st (s # args)
      else if s = ''--'' then Parsed st args
      else let name0 = (if s ! 1 = CHR ''-'' then drop 2 s else drop 1 s) in
        if name0 = [] \<or> hd name0 = CHR ''-'' \<or> hd name0 = CHR ''='' then ParseFailed (ErrText (''bad flag syntax: '' @ s))
        else let (name, v) = splitFlag name0 in
          case flagKindOf F name of
            None \<Rightarrow> if name = ''help'' \<or> name = ''h'' then HelpRequested
                    else ParseFailed (ErrText (''flag provided but not defined: -'' @ name))
          | Some BoolFlag \<Rightarrow> (case setFlag F name (case v of None \<Rightarrow> ''true'' | Some b \<Rightarrow> b) st of
                Inl err \<Rightarrow> ParseFailed err
              | Inr st' \<Rightarrow> parseFlags F args st')
          | Some StringFlag \<Rightarrow> (case v of
                Some x \<Rightarrow> (case setFlag F name x st of Inl err \<Rightarrow> ParseFailed err | Inr st' \<Rightarrow> parseFlags F args st')
              | None \<Rightarrow> (case args of
                    [] \<Rightarrow> ParseFailed (ErrText (''flag needs an argument: -'' @ name))
                  | x # args' \<Rightarrow> (case setFlag F name x st of Inl err \<Rightarrow> ParseFailed err | Inr st' \<Rightarrow> parseFlags F args' st'))))"

text \<open>The arguments as the deployment writes them.\<close>

definition renderOptions :: "options \<Rightarrow> string list" where
  "renderOptions opts =
     [''--metrics-bind-address='' @ opMetricsAddr opts, ''--health-probe-bind-address='' @ opHealthAddr opts] @
     (if opLeaderElect opts then [''--leader-elect''] else []) @
     (if opProviderFile opts \<noteq> [] then [''--clusterprofile-provider-file='' @ opProviderFile opts] else [])"

section \<open>Properties\<close>

text \<open>
  C34: Options survive the command line. The arguments written from options, whatever strings they contain,
  are parsed back to these options, with nothing left over and the flags of other packages untouched.
\<close>

theorem parseFlags_roundtrip:
  "parseFlags F (renderOptions opts) (defaultOptions, z) = Parsed (opts, z) []"
  by (cases opts) (simp add: renderOptions_def defaultOptions_def flagKindOf_def setFlag_def parseBool_def)

end
