(* ===== verification/Executable.thy ===== *)
theory Executable
  imports Manager Command_Line
begin

text \<open>
  The process: the scheme \<^verbatim>\<open>init\<close> fills (\<^verbatim>\<open>cmd/manager/main.go\<close>, \<^verbatim>\<open>api/v1alpha1/groupversion_info.go\<close>), \<^verbatim>\<open>main\<close> from
  its arguments to the exit status, and the readiness probe with the goroutine that feeds it. The
  scheme, the manager and the installers of imported packages are parameters; what the code relies on
  of a scheme is the locale \<open>scheme_library\<close>. Shown: how the command line decides the options of the manager and the
  wiring of the reconciler, what has been registered when the manager starts, the exit status, and the probe.
\<close>

section \<open>The scheme\<close>

definition Group :: string where
  "Group = ''authentication.appthrust.io''"

definition Version :: string where
  "Version = ''v1alpha1''"

definition GroupVersion :: "string \<times> string" where
  "GroupVersion = (Group, Version)"

record 'k schemeLib =
  scEmpty :: 'k
  scAddKnownTypes :: "string \<times> string \<Rightarrow> string list \<Rightarrow> 'k \<Rightarrow> 'k"
  scAddToGroupVersion :: "'k \<Rightarrow> string \<times> string \<Rightarrow> 'k"

text \<open>The types by the names of their structs, under which a scheme registers them.\<close>

definition addKnownTypes :: "'k schemeLib \<Rightarrow> 'k \<Rightarrow> go_error + 'k" where
  "addKnownTypes K scheme =
     (let scheme1 = scAddKnownTypes K GroupVersion [''ManagedServiceAccountReplicaSet'', ''ManagedServiceAccountReplicaSetList''] scheme
      in Inr (scAddToGroupVersion K scheme1 GroupVersion))"

text \<open>\<^verbatim>\<open>SchemeBuilder.AddToScheme\<close>: the registered functions in turn, here one.\<close>

fun addToScheme :: "('k \<Rightarrow> go_error + 'k) list \<Rightarrow> 'k \<Rightarrow> go_error + 'k" where
  "addToScheme [] scheme = Inr scheme"
| "addToScheme (f # fs) scheme = (case f scheme of Inl err \<Rightarrow> Inl err | Inr scheme' \<Rightarrow> addToScheme fs scheme')"

definition SchemeBuilder :: "'k schemeLib \<Rightarrow> ('k \<Rightarrow> go_error + 'k) list" where
  "SchemeBuilder K = [addKnownTypes K]"

record 'k installers =
  insClientGo :: "'k \<Rightarrow> go_error + 'k"
  insCluster :: "'k \<Rightarrow> go_error + 'k"
  insMSA :: "'k \<Rightarrow> go_error + 'k"
  insWork :: "'k \<Rightarrow> go_error + 'k"
  insInventory :: "'k \<Rightarrow> go_error + 'k"

text \<open>\<^verbatim>\<open>init\<close>: a failing installer is a panic.\<close>

definition initScheme :: "'k schemeLib \<Rightarrow> 'k installers \<Rightarrow> 'k option" where
  "initScheme K N = (case addToScheme [insClientGo N, addToScheme (SchemeBuilder K), insCluster N, insMSA N, insWork N, insInventory N] (scEmpty K) of
     Inl err \<Rightarrow> None | Inr scheme \<Rightarrow> Some scheme)"

section \<open>Main\<close>

record 'k managerOptions =
  moScheme :: 'k
  moMetricsAddr :: string
  moSecureServing :: bool
  moAuthenticated :: bool
  moHealthAddr :: string
  moLeaderElection :: bool
  moLeaderElectionID :: string

definition managerOptionsOf :: "'k \<Rightarrow> options \<Rightarrow> 'k managerOptions" where
  "managerOptionsOf scheme opts = \<lparr>moScheme = scheme, moMetricsAddr = opMetricsAddr opts, moSecureServing = True,
     moAuthenticated = True, moHealthAddr = opHealthAddr opts, moLeaderElection = opLeaderElect opts,
     moLeaderElectionID = ''ocm-managed-serviceaccount-replicaset-controller.authentication.appthrust.io''\<rparr>"

text \<open>What the process finds: whether there is a cluster configuration, and the calls on the manager with their errors.\<close>

record ('e, 'z, 'k) host =
  hsFlags :: "'z otherFlags"
  hsOther :: 'z
  hsSchemeLib :: "'k schemeLib"
  hsInstallers :: "'k installers"
  hsConfig :: bool
  hsNewManager :: "'k managerOptions \<Rightarrow> go_error + 'e manager"
  hsAddHealthz :: "go_error option"
  hsAddReadyz :: "go_error option"
  hsStart :: "go_error option"

datatype 'k mainEvent = NewManager "'k managerOptions" | ControllerAdded | HealthzAdded | ReadyzAdded | ManagerStarted

record ('e, 'k) process =
  psEvents :: "'k mainEvent list"
  psExit :: nat
  psProgram :: "('e managed reconciler \<times> resolverSys) option"

text \<open>From the manager on: the controller, the probes, and the manager's \<^verbatim>\<open>Start\<close>, which returns at shutdown.\<close>

definition runManager :: "('e, 'z, 'k) host \<Rightarrow> 'k managerOptions \<Rightarrow> 'e manager \<Rightarrow> string \<Rightarrow> ('e, 'k) process" where
  "runManager H mo M file = (case setupReconciler M file of
     Inl err \<Rightarrow> \<lparr>psEvents = [NewManager mo], psExit = 1, psProgram = None\<rparr>
   | Inr prog \<Rightarrow>
      if hsAddHealthz H \<noteq> None then \<lparr>psEvents = [NewManager mo, ControllerAdded], psExit = 1, psProgram = None\<rparr>
      else if hsAddReadyz H \<noteq> None then \<lparr>psEvents = [NewManager mo, ControllerAdded, HealthzAdded], psExit = 1, psProgram = None\<rparr>
      else \<lparr>psEvents = [NewManager mo, ControllerAdded, HealthzAdded, ReadyzAdded, ManagerStarted],
             psExit = (if hsStart H = None then 0 else 1), psProgram = Some prog\<rparr>)"

definition mainProcess :: "('e, 'z, 'k) host \<Rightarrow> string list \<Rightarrow> ('e, 'k) process" where
  "mainProcess H args = (case initScheme (hsSchemeLib H) (hsInstallers H) of
     None \<Rightarrow> \<lparr>psEvents = [], psExit = 2, psProgram = None\<rparr>
   | Some scheme \<Rightarrow> (case parseFlags (hsFlags H) args (defaultOptions, hsOther H) of
       HelpRequested \<Rightarrow> \<lparr>psEvents = [], psExit = 0, psProgram = None\<rparr>
     | ParseFailed err \<Rightarrow> \<lparr>psEvents = [], psExit = 2, psProgram = None\<rparr>
     | Parsed st rest \<Rightarrow>
         if \<not> hsConfig H then \<lparr>psEvents = [], psExit = 1, psProgram = None\<rparr>
         else let mo = managerOptionsOf scheme (fst st) in
           (case hsNewManager H mo of
              Inl err \<Rightarrow> \<lparr>psEvents = [NewManager mo], psExit = 1, psProgram = None\<rparr>
            | Inr M \<Rightarrow> runManager H mo M (opProviderFile (fst st)))))"

section \<open>The readiness probe\<close>

record probe =
  pbSynced :: bool
  pbCancelled :: bool
  pbWaiting :: bool
  pbClosed :: bool

definition probe_zero :: probe where
  "probe_zero = \<lparr>pbSynced = False, pbCancelled = False, pbWaiting = True, pbClosed = False\<rparr>"

text \<open>The check: a receive from \<^verbatim>\<open>cacheReady\<close> that does not wait, and succeeds when the channel is closed.\<close>

definition readyz :: "probe \<Rightarrow> go_error option" where
  "readyz s = (if pbClosed s then None else Some (ErrText ''informer cache has not yet synced''))"

text \<open>
  The steps around it: the caches sync, the signal context is cancelled, and \<^verbatim>\<open>WaitForCacheSync\<close> returns in
  its goroutine, true when the caches are synced, false when the context is done.
\<close>

inductive probe_step :: "probe \<Rightarrow> probe \<Rightarrow> bool" where
  caches_synced: "probe_step s (s\<lparr>pbSynced := True\<rparr>)"
| signalled: "probe_step s (s\<lparr>pbCancelled := True\<rparr>)"
| wait_true: "pbWaiting s \<Longrightarrow> pbSynced s \<Longrightarrow> probe_step s (s\<lparr>pbWaiting := False, pbClosed := True\<rparr>)"
| wait_false: "pbWaiting s \<Longrightarrow> pbCancelled s \<Longrightarrow> probe_step s (s\<lparr>pbWaiting := False\<rparr>)"

inductive_simps probe_step_simps: "probe_step s s'"

section \<open>Schemes\<close>

locale scheme_library =
  fixes K :: "'k schemeLib" and recognizes :: "'k \<Rightarrow> string \<times> string \<Rightarrow> string \<Rightarrow> bool"
  assumes adds: "kind \<in> set kinds \<Longrightarrow> recognizes (scAddKnownTypes K gv kinds scheme) gv kind"
    and keeps: "recognizes scheme gv kind \<Longrightarrow> recognizes (scAddToGroupVersion K scheme gv') gv kind"
begin

text \<open>Installers that only add.\<close>

definition onlyAdds :: "('k \<Rightarrow> go_error + 'k) \<Rightarrow> bool" where
  "onlyAdds f \<longleftrightarrow> (\<forall>scheme scheme' gv kind. f scheme = Inr scheme' \<longrightarrow> recognizes scheme gv kind \<longrightarrow> recognizes scheme' gv kind)"

lemma addToScheme_onlyAdds:
  assumes "list_all onlyAdds fs" "addToScheme fs scheme = Inr scheme'" "recognizes scheme gv kind"
  shows "recognizes scheme' gv kind"
  using assms
proof (induction fs arbitrary: scheme)
  case (Cons f fs)
  then obtain scheme1 where step: "f scheme = Inr scheme1" "addToScheme fs scheme1 = Inr scheme'" by (auto split: sum.splits)
  have "onlyAdds f" "list_all onlyAdds fs" using Cons.prems(1) by simp_all
  then have "recognizes scheme1 gv kind" using step(1) Cons.prems(3) unfolding onlyAdds_def by blast
  from Cons.IH [OF \<open>list_all onlyAdds fs\<close> step(2) this] show ?case .
qed simp

lemma addKnownTypes_recognizes:
  assumes "addKnownTypes K scheme = Inr scheme'" "kind \<in> {''ManagedServiceAccountReplicaSet'', ''ManagedServiceAccountReplicaSetList''}"
  shows "recognizes scheme' GroupVersion kind"
proof -
  have "kind \<in> set [''ManagedServiceAccountReplicaSet'', ''ManagedServiceAccountReplicaSetList'']" using assms(2) by simp
  from keeps [OF adds [OF this, of GroupVersion scheme], of GroupVersion] assms(1) show ?thesis
    by (simp add: addKnownTypes_def)
qed

lemma initScheme_recognizes:
  assumes "initScheme K N = Some scheme" "list_all onlyAdds [insCluster N, insMSA N, insWork N, insInventory N]"
    "kind \<in> {''ManagedServiceAccountReplicaSet'', ''ManagedServiceAccountReplicaSetList''}"
  shows "recognizes scheme GroupVersion kind"
proof -
  obtain s1 s2 where "addKnownTypes K s1 = Inr s2" "addToScheme [insCluster N, insMSA N, insWork N, insInventory N] s2 = Inr scheme"
    using assms(1) unfolding initScheme_def SchemeBuilder_def addToScheme.simps by (auto split: sum.splits)
  with addToScheme_onlyAdds [OF assms(2)] addKnownTypes_recognizes [OF _ assms(3)] show ?thesis by blast
qed

end

text \<open>A scheme as the list of what is registered.\<close>

type_synonym listedScheme = "((string \<times> string) \<times> string) list"

definition listScheme :: "listedScheme schemeLib" where
  "listScheme = \<lparr>scEmpty = [], scAddKnownTypes = (\<lambda>gv kinds s. map (Pair gv) kinds @ s),
     scAddToGroupVersion = (\<lambda>s gv. map (Pair gv) [''WatchEvent'', ''ListOptions''] @ s)\<rparr>"

interpretation listed: scheme_library listScheme "\<lambda>s gv kind. (gv, kind) \<in> set s"
  by unfold_locales (auto simp: listScheme_def)

section \<open>Properties\<close>

lemma runManager_program:
  assumes "psProgram (runManager H mo M file) = Some (R, s0)"
  shows "setupReconciler M file = Inr (R, s0)"
    "psEvents (runManager H mo M file) = [NewManager mo, ControllerAdded, HealthzAdded, ReadyzAdded, ManagerStarted]"
  using assms by (auto simp: runManager_def split: sum.splits if_splits)

lemma runManager_exit:
  "ManagerStarted \<in> set (psEvents (runManager H mo M file)) \<longleftrightarrow> psProgram (runManager H mo M file) \<noteq> None"
  "psExit (runManager H mo M file) = 0 \<longleftrightarrow> psProgram (runManager H mo M file) \<noteq> None \<and> hsStart H = None"
  by (auto simp: runManager_def split: sum.split)

lemma mainProcess_program:
  assumes "psProgram (mainProcess H args) = Some (R, s0)"
  obtains scheme opts z rest M where "initScheme (hsSchemeLib H) (hsInstallers H) = Some scheme"
    "parseFlags (hsFlags H) args (defaultOptions, hsOther H) = Parsed (opts, z) rest"
    "hsNewManager H (managerOptionsOf scheme opts) = Inr M" "setupReconciler M (opProviderFile opts) = Inr (R, s0)"
    "psEvents (mainProcess H args) = [NewManager (managerOptionsOf scheme opts), ControllerAdded, HealthzAdded, ReadyzAdded, ManagerStarted]"
  using assms
  by (auto simp: mainProcess_def Let_def runManager_program split: option.splits parsed.splits if_splits sum.splits dest: runManager_program)

text \<open>
  The process exits with status 0 exactly when it was only asked for help, or when its manager ran
  and stopped without an error; and the manager runs only with a complete program. Every error on the
  way (installers, flags, configuration, manager, resolver, controller, probes) ends the process
  with another status before the manager starts.
\<close>

theorem main_exit_status:
  "(psExit (mainProcess H args) = 0 \<longleftrightarrow>
      initScheme (hsSchemeLib H) (hsInstallers H) \<noteq> None \<and>
        parseFlags (hsFlags H) args (defaultOptions, hsOther H) = HelpRequested \<or>
      ManagerStarted \<in> set (psEvents (mainProcess H args)) \<and> hsStart H = None) \<and>
   (ManagerStarted \<in> set (psEvents (mainProcess H args)) \<longleftrightarrow> psProgram (mainProcess H args) \<noteq> None)"
  by (auto simp: mainProcess_def Let_def runManager_exit split: option.split parsed.split sum.split)

text \<open>The arguments of a deployment: each flag may be left out.\<close>

definition deployArgs :: "string option \<Rightarrow> string option \<Rightarrow> bool \<Rightarrow> string option \<Rightarrow> string list" where
  "deployArgs metrics health lead file =
     (case metrics of None \<Rightarrow> [] | Some a \<Rightarrow> [''--metrics-bind-address='' @ a]) @
     (case health of None \<Rightarrow> [] | Some a \<Rightarrow> [''--health-probe-bind-address='' @ a]) @
     (if lead then [''--leader-elect''] else []) @
     (case file of None \<Rightarrow> [] | Some f \<Rightarrow> [''--clusterprofile-provider-file='' @ f])"

lemma parseFlags_deployArgs:
  "parseFlags F (deployArgs metrics health lead file) (defaultOptions, z) = Parsed
     (\<lparr>opMetricsAddr = case_option '':8080'' id metrics, opHealthAddr = case_option '':8081'' id health,
       opLeaderElect = lead, opProviderFile = case_option [] id file\<rparr>, z) []"
  by (cases metrics; cases health; cases "file")
    (simp_all add: deployArgs_def defaultOptions_def flagKindOf_def setFlag_def parseBool_def)

lemma managerOptionsOf_fields [simp]:
  "moScheme (managerOptionsOf scheme opts) = scheme" "moMetricsAddr (managerOptionsOf scheme opts) = opMetricsAddr opts"
  "moHealthAddr (managerOptionsOf scheme opts) = opHealthAddr opts" "moLeaderElection (managerOptionsOf scheme opts) = opLeaderElect opts"
  "moLeaderElectionID (managerOptionsOf scheme opts) = ''ocm-managed-serviceaccount-replicaset-controller.authentication.appthrust.io''"
  "moSecureServing (managerOptionsOf scheme opts)" "moAuthenticated (managerOptionsOf scheme opts)"
  by (simp_all add: managerOptionsOf_def)

text \<open>The manager is made as the command line says: addresses, election, secured metrics, and a scheme with the kinds of the API.\<close>

definition configuredAs :: "('k \<Rightarrow> string \<times> string \<Rightarrow> string \<Rightarrow> bool) \<Rightarrow> string \<Rightarrow> string \<Rightarrow> bool \<Rightarrow> 'k managerOptions \<Rightarrow> bool" where
  "configuredAs recognizes metrics health lead mo \<longleftrightarrow>
     moMetricsAddr mo = metrics \<and> moHealthAddr mo = health \<and> moLeaderElection mo = lead \<and>
     moLeaderElectionID mo = ''ocm-managed-serviceaccount-replicaset-controller.authentication.appthrust.io'' \<and>
     moSecureServing mo \<and> moAuthenticated mo \<and>
     recognizes (moScheme mo) (''authentication.appthrust.io'', ''v1alpha1'') ''ManagedServiceAccountReplicaSet'' \<and>
     recognizes (moScheme mo) (''authentication.appthrust.io'', ''v1alpha1'') ''ManagedServiceAccountReplicaSetList''"

text \<open>The reconciler works on the manager's clients, and has a resolver and a janitor exactly when a provider file is named.\<close>

definition wiredAs :: "'e manager \<Rightarrow> string \<Rightarrow> 'e managed reconciler \<Rightarrow> bool" where
  "wiredAs M file R \<longleftrightarrow> rServer R = liftServer (mgMeanwhile M) (mgServer M) \<and> rRecorder R \<noteq> None \<and>
     (if file = [] then rResolver R = None \<and> rJanitor R = None
      else \<exists>cfg. mgNewFromFile M file = Inr cfg \<and> rResolver R = Some (resolverCall M cfg) \<and> rJanitor R = Some janitorCall)"

lemma setupReconciler_wired:
  assumes "setupReconciler M file = Inr (R, s0)"
  shows "wiredAs M file R"
  using assms
proof (cases rule: setupReconciler_cases)
  case off
  from SetupWithManager_fields [OF off(2)] off(1) show ?thesis by (simp add: wiredAs_def)
next
  case (on cfg)
  from SetupWithManager_fields [OF on(3)] on(1,2) show ?thesis by (simp add: wiredAs_def)
qed

lemma mainProcess_none:
  assumes "psProgram (mainProcess H args) = None" "parseFlags (hsFlags H) args (defaultOptions, hsOther H) = Parsed st rest"
  shows "psExit (mainProcess H args) \<noteq> 0 \<and> ManagerStarted \<notin> set (psEvents (mainProcess H args))"
  using assms by (auto simp: mainProcess_def Let_def runManager_exit simp del: neq0_conv split: option.splits sum.splits if_splits)

lemma mainProcess_some:
  assumes "psProgram (mainProcess H args) \<noteq> None"
  shows "psExit (mainProcess H args) = 0 \<longleftrightarrow> hsStart H = None"
  using assms by (auto simp: mainProcess_def Let_def runManager_exit split: option.splits parsed.splits sum.splits if_splits)

text \<open>
  C8: What starts is what the command line says. With the arguments of a deployment, each flag given or left out,
  \<^verbatim>\<open>main\<close> either exits with a failure before it starts a manager, or it has made the manager with the given metrics
  address (or :8080), the given probe address (or :8081), leader election when asked for and under the fixed
  name, metrics served only securely with authentication and authorisation, and a scheme that knows
  the set and its list; has registered the controller, the health check and the readiness check in this order
  before the manager starts; has a resolver and its janitor exactly when a provider file is named, with the configuration
  read from that file; and exits with 0 exactly when the manager stops without an error.
\<close>

theorem main_starts_safely:
  assumes "scheme_library (hsSchemeLib H) recognizes"
    and "list_all (scheme_library.onlyAdds recognizes)
           [insCluster (hsInstallers H), insMSA (hsInstallers H), insWork (hsInstallers H), insInventory (hsInstallers H)]"
    and "proc = mainProcess H (deployArgs metrics health lead file)"
  shows "case psProgram proc of
      None \<Rightarrow> psExit proc \<noteq> 0 \<and> ManagerStarted \<notin> set (psEvents proc)
    | Some (R, s0) \<Rightarrow> \<exists>mo M.
        psEvents proc = [NewManager mo, ControllerAdded, HealthzAdded, ReadyzAdded, ManagerStarted] \<and> hsNewManager H mo = Inr M \<and>
        configuredAs recognizes (case_option '':8080'' id metrics) (case_option '':8081'' id health) lead mo \<and>
        wiredAs M (case_option [] id file) R \<and> (psExit proc = 0 \<longleftrightarrow> hsStart H = None)"
proof (cases "psProgram proc")
  case None
  note failed = mainProcess_none [OF None [unfolded assms(3)] parseFlags_deployArgs, folded assms(3)]
  show ?thesis unfolding None option.case by (rule failed)
next
  case (Some prog)
  then obtain R s0 where prog: "psProgram (mainProcess H (deployArgs metrics health lead file)) = Some (R, s0)"
    unfolding assms(3) by (cases prog) auto
  obtain scheme opts z rest M where run: "initScheme (hsSchemeLib H) (hsInstallers H) = Some scheme"
    "parseFlags (hsFlags H) (deployArgs metrics health lead file) (defaultOptions, hsOther H) = Parsed (opts, z) rest"
    "hsNewManager H (managerOptionsOf scheme opts) = Inr M" "setupReconciler M (opProviderFile opts) = Inr (R, s0)"
    "psEvents proc = [NewManager (managerOptionsOf scheme opts), ControllerAdded, HealthzAdded, ReadyzAdded, ManagerStarted]"
    using mainProcess_program [OF prog] unfolding assms(3) .
  have opts: "opts = \<lparr>opMetricsAddr = case_option '':8080'' id metrics, opHealthAddr = case_option '':8081'' id health,
       opLeaderElect = lead, opProviderFile = case_option [] id file\<rparr>"
    using run(2) by (simp add: parseFlags_deployArgs)
  note known = scheme_library.initScheme_recognizes [OF assms(1) run(1) assms(2), unfolded GroupVersion_def Group_def Version_def]
  have "configuredAs recognizes (case_option '':8080'' id metrics) (case_option '':8081'' id health) lead (managerOptionsOf scheme opts)"
    using known [of "''ManagedServiceAccountReplicaSet''"] known [of "''ManagedServiceAccountReplicaSetList''"]
    by (simp add: configuredAs_def opts)
  moreover have "wiredAs M (case_option [] id file) R" using setupReconciler_wired [OF run(4)] by (simp add: opts)
  moreover have "psExit proc = 0 \<longleftrightarrow> hsStart H = None" using mainProcess_some prog unfolding assms(3) by blast
  ultimately show ?thesis using run(3,5) prog unfolding assms(3) by (auto simp del: managerOptionsOf_fields)
qed

text \<open>A process over the reference hub, with the arguments the deployment gives it.\<close>

definition addsKind :: "string \<times> string \<Rightarrow> string \<Rightarrow> listedScheme \<Rightarrow> go_error + listedScheme" where
  "addsKind gv kind s = Inr ((gv, kind) # s)"

definition sampleHost :: "(hub, unit, listedScheme) host" where
  "sampleHost = \<lparr>hsFlags = \<lparr>ofKind = (\<lambda>_. None), ofSet = (\<lambda>_ _ _. Inl (ErrText ''no such flag''))\<rparr>, hsOther = (),
     hsSchemeLib = listScheme,
     hsInstallers = \<lparr>insClientGo = addsKind ([], ''v1'') ''Namespace'',
       insCluster = addsKind (''cluster.open-cluster-management.io'', ''v1beta1'') ''Placement'',
       insMSA = addsKind (''authentication.open-cluster-management.io'', ''v1beta1'') ''ManagedServiceAccount'',
       insWork = addsKind (''work.open-cluster-management.io'', ''v1'') ''ManifestWork'',
       insInventory = addsKind (''multicluster.x-k8s.io'', ''v1alpha1'') ''ClusterProfile''\<rparr>,
     hsConfig = True, hsNewManager = (\<lambda>mo. Inr hubManager), hsAddHealthz = None, hsAddReadyz = None, hsStart = None\<rparr>"

abbreviation sampleArgs :: "string list" where
  "sampleArgs \<equiv> deployArgs None (Some '':9090'') True (Some ''providers.json'')"

lemma addsKind_onlyAdds: "listed.onlyAdds (addsKind gv kind)"
  by (auto simp: listed.onlyAdds_def addsKind_def)

lemma sampleHost_runs: "psProgram (mainProcess sampleHost sampleArgs) = Some (fst hubWired, snd hubWired)"
  by (simp add: mainProcess_def sampleHost_def initScheme_def addsKind_def SchemeBuilder_def addKnownTypes_def listScheme_def
      parseFlags_deployArgs runManager_def hubWired_eq(1))

theorem main_starts_safely_witness:
  "\<exists>mo. NewManager mo \<in> set (psEvents (mainProcess sampleHost sampleArgs)) \<and>
     configuredAs (\<lambda>s gv kind. (gv, kind) \<in> set s) '':8080'' '':9090'' True mo \<and> wiredAs hubManager ''providers.json'' (fst hubWired)"
proof -
  let ?recognizes = "\<lambda>s gv kind. (gv, kind) \<in> set s"
  have "scheme_library (hsSchemeLib sampleHost) ?recognizes"
    using listed.scheme_library_axioms by (simp add: sampleHost_def)
  moreover have "list_all (scheme_library.onlyAdds ?recognizes) [insCluster (hsInstallers sampleHost),
      insMSA (hsInstallers sampleHost), insWork (hsInstallers sampleHost), insInventory (hsInstallers sampleHost)]"
    by (simp add: sampleHost_def addsKind_onlyAdds)
  ultimately obtain mo M where run: "psEvents (mainProcess sampleHost sampleArgs) = [NewManager mo, ControllerAdded, HealthzAdded, ReadyzAdded, ManagerStarted]"
    "hsNewManager sampleHost mo = Inr M" "configuredAs ?recognizes '':8080'' '':9090'' True mo" "wiredAs M ''providers.json'' (fst hubWired)"
    using main_starts_safely [of sampleHost ?recognizes, OF _ _ refl, of None "Some '':9090''" True "Some ''providers.json''"]
    unfolding sampleHost_runs option.case prod.case id_apply by blast
  from run(2) have "M = hubManager" by (simp add: sampleHost_def)
  with run show ?thesis by auto
qed

text \<open>
  C35: The readiness probe is exact. In every state the process can reach: ready is reported only after the
  caches have synced, and then forever; while the goroutine waits and the caches are synced it can
  make the probe ready; it gives up only after a signal; and it closes the channel once, so
  closing it never panics.
\<close>

theorem readyz_exact:
  assumes "probe_step\<^sup>*\<^sup>* probe_zero s"
  shows "(readyz s = None \<longrightarrow> pbSynced s \<and> \<not> pbWaiting s) \<and>
    (\<forall>s'. probe_step\<^sup>*\<^sup>* s s' \<longrightarrow> readyz s = None \<longrightarrow> readyz s' = None) \<and>
    (pbSynced s \<and> pbWaiting s \<longrightarrow> (\<exists>s'. probe_step s s' \<and> readyz s' = None)) \<and>
    (readyz s \<noteq> None \<and> \<not> pbWaiting s \<longrightarrow> pbCancelled s)"
proof (intro conjI allI impI)
  have inv: "(pbClosed s \<longrightarrow> pbSynced s \<and> \<not> pbWaiting s) \<and> (\<not> pbClosed s \<longrightarrow> \<not> pbWaiting s \<longrightarrow> pbCancelled s)"
    using assms by (induction rule: rtranclp_induct) (auto simp: probe_zero_def probe_step_simps)
  show "pbSynced s" "\<not> pbWaiting s" if "readyz s = None"
    using that inv by (auto simp: readyz_def split: if_splits)
  show "pbCancelled s" if "readyz s \<noteq> None \<and> \<not> pbWaiting s"
    using that inv by (auto simp: readyz_def split: if_splits)
  show "readyz s' = None" if "probe_step\<^sup>*\<^sup>* s s'" "readyz s = None" for s'
    using that by (induction rule: rtranclp_induct) (auto simp: readyz_def probe_step_simps split: if_splits)
  show "\<exists>s'. probe_step s s' \<and> readyz s' = None" if "pbSynced s \<and> pbWaiting s"
    using that probe_step.wait_true [of s] by (auto simp: readyz_def)
qed

theorem readyz_exact_witness:
  "\<exists>s. probe_step\<^sup>*\<^sup>* probe_zero s \<and> pbSynced s \<and> readyz probe_zero \<noteq> None \<and> (\<exists>s'. probe_step s s' \<and> readyz s' = None)"
proof -
  let ?s = "probe_zero\<lparr>pbSynced := True\<rparr>"
  have "probe_step\<^sup>*\<^sup>* probe_zero ?s" by (blast intro: probe_step.caches_synced)
  moreover from readyz_exact [OF this] have "\<exists>s'. probe_step ?s s' \<and> readyz s' = None" by (simp add: probe_zero_def)
  moreover have "pbSynced ?s" "readyz probe_zero \<noteq> None" by (simp_all add: readyz_def probe_zero_def)
  ultimately show ?thesis by blast
qed

end
