(* ===== verification/Spec2Isabelle.thy ===== *)
theory Spec2Isabelle
  imports Wanted_Children Watches Teardown Status_Admission Settlement Memory_Use Executable
begin

text \<open>
  A verification development for the ManagedServiceAccountReplicaSet operator: a Kubernetes
  controller on an Open Cluster Management (OCM) hub that, for every set, keeps a
  ManagedServiceAccount and the ManifestWorks with its remote RBAC in the namespace of each cluster
  that the set's placements select.

  \<^bold>\<open>The program and its model.\<close> Go functions are translated one by one, under their own names, into
  executable definitions. Code with effects is a program of the state monad over a world, which is an
  arbitrary environment and the trace of calls made to the API server, the namespace resolver and the
  event recorder, each with its answer; the server is a record of functions over that environment, so
  that theorems hold for every server, stale, failing or concurrently changed. Errors are values of a
  sum or option type, pointers are options, Go maps are finite maps (ranged over in sorted order where
  Go's order is unspecified, and shown not to matter where it is counted), \<^verbatim>\<open>int32\<close> wraps
  around, Go loops are folds or structural recursion. No definition needs fuel: all are total.

  \<^item> \<^verbatim>\<open>Prelude\<close>: strings, formatting, \<^verbatim>\<open>int32\<close>, Go errors; the collection \<open>policy_intros\<close>.
  \<^item> \<^verbatim>\<open>Sha256\<close>: SHA-256 and \<^verbatim>\<open>stableHash\<close> (\<^verbatim>\<open>rbac.go\<close>), its constants computed from the primes.
  \<^item> \<^verbatim>\<open>Api_Types\<close>: the structs of \<^verbatim>\<open>api/v1alpha1/managedserviceaccountreplicaset_types.go\<close> and the
    parts of OCM and Kubernetes objects the controller reads or writes, as records.
  \<^item> \<^verbatim>\<open>Library_Interface\<close>: imported packages as a record argument, their documented behaviour as
    locales (labels, status conditions, finalizers, JSON, OCM placement and rollout), and one concrete
    library on which all of them are interpreted.
  \<^item> \<^verbatim>\<open>Metadata\<close> (\<^verbatim>\<open>metadata.go\<close>): labels, annotations, ownership, stable names. Ownership labels
    cannot be overridden, identify one set, and lead back to it; names are bounded.
  \<^item> \<^verbatim>\<open>Validation\<close> (\<^verbatim>\<open>validateRuntimeSpec\<close> and helpers): the checks decide a declarative predicate.
  \<^item> \<^verbatim>\<open>Api_Server\<close>: calls, traces, the loop \<^verbatim>\<open>mfold\<close>, the rules of \<open>emits\<close> (what a program appends to
    the trace, with its result), and the locale \<open>trace_policy\<close>: a policy says which calls are justified
    by the calls before them, and the locale derives the compliance rules of each construct.
  \<^item> \<^verbatim>\<open>Reference_Hub\<close>: one concrete server for examples.
  \<^item> \<^verbatim>\<open>Rbac\<close> (\<^verbatim>\<open>rbac.go\<close>): grants to objects, slices, ManifestWorks and summaries. The accumulating
    loop refines a declarative specification, errors included; the privileges that roles and bindings give together
    are those of the grants; no object is rendered twice, except by selector grants of one name.
  \<^item> \<^verbatim>\<open>Controller_Access\<close> (\<^verbatim>\<open>controller_access.go\<close>): the controller's own account on managed clusters.
  \<^item> \<^verbatim>\<open>Children\<close> (\<^verbatim>\<open>ensureChild\<close> and its callers): the locale \<open>child_client\<close> of a typed client, interpreted
    for both child kinds; all outcomes of an ensure, down to what an account written looks like; the policy \<^const>\<open>writeOK\<close>; equality of specs is
    equality of JSON values.
  \<^item> \<^verbatim>\<open>Status\<close>: conditions and \<^verbatim>\<open>patchStatus\<close>; the conditions, with their reasons, that every list of errors leads to.
  \<^item> \<^verbatim>\<open>Cleanup\<close> (\<^verbatim>\<open>deleteStaleChildren\<close>, \<^verbatim>\<open>reconcileDelete\<close>): the locale \<open>child_deleter\<close>; all outcomes of
    stale cleanup; the order of a teardown.
  \<^item> \<^verbatim>\<open>Placement\<close> (\<^verbatim>\<open>resolvePlacementRefs\<close>): the union of the decisions the server answered, claims and primary
    references; the locale \<open>decision_tracker\<close> is what OCM's tracker makes of the decisions.
  \<^item> \<^verbatim>\<open>Rollout\<close> (\<^verbatim>\<open>clusterRolloutStatus\<close>, \<^verbatim>\<open>planRollout\<close>, summaries): no nil dereference; exact counters.
  \<^item> \<^verbatim>\<open>Reconcile\<close> (\<^verbatim>\<open>reconcileChildren\<close>, \<^verbatim>\<open>Reconcile\<close>): the whole reconciliation, all effects included.
  \<^item> \<^verbatim>\<open>Program_Walk\<close>: the programs walked once. The locales \<open>reading\<close>, \<open>applying\<close>, \<open>reconciling\<close> and \<open>calling\<close>
    conclude from single calls that every program up to \<^const>\<open>Reconcile\<close> moves along a preorder on worlds.
  \<^item> \<^verbatim>\<open>Write_Discipline\<close>: policies that allow reading; compliance of \<^const>\<open>Reconcile\<close> with the write policy.
  \<^item> \<^verbatim>\<open>Readiness\<close>: what was observed of a cluster that counts as ready, inside and outside the
    rollout window, through the plan and the ready count up to the status patch.
  \<^item> \<^verbatim>\<open>Wanted_Children\<close>: the names collected by the cluster loop cover what it writes, so that cleanup deletes
    nothing a pass wrote.
  \<^item> \<^verbatim>\<open>Status_Writes\<close>: which statuses a reconciliation can write at all, as the inductive predicate \<^const>\<open>candidate\<close>;
    the program is followed once, and properties of written statuses are shown case by case.
  \<^item> \<^verbatim>\<open>Rollout_Bounds\<close>, \<^verbatim>\<open>Status_Bounds\<close>: the counters of a plan, and of every status that is written, for the
    set and for each placement, as bounds carried through the loops.
  \<^item> \<^verbatim>\<open>Status_Admission\<close>: the markers of the status types; every status that is written satisfies them. The locale
    \<open>condition_lists\<close> is what setting and removing a condition does to the types of a list.
  \<^item> \<^verbatim>\<open>Convergence\<close>: the locale \<open>child_store\<close> of a server that returns what was written up to its encoding;
    a second ensure writes nothing. Interpreted on the concrete hub, which keeps manifests as raw JSON.
  \<^item> \<^verbatim>\<open>Settlement\<close>: the locale \<open>sole_writer\<close>, two such stores where a write leaves other keys alone; a pass of
    the cluster loop without trouble settles all children it wants, and later passes only read. It needs the
    wanted children of a cluster to have different keys, which \<^verbatim>\<open>Admission\<close> shows not to be guaranteed.
  \<^item> \<^verbatim>\<open>Label_Validity\<close>: when generated labels are label values at all.
  \<^item> \<^verbatim>\<open>Admission\<close>: the markers and CEL rules of the API types as predicates; what the runtime validation adds to
    them, the defaults of the API against those of the code, what becomes of user metadata, and two accounts
    under one name that neither prevents.
  \<^item> \<^verbatim>\<open>Watches\<close> (\<^verbatim>\<open>SetupWithManager\<close>, the field index, the \<^verbatim>\<open>requestsFor...\<close> functions): the watches cover what a
    reconciliation reads.
  \<^item> \<^verbatim>\<open>Cluster_Access\<close> (\<^verbatim>\<open>namespace_resolver.go\<close>): the choice of a ClusterProfile, which does not depend on
    list order, and the access configuration, in which the exec plugin is given the controller's account and no other.
  \<^item> \<^verbatim>\<open>Namespace_Resolver\<close> (\<^verbatim>\<open>namespace_resolver.go\<close>): the map of remote namespace caches, one definition per
    critical section, and their sequential composition.
  \<^item> \<^verbatim>\<open>Resolver_Goroutines\<close>: the critical sections interleaved, as an inductive step relation; invariants of the
    reachable states by rule induction; the locale \<open>cache_janitor\<close> is what the reconciler relies on.
  \<^item> \<^verbatim>\<open>Manager\<close> (\<^verbatim>\<open>cmd/manager/main.go\<close>, the setup of the controller): reconciler and resolver put together, other
    goroutines moving between any two calls; informers through any sequence of reconciliations.
  \<^item> \<^verbatim>\<open>Command_Line\<close> (\<^verbatim>\<open>cmd/manager/main.go\<close>): the flags, and Go's parser of them as far as the program uses it;
    the arguments written from options are read back as these options.
  \<^item> \<^verbatim>\<open>Executable\<close> (\<^verbatim>\<open>cmd/manager/main.go\<close>, \<^verbatim>\<open>api/v1alpha1/groupversion_info.go\<close>): the scheme, with the locale
    \<open>scheme_library\<close>, the process from its arguments to its exit status, and the readiness probe with its
    goroutine as a step relation; the options of the manager and the wiring of the reconciler as the command line says.
  \<^item> \<^verbatim>\<open>Go_Memory\<close>: memory as cells under addresses, pointers, slices and maps. The locale \<open>looking\<close> is what an object
    stands for and which cells it owns, the locale \<open>copier\<close> adds a deep copy; the constructors of Go types
    (pairs, pointers, slices, maps) are shown to preserve it.
  \<^item> \<^verbatim>\<open>Deep_Copy\<close> (\<^verbatim>\<open>api/v1alpha1/zz_generated.deepcopy.go\<close>): every generated function over that memory; a copy
    stands for the same value of \<^verbatim>\<open>Api_Types\<close> and shares nothing with the original. The copies of imported
    structs are the locale \<open>imported_structs\<close>.
  \<^item> \<^verbatim>\<open>Memory_Use\<close> (\<^verbatim>\<open>newStatus\<close>, \<^verbatim>\<open>patchStatus\<close>): where the controller changes a set in place, the objects
    stand for the values the other theories pass around.
  \<^item> \<^verbatim>\<open>Teardown\<close>: deletion of a set. A pass is never stuck; the locales \<open>deleting_server\<close>, \<open>deleting_pauses\<close> and \<open>deleting_hub\<close> are a
    server that removes or marks what is deleted, what happens between reconciliations, and a reconciler on it, with or
    without a janitor. The inductive predicate \<^const>\<open>passes\<close> is a run of reconciliations and pauses; when three pauses have
    let terminating children go, the deletion is finished. Interpreted on the concrete hub and on the wired program.

  \<^bold>\<open>Bounds.\<close> Counters are \<^verbatim>\<open>int32\<close>; theorems on counts assume fewer than \<open>2 ^ 31\<close> clusters (\<open>2 ^ 30\<close> where two
  counts are added), above which Go's counters wrap as the model's do. Names of placement references are assumed distinct where
  a theorem says so; the API server enforces it by the list type of the field.

  The namespace event channel is bounded by its capacity in the source, 1024. The three
  finishing pauses of a teardown are one for the ManifestWorks, one for the accounts, one for the finalizer.

  \<^bold>\<open>Not modelled.\<close> The settings of OCM's rollout strategies, which the controller hands on unread, and the markers
  of imported types; logging; the internals of the manager, of
  informers, client construction and the timing of contexts, which are imported and parameters
  here. Outside \<^verbatim>\<open>Deep_Copy\<close> and \<^verbatim>\<open>Memory_Use\<close> in-place mutation is threaded as values, and the pointers into
  \<^verbatim>\<open>status.Placements\<close> are indices.

  \<^bold>\<open>Plan.\<close> Next: from the cluster loop to a whole reconciliation on a server without other writers, where the
  rollout window moves on as children become ready.
\<close>

section \<open>The whole reconciliation\<close>

text \<open>
  C1: Write discipline, against every API server. Whatever the server answers, a reconciliation
  first reads its set and does nothing more when that fails; otherwise it creates a child only
  after a read reported it missing, patches a child only as read and owned by the set, only in
  labels, annotations and spec, and only when that changes it, deletes only children listed under
  the set's ownership selector, writes only children the set owns, adds its finalizer only to a live set, removes it only from a
  set under deletion after both child lists came back empty, and patches only a changed status.
\<close>

theorem Reconcile_write_discipline:
  assumes "label_library (rLib R)" "finalizer_library (rLib R)"
  shows "\<exists>es. trace (snd (run_state (Reconcile R req) w)) = trace w @ es \<and>
    disciplined (rLib R) req (fst (run_state (Reconcile R req) w)) es"
  using Reconcile_emits [OF assms, of req] by (simp add: emits_def)

theorem Reconcile_write_discipline_witness:
  "disciplined ref_lib (''fleet'', ''viewer'') (ctrlResult_zero, None)
     (trace (snd (run_state (Reconcile (hubReconciler ref_lib) (''fleet'', ''viewer''))
        (sampleWorld (emptyHub\<lparr>hubSets := [sampleSet]\<rparr>)))))"
proof -
  let ?run = "run_state (Reconcile (hubReconciler ref_lib) (''fleet'', ''viewer''))
      (sampleWorld (emptyHub\<lparr>hubSets := [sampleSet]\<rparr>))"
  have "fst ?run = (ctrlResult_zero, None)"
    by (simp add: Reconcile_def getSet_def call_def hubServer_def hubGet_def hubFind_def sampleWorld_def emptyHub_def
        reconcileBody_def ref.AddFinalizer finalizerName_def patchSet_def hubPatch_def stopNamespaceCaches_def
        hubReconciler_def Let_def)
  with Reconcile_write_discipline [OF _ _, of "hubReconciler ref_lib" "(''fleet'', ''viewer'')"
      "sampleWorld (emptyHub\<lparr>hubSets := [sampleSet]\<rparr>)"]
  show ?thesis by (simp add: ref.label_library_axioms ref.finalizer_library_axioms sampleWorld_def)
qed

text \<open>
  C2: Ready is sound. Against every API server: when a reconciliation patches the status of its set
  to say Ready, then before that patch, in the same reconciliation, the server answered for every
  selected cluster (fewer than \<open>2 ^ 31\<close>) with a ManagedServiceAccount that has its token, and, as far as
  the set asks for them, with the controller's own account and permissions and with a ManifestWork for
  every RBAC slice of that cluster, all slices resolved, each ManifestWork available or rolled out at
  its current generation. No path through early returns, deletion or planning errors says Ready.
\<close>

theorem Reconcile_ready_sound:
  assumes "condition_library (rLib R)" "sdk_library (rLib R)" "finalizer_library (rLib R)"
    and "run_state (getSet R req) w = (Inr rs, w0)"
    and "run_state (resolvePlacementRefs R rs (setGeneration rs)) w0 = (p, w1)"
    and "length (reClusters p) < 2 ^ 31"
  shows "\<exists>es. trace (snd (run_state (Reconcile R req) w)) = trace w @ GetSet req (Inr rs) # es \<and>
    justified (readyOK (rLib R) rs (reClusters p)) {} es"
  by (rule Reconcile_ready [OF assms])

theorem Reconcile_ready_sound_witness:
  "childrenObserved ref_lib (workDone ref_lib) readySet ''c1'' (set (trace (snd readyRun))) \<and>
   childrenObserved ref_lib (workDone ref_lib) readySet ''c2'' (set (trace (snd readyRun)))"
proof -
  let ?req = "(''fleet'', ''viewer'')"
  obtain w0 p w1 where get: "run_state (getSet (hubReconciler ref_lib) ?req) (sampleWorld readyHub) = (Inr readySet, w0)"
    and run: "run_state (resolvePlacementRefs (hubReconciler ref_lib) readySet (setGeneration readySet)) w0 = (p, w1)"
    and p: "reClusters p = [''c1'', ''c2'']"
    by (rule readyRun_resolves)
  from Reconcile_ready_sound [OF _ _ _ get run] obtain es where
    es: "trace (snd readyRun) = GetSet ?req (Inr readySet) # es" "justified (readyOK ref_lib readySet (reClusters p)) {} es"
    by (auto simp: p readyRun_def sampleWorld_def ref.condition_library_axioms ref.sdk_library_axioms ref.finalizer_library_axioms)
  from readyRun_says_ready es(1) obtain base new r where
    "PatchSetStatus base new r \<in> set es" "saysReady ref_lib (setStatus new)"
    by (auto simp: list_ex_iff split: api_event.splits)
  with ready.justified_member [OF es(2)] have "\<forall>c \<in> set (reClusters p). childrenObserved ref_lib (workDone ref_lib) readySet c (set es)"
    by fastforce
  then have "\<forall>c \<in> set (reClusters p). childrenObserved ref_lib (workDone ref_lib) readySet c (set (trace (snd readyRun)))"
    unfolding es(1) by (auto elim!: childrenObserved_mono)
  then show ?thesis by (simp add: p)
qed

text \<open>
  C5: Counters are consistent in every status that is written. Against every API server and resolver, when
  the placements (of distinct names) select \<open>n\<close> clusters, fewer than \<open>2 ^ 30\<close>, each with at most \<open>B\<close> RBAC
  slices, \<open>n * B\<close> within \<^verbatim>\<open>int32\<close>: each status patch of the reconciliation has no negative counter, no more
  ready clusters than selected ones, no more clusters with controller access than desired ones, and,
  for the set and for each placement, no more applied, available, degraded, progressing or updated
  objects than found, no more found than desired ones, and no rollout counter above its total.
\<close>

theorem Reconcile_counters_consistent:
  assumes "finalizer_library (rLib R)" "sdk_library (rLib R)" "run_state (getSet R req) w = (Inr rs, w0)"
    and "distinct (map prName (spPlacementRefs (setSpec rs)))"
    and "slicesBounded R rs B" "n * B < 2 ^ 31" "n < 2 ^ 30"
    and "run_state (resolvePlacementRefs R rs (setGeneration rs)) w0 = (p, w1)" "length (reClusters p) = n"
  shows "\<exists>es. trace (snd (run_state (Reconcile R req) w)) = trace w @ GetSet req (Inr rs) # es \<and>
    (\<forall>base new r. PatchSetStatus base new r \<in> set es \<longrightarrow> countersOK (setStatus new))"
  by (rule Reconcile_counters [OF assms])

lemma readySet_bounded: "slicesBounded (hubReconciler ref_lib) readySet 0" "distinct (map prName (spPlacementRefs (setSpec readySet)))"
  "length (spPlacementRefs (setSpec readySet)) \<le> 16"
  by (simp_all add: slicesBounded_def desiredRBACSlices_def readySet_def sampleSpec_def setGrants_def yields_def assembleSlices_def Let_def)

lemma readyRun_patches:
  assumes "trace (snd readyRun) = GetSet (''fleet'', ''viewer'') (Inr readySet) # es"
  obtains base new r where "PatchSetStatus base new r \<in> set es"
  using readyRun_says_ready assms by (auto simp: list_ex_iff split: api_event.splits)

theorem Reconcile_counters_consistent_witness:
  "\<exists>base new r. PatchSetStatus base new r \<in> set (trace (snd readyRun)) \<and> countersOK (setStatus new)"
proof -
  obtain w0 p w1 where get: "run_state (getSet (hubReconciler ref_lib) (''fleet'', ''viewer'')) (sampleWorld readyHub) = (Inr readySet, w0)"
    and run: "run_state (resolvePlacementRefs (hubReconciler ref_lib) readySet (setGeneration readySet)) w0 = (p, w1)"
    and p: "reClusters p = [''c1'', ''c2'']"
    by (rule readyRun_resolves)
  from Reconcile_counters_consistent [OF _ _ get readySet_bounded(2,1) _ _ run refl] obtain es where
    es: "trace (snd readyRun) = GetSet (''fleet'', ''viewer'') (Inr readySet) # es"
      "\<forall>base new r. PatchSetStatus base new r \<in> set es \<longrightarrow> countersOK (setStatus new)"
    by (auto simp: p readyRun_def sampleWorld_def ref.finalizer_library_axioms ref.sdk_library_axioms)
  then show ?thesis using readyRun_patches [OF es(1)] by (metis list.set_intros(2))
qed

text \<open>
  C6: Every status that is written is admitted. Against every API server: when the stored status has only
  conditions of the controller's types, each once, and the specification's references are those the
  API admits (at most 16, of distinct names), then, within the bounds above, each status patch of the
  reconciliation satisfies the markers of the API types on minima, list lengths and list keys, and
  has again only conditions of the controller's types. So the next reconciliation starts from such a
  status, and the API server does not reject a status for these markers. The length of messages is not among them.
\<close>

theorem Reconcile_status_admitted:
  assumes "condition_lists (rLib R)" "finalizer_library (rLib R)" "sdk_library (rLib R)"
    and "run_state (getSet R req) w = (Inr rs, w0)"
    and "distinct (map prName (spPlacementRefs (setSpec rs)))" "length (spPlacementRefs (setSpec rs)) \<le> 16"
    and "ownConditions (setStatus rs)" "0 \<le> stObservedGeneration (setStatus rs)" "0 \<le> setGeneration rs"
    and "slicesBounded R rs B" "n * B < 2 ^ 31" "n < 2 ^ 30"
    and "run_state (resolvePlacementRefs R rs (setGeneration rs)) w0 = (p, w1)" "length (reClusters p) = n"
  shows "\<exists>es. trace (snd (run_state (Reconcile R req) w)) = trace w @ GetSet req (Inr rs) # es \<and>
    (\<forall>base new r. PatchSetStatus base new r \<in> set es \<longrightarrow> admitsStatus (setStatus new) \<and> ownConditions (setStatus new))"
  by (rule Reconcile_admitted [OF assms])

theorem Reconcile_status_admitted_witness:
  "\<exists>base new r. PatchSetStatus base new r \<in> set (trace (snd readyRun)) \<and> admitsStatus (setStatus new) \<and> ownConditions (setStatus new)"
proof -
  obtain w0 p w1 where get: "run_state (getSet (hubReconciler ref_lib) (''fleet'', ''viewer'')) (sampleWorld readyHub) = (Inr readySet, w0)"
    and run: "run_state (resolvePlacementRefs (hubReconciler ref_lib) readySet (setGeneration readySet)) w0 = (p, w1)"
    and p: "reClusters p = [''c1'', ''c2'']"
    by (rule readyRun_resolves)
  have stored: "ownConditions (setStatus readySet)" "0 \<le> stObservedGeneration (setStatus readySet)" "0 \<le> setGeneration readySet"
    by (simp_all add: readySet_def sampleSet_def sampleStatus_def ownConditions_def)
  from Reconcile_status_admitted [OF _ _ _ get readySet_bounded(2,3) stored readySet_bounded(1) _ _ run refl] obtain es where
    es: "trace (snd readyRun) = GetSet (''fleet'', ''viewer'') (Inr readySet) # es"
      "\<forall>base new r. PatchSetStatus base new r \<in> set es \<longrightarrow> admitsStatus (setStatus new) \<and> ownConditions (setStatus new)"
    by (auto simp: p readyRun_def sampleWorld_def ref.finalizer_library_axioms ref.sdk_library_axioms refLists.condition_lists_axioms)
  then show ?thesis using readyRun_patches [OF es(1)] by (metis list.set_intros(2))
qed

end
